theory Spec2Isabelle
  imports Complex_Main
begin

section \<open>Adaptive performance controller (main entry script, \<open>src/unnamed/part_001\<close>)\<close>

text \<open>
  The controller of the page is a set of module-level variables and the functions that
  mutate them. The model collects the variables in one record and passes it through
  every function. JavaScript numbers are IEEE doubles; they are modelled as reals
  (indices and frame counters as naturals), so rounding, NaN and infinities are outside
  the model except where a definition says otherwise. \<open>performance.now()\<close> is the
  parameter \<open>now\<close> of the functions that read it. The HUD and the console log only
  observe the state and are left out, and so are the calls into the renderer and the
  composer apart from the pixel ratio and the two effect resolutions.

  The repository holds an earlier copy of the entry script, \<open>src/unnamed/part_000\<close>,
  whose controller is the same code with a table of five buckets, other thresholds and
  no resume guard. The model follows \<open>part_001\<close>.
\<close>

subsection \<open>Data model\<close>

datatype device_category = Phone | Tablet | Fanless | Desktop

record quality_tier =
  name :: string
  bloomScale :: real
  reededScale :: real

record perf_state =
  \<comment> \<open>\<open>__deviceProfile\<close>\<close>
  category :: device_category
  baseCapInitial :: real
  baseCapMax :: real
  baseCapCurrent :: real
  largeDisplay :: bool
  \<comment> \<open>\<open>window.devicePixelRatio\<close>, read by \<open>currentTargetPixelRatio\<close> at every call; the
      browser changes it, the script never writes it\<close>
  devicePixelRatio :: real
  \<comment> \<open>quality ladder\<close>
  dprBucketIndex :: nat
  effectQualityLevel :: nat
  \<comment> \<open>frame-time smoothing and duration accumulators\<close>
  emaFrameTime :: real
  lastPerfChangeTime :: real
  lowPerfAccum :: real
  highPerfAccum :: real
  lastEmaFPS :: real
  \<comment> \<open>canvas CSS size\<close>
  lastCSSW :: real
  lastCSSH :: real
  \<comment> \<open>resume guard\<close>
  resumeGuardUntil :: real
  resumeIgnoreFrames :: nat
  postResumeDebounceUntil :: real
  \<comment> \<open>external handles: whether the effect exists yet, and what was last pushed\<close>
  reedEffect :: bool
  vignetteEffect :: bool
  rendererPixelRatio :: real
  reededRes :: "real \<times> real"
  vignetteRes :: "real \<times> real"

definition MAX_EFFECTIVE_DPR :: real where
  "MAX_EFFECTIVE_DPR = 175 / 100"

definition DPR_BUCKETS :: "real list" where
  "DPR_BUCKETS = [1, 9 / 10, 8 / 10]"

definition EFFECT_QUALITY_LEVELS :: "quality_tier list" where
  "EFFECT_QUALITY_LEVELS =
     [\<lparr>name = ''ultra'', bloomScale = 1, reededScale = 1\<rparr>,
      \<lparr>name = ''high'', bloomScale = 82 / 100, reededScale = 9 / 10\<rparr>,
      \<lparr>name = ''med'', bloomScale = 68 / 100, reededScale = 8 / 10\<rparr>,
      \<lparr>name = ''low'', bloomScale = 55 / 100, reededScale = 7 / 10\<rparr>]"

definition PERF_FPS_DROP_THRESHOLD :: real where
  "PERF_FPS_DROP_THRESHOLD = 55"

definition PERF_FPS_RAISE_THRESHOLD :: real where
  "PERF_FPS_RAISE_THRESHOLD = 65"

definition PERF_DEGRADE_MIN_DURATION :: real where
  "PERF_DEGRADE_MIN_DURATION = 4000"

definition PERF_UPGRADE_MIN_DURATION :: real where
  "PERF_UPGRADE_MIN_DURATION = 6000"

definition PERF_CHANGE_DEBOUNCE :: real where
  "PERF_CHANGE_DEBOUNCE = 1300"

definition EMA_WINDOW_SECONDS :: real where
  "EMA_WINDOW_SECONDS = 1"

definition PIXEL_BUDGET :: real where
  "PIXEL_BUDGET = 9000000"

subsection \<open>Resume guard\<close>

definition triggerResumeGuard :: "real \<Rightarrow> perf_state \<Rightarrow> perf_state" where
  "triggerResumeGuard now s =
     s\<lparr>resumeGuardUntil := now + 4500,
       resumeIgnoreFrames := 60,
       postResumeDebounceUntil := now + 7000,
       emaFrameTime := 1 / 60,
       lowPerfAccum := 0,
       highPerfAccum := 0,
       lastPerfChangeTime := now\<rparr>"

subsection \<open>Pixel ratio, effect tier and pixel budget\<close>

text \<open>
  \<open>applyEffectQuality\<close> returns early when the tier index is outside the table, and
  pushes the scaled resolution only when the reeded effect exists.
\<close>

definition applyEffectQuality :: "perf_state \<Rightarrow> perf_state" where
  "applyEffectQuality s =
     (if \<not> effectQualityLevel s < length EFFECT_QUALITY_LEVELS then s
      else let tier = EFFECT_QUALITY_LEVELS ! effectQualityLevel s in
        if reedEffect s
        then s\<lparr>reededRes := (of_int \<lfloor>lastCSSW s * reededScale tier\<rfloor>,
                            of_int \<lfloor>lastCSSH s * reededScale tier\<rfloor>)\<rparr>
        else s)"

text \<open>
  \<open>DPR_BUCKETS[i] || 1.0\<close>: an index outside the table reads \<open>undefined\<close>, and
  \<open>undefined\<close> and \<open>0\<close> are replaced by 1. \<open>window.devicePixelRatio || 1\<close> likewise.
\<close>

definition bucketMul :: "perf_state \<Rightarrow> real" where
  "bucketMul s =
     (if dprBucketIndex s < length DPR_BUCKETS \<and> DPR_BUCKETS ! dprBucketIndex s \<noteq> 0
      then DPR_BUCKETS ! dprBucketIndex s else 1)"

definition currentTargetPixelRatio :: "perf_state \<Rightarrow> real" where
  "currentTargetPixelRatio s =
     (let base = baseCapCurrent s
      in min (base * bucketMul s)
           (min MAX_EFFECTIVE_DPR (if devicePixelRatio s = 0 then 1 else devicePixelRatio s)))"

definition internalPixels :: "perf_state \<Rightarrow> real" where
  "internalPixels s =
     (let pr = currentTargetPixelRatio s in lastCSSW s * lastCSSH s * pr * pr)"

text \<open>The \<open>while\<close> loop of \<open>enforcePixelBudget\<close>, with its flag \<open>changed\<close>.\<close>

function budgetLoop :: "perf_state \<Rightarrow> bool \<Rightarrow> perf_state \<times> bool" where
  "budgetLoop s changed =
     (if internalPixels s > PIXEL_BUDGET \<and> dprBucketIndex s < length DPR_BUCKETS - 1
      then budgetLoop (s\<lparr>dprBucketIndex := dprBucketIndex s + 1\<rparr>) True
      else (s, changed))"
  by pat_completeness auto
termination
  by (relation "measure (\<lambda>(s, changed). length DPR_BUCKETS - 1 - dprBucketIndex s)") auto

text \<open>The loop of \<open>enforcePixelBudget\<close> has nothing to do in a state: its condition is false.\<close>

definition budgetOk :: "perf_state \<Rightarrow> bool" where
  "budgetOk s = (\<not> (internalPixels s > PIXEL_BUDGET \<and> dprBucketIndex s < length DPR_BUCKETS - 1))"

text \<open>
  The statements of \<open>_applyRendererPixelRatio\<close> before its pixel-budget check: the
  pixel ratio goes to the renderer (and to \<open>resizeRendererAndComposer._epr\<close>), the
  vignette gets the framebuffer resolution, the reeded effect its tier resolution.
\<close>

definition pushPixelRatio :: "perf_state \<Rightarrow> perf_state" where
  "pushPixelRatio s =
     (let pr = currentTargetPixelRatio s;
          s1 = s\<lparr>rendererPixelRatio := pr\<rparr>;
          s2 = (if vignetteEffect s1
                then s1\<lparr>vignetteRes := (of_int \<lfloor>lastCSSW s1 * pr\<rfloor>,
                                       of_int \<lfloor>lastCSSH s1 * pr\<rfloor>)\<rparr>
                else s1)
      in applyEffectQuality s2)"

declare budgetLoop.simps [simp del]

lemma budgetLoop_step:
  "internalPixels s > PIXEL_BUDGET \<Longrightarrow> dprBucketIndex s < length DPR_BUCKETS - 1 \<Longrightarrow>
   budgetLoop s c = budgetLoop (s\<lparr>dprBucketIndex := dprBucketIndex s + 1\<rparr>) True"
  by (subst budgetLoop.simps) simp

lemma budgetLoop_stop:
  "\<not> (internalPixels s > PIXEL_BUDGET \<and> dprBucketIndex s < length DPR_BUCKETS - 1) \<Longrightarrow>
   budgetLoop s c = (s, c)"
  by (subst budgetLoop.simps) auto

lemma applyEffectQuality_bucket [simp]:
  "dprBucketIndex (applyEffectQuality s) = dprBucketIndex s"
  by (simp add: applyEffectQuality_def Let_def)

lemma pushPixelRatio_bucket [simp]:
  "dprBucketIndex (pushPixelRatio s) = dprBucketIndex s"
  by (simp add: pushPixelRatio_def Let_def)

lemma budgetLoop_bucket_mono:
  "dprBucketIndex s \<le> dprBucketIndex (fst (budgetLoop s c))"
proof (induction s c rule: budgetLoop.induct)
  case (1 s changed)
  show ?case
  proof (cases "internalPixels s > PIXEL_BUDGET \<and> dprBucketIndex s < length DPR_BUCKETS - 1")
    case True
    then have "budgetLoop s changed = budgetLoop (s\<lparr>dprBucketIndex := dprBucketIndex s + 1\<rparr>) True"
      by (simp add: budgetLoop_step)
    moreover from True "1" have
      "dprBucketIndex (s\<lparr>dprBucketIndex := dprBucketIndex s + 1\<rparr>)
         \<le> dprBucketIndex (fst (budgetLoop (s\<lparr>dprBucketIndex := dprBucketIndex s + 1\<rparr>) True))"
      by blast
    ultimately show ?thesis by simp
  next
    case False
    then show ?thesis by (simp add: budgetLoop_stop)
  qed
qed

lemma budgetLoop_changed:
  assumes a: "budgetLoop s False = (s', True)"
  shows "dprBucketIndex s < dprBucketIndex s' \<and> dprBucketIndex s < length DPR_BUCKETS - 1"
proof (cases "internalPixels s > PIXEL_BUDGET \<and> dprBucketIndex s < length DPR_BUCKETS - 1")
  case True
  with a have "budgetLoop (s\<lparr>dprBucketIndex := dprBucketIndex s + 1\<rparr>) True = (s', True)"
    by (simp add: budgetLoop_step)
  with budgetLoop_bucket_mono [of "s\<lparr>dprBucketIndex := dprBucketIndex s + 1\<rparr>" True]
  have "dprBucketIndex s + 1 \<le> dprBucketIndex s'" by simp
  with True show ?thesis by simp
next
  case False
  with a show ?thesis by (simp add: budgetLoop_stop)
qed

lemma budgetLoop_bucket_bound:
  "dprBucketIndex s \<le> length DPR_BUCKETS - 1 \<Longrightarrow>
   dprBucketIndex (fst (budgetLoop s c)) \<le> length DPR_BUCKETS - 1"
proof (induction s c rule: budgetLoop.induct)
  case (1 s changed)
  show ?case
  proof (cases "internalPixels s > PIXEL_BUDGET \<and> dprBucketIndex s < length DPR_BUCKETS - 1")
    case True
    then have "budgetLoop s changed = budgetLoop (s\<lparr>dprBucketIndex := dprBucketIndex s + 1\<rparr>) True"
      by (simp add: budgetLoop_step)
    moreover from True "1.IH" have
      "dprBucketIndex (fst (budgetLoop (s\<lparr>dprBucketIndex := dprBucketIndex s + 1\<rparr>) True))
         \<le> length DPR_BUCKETS - 1"
      by simp
    ultimately show ?thesis by simp
  next
    case False
    with "1.prems" show ?thesis by (simp add: budgetLoop_stop)
  qed
qed

text \<open>
  \<open>_applyRendererPixelRatio\<close> ends by calling \<open>enforcePixelBudget\<close>, and
  \<open>enforcePixelBudget\<close> calls \<open>_applyRendererPixelRatio\<close> again when its loop moved
  the bucket: the two are mutually recursive. Every such round has moved the bucket
  index up, which bounds the recursion.
\<close>

function applyRendererPixelRatio :: "perf_state \<Rightarrow> perf_state"
  and enforcePixelBudget :: "perf_state \<Rightarrow> perf_state" where
  "applyRendererPixelRatio s = enforcePixelBudget (pushPixelRatio s)"
| "enforcePixelBudget s =
     (case budgetLoop s False of
        (s', changed) \<Rightarrow> if changed then applyRendererPixelRatio s' else s')"
  by pat_completeness auto
termination
proof (relation "measure (\<lambda>x. case x of
          Inl s \<Rightarrow> 2 * (length DPR_BUCKETS - 1 - dprBucketIndex s) + 2
        | Inr s \<Rightarrow> 2 * (length DPR_BUCKETS - 1 - dprBucketIndex s) + 1)")
  show "wf (measure (\<lambda>x. case x of
          Inl s \<Rightarrow> 2 * (length DPR_BUCKETS - 1 - dprBucketIndex s) + 2
        | Inr s \<Rightarrow> 2 * (length DPR_BUCKETS - 1 - dprBucketIndex s) + 1))"
    by simp
next
  fix s
  show "(Inr (pushPixelRatio s), Inl s) \<in> measure (\<lambda>x. case x of
          Inl s \<Rightarrow> 2 * (length DPR_BUCKETS - 1 - dprBucketIndex s) + 2
        | Inr s \<Rightarrow> 2 * (length DPR_BUCKETS - 1 - dprBucketIndex s) + 1)"
    by simp
next
  fix s xa y
  assume "(xa, y) = budgetLoop s False" "y"
  then have eq: "budgetLoop s False = (xa, True)" by simp
  from budgetLoop_changed [OF eq]
  have "dprBucketIndex s < dprBucketIndex xa" "dprBucketIndex s < length DPR_BUCKETS - 1"
    by simp_all
  moreover from budgetLoop_bucket_bound [of s False] eq
  have "dprBucketIndex xa \<le> length DPR_BUCKETS - 1"
    using \<open>dprBucketIndex s < length DPR_BUCKETS - 1\<close> by simp
  ultimately have "length DPR_BUCKETS - 1 - dprBucketIndex xa
      < length DPR_BUCKETS - 1 - dprBucketIndex s"
    by arith
  then show "(Inl xa, Inr s) \<in> measure (\<lambda>x. case x of
          Inl s \<Rightarrow> 2 * (length DPR_BUCKETS - 1 - dprBucketIndex s) + 2
        | Inr s \<Rightarrow> 2 * (length DPR_BUCKETS - 1 - dprBucketIndex s) + 1)"
    by simp
qed

declare applyRendererPixelRatio.simps [simp del] enforcePixelBudget.simps [simp del]

subsection \<open>Ladder steps\<close>

definition effectiveDebounceMs :: "real \<Rightarrow> perf_state \<Rightarrow> real" where
  "effectiveDebounceMs now s =
     PERF_CHANGE_DEBOUNCE + (if now < postResumeDebounceUntil s then 700 else 0)"

definition attemptDegrade :: "real \<Rightarrow> perf_state \<Rightarrow> perf_state" where
  "attemptDegrade now s =
     (if now < resumeGuardUntil s then s
      else if now - lastPerfChangeTime s < effectiveDebounceMs now s then s
      else if effectQualityLevel s < length EFFECT_QUALITY_LEVELS - 1
      then (applyEffectQuality (s\<lparr>effectQualityLevel := effectQualityLevel s + 1\<rparr>))
             \<lparr>lastPerfChangeTime := now\<rparr>
      else if dprBucketIndex s < length DPR_BUCKETS - 1
      then (applyRendererPixelRatio (s\<lparr>dprBucketIndex := dprBucketIndex s + 1\<rparr>))
             \<lparr>lastPerfChangeTime := now\<rparr>
      else s)"

definition attemptUpgrade :: "real \<Rightarrow> perf_state \<Rightarrow> perf_state" where
  "attemptUpgrade now s =
     (if now - lastPerfChangeTime s < effectiveDebounceMs now s then s
      else if dprBucketIndex s > 0
      then (applyRendererPixelRatio (s\<lparr>dprBucketIndex := dprBucketIndex s - 1\<rparr>))
             \<lparr>lastPerfChangeTime := now\<rparr>
      else if effectQualityLevel s > 0
      then (applyEffectQuality (s\<lparr>effectQualityLevel := effectQualityLevel s - 1\<rparr>))
             \<lparr>lastPerfChangeTime := now\<rparr>
      else if category s = Desktop \<and> baseCapCurrent s < baseCapMax s
      then (applyRendererPixelRatio
              (s\<lparr>baseCapCurrent := min (baseCapMax s) (baseCapCurrent s + 1 / 10)\<rparr>))
             \<lparr>lastPerfChangeTime := now\<rparr>
      else s)"

text \<open>
  A step is performed when the call gets past its early returns: the resume guard (for
  a degrade only) and the debounce interval.
\<close>

definition degradeAllowed :: "real \<Rightarrow> perf_state \<Rightarrow> bool" where
  "degradeAllowed now s =
     (\<not> now < resumeGuardUntil s \<and> \<not> now - lastPerfChangeTime s < effectiveDebounceMs now s)"

definition upgradeAllowed :: "real \<Rightarrow> perf_state \<Rightarrow> bool" where
  "upgradeAllowed now s = (\<not> now - lastPerfChangeTime s < effectiveDebounceMs now s)"

subsection \<open>Per-frame update\<close>

text \<open>
  The band of a frame is decided on \<open>emaFPS = 1 / _emaFrameTime\<close>. In JavaScript
  \<open>1 / 0\<close> is \<open>Infinity\<close>, which is at or above the raise threshold; HOL's \<open>1 / 0\<close>
  is \<open>0\<close>, so that case is written out.
\<close>

datatype band = Degrading | Upgrading | Neutral

text \<open>The smoothed frame time that \<open>perfAdaptiveUpdate\<close> computes from a frame.\<close>

definition nextEma :: "real \<Rightarrow> perf_state \<Rightarrow> real" where
  "nextEma delta s =
     emaFrameTime s + (1 - exp (- delta / EMA_WINDOW_SECONDS)) * (delta - emaFrameTime s)"

definition fpsBand :: "real \<Rightarrow> band" where
  "fpsBand ema =
     (if ema = 0 then Upgrading
      else if 1 / ema < PERF_FPS_DROP_THRESHOLD then Degrading
      else if 1 / ema \<ge> PERF_FPS_RAISE_THRESHOLD then Upgrading
      else Neutral)"

definition perfAdaptiveUpdate :: "real \<Rightarrow> real \<Rightarrow> perf_state \<Rightarrow> perf_state" where
  "perfAdaptiveUpdate delta now s =
     (if resumeIgnoreFrames s > 0
      then s\<lparr>resumeIgnoreFrames := resumeIgnoreFrames s - 1\<rparr>
      else
        let alpha = 1 - exp (- delta / EMA_WINDOW_SECONDS);
            ema = emaFrameTime s + alpha * (delta - emaFrameTime s);
            s1 = s\<lparr>emaFrameTime := ema, lastEmaFPS := 1 / ema\<rparr>
        in case fpsBand ema of
             Degrading \<Rightarrow>
               let s2 = s1\<lparr>lowPerfAccum := lowPerfAccum s1 + delta * 1000,
                          highPerfAccum := 0\<rparr>
               in if lowPerfAccum s2 \<ge> PERF_DEGRADE_MIN_DURATION
                  then (attemptDegrade now s2)\<lparr>lowPerfAccum := 0\<rparr>
                  else s2
           | Upgrading \<Rightarrow>
               let s2 = s1\<lparr>highPerfAccum := highPerfAccum s1 + delta * 1000,
                          lowPerfAccum := 0\<rparr>
               in if highPerfAccum s2 \<ge> PERF_UPGRADE_MIN_DURATION
                  then (attemptUpgrade now s2)\<lparr>highPerfAccum := 0\<rparr>
                  else s2
           | Neutral \<Rightarrow>
               s1\<lparr>lowPerfAccum := max 0 (lowPerfAccum s1 - delta * 400),
                  highPerfAccum := max 0 (highPerfAccum s1 - delta * 400)\<rparr>)"

text \<open>
  The states that one call of \<open>perfAdaptiveUpdate\<close> passes through, in order: the state
  after the frame-time bookkeeping, then the state after each assignment to an
  accumulator and after the ladder step, if the frame makes one. The last of them is
  the state in which the call returns.
\<close>

definition framePoints :: "real \<Rightarrow> real \<Rightarrow> perf_state \<Rightarrow> perf_state list" where
  "framePoints delta now s =
     (if resumeIgnoreFrames s > 0
      then [s\<lparr>resumeIgnoreFrames := resumeIgnoreFrames s - 1\<rparr>]
      else
        let alpha = 1 - exp (- delta / EMA_WINDOW_SECONDS);
            ema = emaFrameTime s + alpha * (delta - emaFrameTime s);
            s1 = s\<lparr>emaFrameTime := ema, lastEmaFPS := 1 / ema\<rparr>
        in case fpsBand ema of
             Degrading \<Rightarrow>
               let a = s1\<lparr>lowPerfAccum := lowPerfAccum s1 + delta * 1000\<rparr>;
                   b = a\<lparr>highPerfAccum := 0\<rparr>
               in if lowPerfAccum b \<ge> PERF_DEGRADE_MIN_DURATION
                  then [s1, a, b, attemptDegrade now b, (attemptDegrade now b)\<lparr>lowPerfAccum := 0\<rparr>]
                  else [s1, a, b]
           | Upgrading \<Rightarrow>
               let a = s1\<lparr>highPerfAccum := highPerfAccum s1 + delta * 1000\<rparr>;
                   b = a\<lparr>lowPerfAccum := 0\<rparr>
               in if highPerfAccum b \<ge> PERF_UPGRADE_MIN_DURATION
                  then [s1, a, b, attemptUpgrade now b, (attemptUpgrade now b)\<lparr>highPerfAccum := 0\<rparr>]
                  else [s1, a, b]
           | Neutral \<Rightarrow>
               let a = s1\<lparr>lowPerfAccum := max 0 (lowPerfAccum s1 - delta * 400)\<rparr>;
                   b = a\<lparr>highPerfAccum := max 0 (highPerfAccum a - delta * 400)\<rparr>
               in [s1, a, b])"

subsection \<open>Resize and the debug overrides of \<open>window.__perfDebug\<close>\<close>

definition resizeRendererAndComposer :: "real \<Rightarrow> real \<Rightarrow> perf_state \<Rightarrow> perf_state" where
  "resizeRendererAndComposer w h s =
     enforcePixelBudget (applyRendererPixelRatio (s\<lparr>lastCSSW := w, lastCSSH := h\<rparr>))"

text \<open>
  The animation-frame callback of \<open>handleResize\<close>, for the viewport size \<open>vw\<close> by
  \<open>cssH\<close> it has computed: after \<open>resizeRendererAndComposer\<close> it pushes the full size
  to the reeded effect and the framebuffer size to the vignette. The camera, the
  canvas style, the depth target and the gradient background are not part of the
  model.
\<close>

definition handleResize :: "real \<Rightarrow> real \<Rightarrow> perf_state \<Rightarrow> perf_state" where
  "handleResize vw cssH s =
     (let s1 = resizeRendererAndComposer vw cssH s;
          s2 = (if reedEffect s1 then s1\<lparr>reededRes := (vw, cssH)\<rparr> else s1);
          epr = (if rendererPixelRatio s2 = 0 then 1 else rendererPixelRatio s2)
      in if vignetteEffect s2
         then s2\<lparr>vignetteRes := (of_int \<lfloor>vw * epr\<rfloor>, of_int \<lfloor>cssH * epr\<rfloor>)\<rparr>
         else s2)"

text \<open>The index arguments of the overrides are taken as integers.\<close>

definition forceBucket :: "int \<Rightarrow> perf_state \<Rightarrow> perf_state" where
  "forceBucket i s =
     applyRendererPixelRatio
       (s\<lparr>dprBucketIndex := nat (min (max 0 i) (int (length DPR_BUCKETS) - 1))\<rparr>)"

definition forceTier :: "int \<Rightarrow> perf_state \<Rightarrow> perf_state" where
  "forceTier i s =
     applyEffectQuality
       (s\<lparr>effectQualityLevel := nat (min (max 0 i) (int (length EFFECT_QUALITY_LEVELS) - 1))\<rparr>)"

definition setBaseCap :: "real \<Rightarrow> perf_state \<Rightarrow> perf_state" where
  "setBaseCap v s =
     applyRendererPixelRatio (s\<lparr>baseCapCurrent := min (max (1 / 2) v) (baseCapMax s)\<rparr>)"

subsection \<open>Device profile and start of a session\<close>

text \<open>
  \<open>detectDeviceProfile\<close> tests the user agent and the screen; the outcomes of those
  tests are the fields of \<open>device_probe\<close>.
\<close>

record device_probe =
  isMobile :: bool
  isHighEndPhone :: bool
  isTablet :: bool
  isM1AirLike :: bool
  probeLargeDisplay :: bool
  probeDevicePixelRatio :: real

record device_profile =
  dpCategory :: device_category
  dpBaseCapInitial :: real
  dpBaseCapMax :: real
  dpBaseCapCurrent :: real
  dpLargeDisplay :: bool

definition detectDeviceProfile :: "device_probe \<Rightarrow> device_profile" where
  "detectDeviceProfile d =
     (let (cat, capInitial, capMax) =
            (if isMobile d
             then (if isHighEndPhone d then (Phone, 16 / 10, 17 / 10)
                   else (Phone, 135 / 100, 15 / 10))
             else if isTablet d then (Tablet, 125 / 100, 13 / 10)
             else if isM1AirLike d then (Fanless, 125 / 100, 135 / 100)
             else if probeLargeDisplay d then (Desktop, 118 / 100, 155 / 100)
             else (Desktop, 155 / 100, 175 / 100));
          dpr = (if probeDevicePixelRatio d = 0 then 1 else probeDevicePixelRatio d);
          capInitial' = min capInitial dpr;
          capMax' = min capMax dpr
      in \<lparr>dpCategory = cat, dpBaseCapInitial = capInitial', dpBaseCapMax = capMax',
          dpBaseCapCurrent = capInitial', dpLargeDisplay = probeLargeDisplay d\<rparr>)"

text \<open>
  The module-level initialisers, for a window of CSS size \<open>w\<close> by \<open>h\<close> loaded at time
  \<open>t0\<close>; then the script creates the vignette and reeded effects and calls
  \<open>_applyRendererPixelRatio(); applyEffectQuality();\<close> before the first frame.
\<close>

definition moduleState :: "device_probe \<Rightarrow> real \<Rightarrow> real \<Rightarrow> real \<Rightarrow> perf_state" where
  "moduleState d w h t0 =
     (let p = detectDeviceProfile d
      in \<lparr>category = dpCategory p, baseCapInitial = dpBaseCapInitial p,
          baseCapMax = dpBaseCapMax p, baseCapCurrent = dpBaseCapCurrent p,
          largeDisplay = dpLargeDisplay p,
          devicePixelRatio = probeDevicePixelRatio d,
          dprBucketIndex = 0, effectQualityLevel = 0,
          emaFrameTime = 1 / 60, lastPerfChangeTime = t0,
          lowPerfAccum = 0, highPerfAccum = 0, lastEmaFPS = 60,
          lastCSSW = w, lastCSSH = h,
          resumeGuardUntil = 0, resumeIgnoreFrames = 0, postResumeDebounceUntil = 0,
          reedEffect = False, vignetteEffect = False,
          rendererPixelRatio = 1, reededRes = (1, 1), vignetteRes = (1, 1)\<rparr>)"

definition startSession :: "device_probe \<Rightarrow> real \<Rightarrow> real \<Rightarrow> real \<Rightarrow> perf_state" where
  "startSession d w h t0 =
     applyEffectQuality
       (applyRendererPixelRatio
          ((moduleState d w h t0)\<lparr>reedEffect := True, vignetteEffect := True\<rparr>))"

subsection \<open>Sessions as event sequences\<close>

text \<open>
  After start-up the script changes the state only in the frame callback, in the resume
  listeners (\<open>visibilitychange\<close> to visible, \<open>focus\<close>, \<open>pageshow\<close>), in the resize
  handler and through the debug overrides. The browser changes
  \<open>window.devicePixelRatio\<close> when the page is zoomed or the window moves to another
  screen. The script has no listener for that change: the \<open>resize\<close> event that comes
  with a zoom only requests an animation frame, and \<open>Resize\<close> below is the callback of
  that request, so a frame, a resume event or an override can run with the new ratio
  while the canvas size and the bucket are still the old ones.
\<close>

datatype event =
    Frame real real
  | Resume real
  | Resize real real
  | ForceBucket int
  | ForceTier int
  | SetBaseCap real
  | DevicePixelRatioChange real

fun step :: "event \<Rightarrow> perf_state \<Rightarrow> perf_state" where
  "step (Frame delta now) s = perfAdaptiveUpdate delta now s"
| "step (Resume now) s = triggerResumeGuard now s"
| "step (Resize w h) s = handleResize w h s"
| "step (ForceBucket i) s = forceBucket i s"
| "step (ForceTier i) s = forceTier i s"
| "step (SetBaseCap v) s = setBaseCap v s"
| "step (DevicePixelRatioChange r) s = s\<lparr>devicePixelRatio := r\<rparr>"

definition run :: "event list \<Rightarrow> perf_state \<Rightarrow> perf_state" where
  "run evs s = fold step evs s"

text \<open>
  Two devices for the examples: a laptop with a high-density screen, and a desktop with
  a 5K2K ultrawide monitor at scale factor 1.
\<close>

definition laptopProbe :: device_probe where
  "laptopProbe = \<lparr>isMobile = False, isHighEndPhone = False, isTablet = False,
     isM1AirLike = False, probeLargeDisplay = False, probeDevicePixelRatio = 2\<rparr>"

definition ultrawideProbe :: device_probe where
  "ultrawideProbe = \<lparr>isMobile = False, isHighEndPhone = False, isTablet = False,
     isM1AirLike = False, probeLargeDisplay = True, probeDevicePixelRatio = 1\<rparr>"

text \<open>
  A zoom with the resize still pending, on the laptop with the tier at its worst value:
  the page is zoomed out to scale factor 1 and the resize callback runs for the larger
  viewport; then it is zoomed back in, and the callback for that resize has not run yet.
\<close>

definition zoomEvents :: "event list" where
  "zoomEvents =
     [ForceTier 3, DevicePixelRatioChange 1, Resize 2880 1800, DevicePixelRatioChange 2]"

text \<open>The same zoom with the bucket forced to 1 while the page is zoomed out.\<close>

definition zoomUpgradeEvents :: "event list" where
  "zoomUpgradeEvents =
     [DevicePixelRatioChange 1, Resize 2880 1800, ForceBucket 1, DevicePixelRatioChange 2]"

text \<open>
  Smooth rendering: \<open>n\<close> frames of ten milliseconds each, at the times 10, 20, ...
  milliseconds.
\<close>

fun smoothFrames :: "nat \<Rightarrow> event list" where
  "smoothFrames 0 = []"
| "smoothFrames (Suc n) = smoothFrames n @ [Frame (1 / 100) (10 * real (Suc n))]"

text \<open>
  What start-up establishes and every frame, resume event, resize and override keeps:
  the pixel budget has been enforced and both ladder indices are inside their tables.
  A change of \<open>window.devicePixelRatio\<close> keeps the indices inside their tables, but
  it can put the framebuffer over the budget until the next pixel-ratio push.
\<close>

definition ladderInv :: "perf_state \<Rightarrow> bool" where
  "ladderInv s =
     (budgetOk s \<and> dprBucketIndex s < length DPR_BUCKETS
      \<and> effectQualityLevel s < length EFFECT_QUALITY_LEVELS)"

text \<open>
  The ladder indices after a step depend on the state only through the fields that the
  step reads; the frame callback changes none of them before it attempts a step.
\<close>

definition sameLadderInputs :: "perf_state \<Rightarrow> perf_state \<Rightarrow> bool" where
  "sameLadderInputs s' s =
     (lastCSSW s' = lastCSSW s \<and> lastCSSH s' = lastCSSH s
      \<and> baseCapCurrent s' = baseCapCurrent s \<and> baseCapMax s' = baseCapMax s
      \<and> category s' = category s \<and> devicePixelRatio s' = devicePixelRatio s
      \<and> dprBucketIndex s' = dprBucketIndex s \<and> effectQualityLevel s' = effectQualityLevel s
      \<and> resumeGuardUntil s' = resumeGuardUntil s
      \<and> lastPerfChangeTime s' = lastPerfChangeTime s
      \<and> postResumeDebounceUntil s' = postResumeDebounceUntil s)"

text \<open>Kinds of events, for the statements about sessions.\<close>

fun isSetBaseCap :: "event \<Rightarrow> bool" where
  "isSetBaseCap (SetBaseCap v) = True"
| "isSetBaseCap _ = False"

fun isResume :: "event \<Rightarrow> bool" where
  "isResume (Resume now) = True"
| "isResume _ = False"

fun nonnegDelta :: "event \<Rightarrow> bool" where
  "nonnegDelta (Frame delta now) = (0 \<le> delta)"
| "nonnegDelta _ = True"

fun isRatioChange :: "event \<Rightarrow> bool" where
  "isRatioChange (DevicePixelRatioChange r) = True"
| "isRatioChange _ = False"

text \<open>Both ladder indices are inside their tables.\<close>

definition tablesInv :: "perf_state \<Rightarrow> bool" where
  "tablesInv s =
     (dprBucketIndex s < length DPR_BUCKETS
      \<and> effectQualityLevel s < length EFFECT_QUALITY_LEVELS)"

text \<open>At most one of the two duration accumulators is non-zero.\<close>

definition accumInv :: "perf_state \<Rightarrow> bool" where
  "accumInv s = (lowPerfAccum s = 0 \<or> highPerfAccum s = 0)"

section \<open>Scroll-driven shader parameters\<close>

subsection \<open>Glass configuration (identical in \<open>part_000\<close> and \<open>part_001\<close>)\<close>

record glass_config =
  splitScreen :: bool
  boundary :: real
  effectProgress :: real
  rightSideProgress :: real

definition getGlassModeForProgress :: "real \<Rightarrow> glass_config" where
  "getGlassModeForProgress scrollProgress =
     (if scrollProgress \<le> 1 / 2
      then let localProgress = scrollProgress * 2
           in \<lparr>splitScreen = True, boundary = 1 / 2,
               effectProgress = localProgress, rightSideProgress = 0\<rparr>
      else let localProgress = (scrollProgress - 1 / 2) * 2
           in \<lparr>splitScreen = True, boundary = 1 / 2,
               effectProgress = 1, rightSideProgress = localProgress\<rparr>)"

subsection \<open>Exposure and saturation\<close>

text \<open>
  \<open>baseExposure\<close> and \<open>baseSaturation\<close> are module variables (initially \<open>1.0\<close> and
  \<open>-0.25\<close>); the functions below take them as their first argument.
  \<open>THREE.MathUtils.clamp (v, lo, hi)\<close> is \<open>max (lo, min (hi, v))\<close>.
\<close>

definition clamp :: "real \<Rightarrow> real \<Rightarrow> real \<Rightarrow> real" where
  "clamp v lo hi = max lo (min hi v)"

definition computeExposureForScroll :: "real \<Rightarrow> real \<Rightarrow> real" where
  "computeExposureForScroll baseExposure scrollProgress =
     (let start = 1 / 2;
          end' = 1;
          t = clamp ((scrollProgress - start) / (end' - start)) 0 1;
          eased = t * t * (3 - 2 * t);
          finalFactor = 7 / 10
      in baseExposure * (1 - eased * (1 - finalFactor)))"

text \<open>
  \<open>updateSaturationForScroll\<close> writes \<open>hueSatEffect.saturation\<close>; the second argument
  is that field, \<open>None\<close> when the effect does not exist (the function then returns
  without writing).
\<close>

definition updateSaturationForScroll :: "real \<Rightarrow> real option \<Rightarrow> real \<Rightarrow> real option" where
  "updateSaturationForScroll baseSaturation hueSat scrollProgress =
     (case hueSat of
        None \<Rightarrow> None
      | Some _ \<Rightarrow> let targetSaturation = baseSaturation - scrollProgress * 0
                  in Some targetSaturation)"

text \<open>
  The earlier entry script \<open>part_000\<close> has no \<open>computeExposureForScroll\<close>: its
  \<open>handleScroll\<close> picks the exposure target below and tweens the renderer to it in 0.1 s.
\<close>

definition handleScroll_targetExposure :: "real \<Rightarrow> real \<Rightarrow> real" where
  "handleScroll_targetExposure baseExposure scrollProgress =
     (if scrollProgress > 1 / 2 then baseExposure * (7 / 10) else baseExposure)"

text \<open>
  Not from the code: the specification's ``smoothstep-eased interpolation of progress
  over the back half of the range only'', written out for comparison with the
  functions above. It is the base value up to one half, then the smoothstep of the
  rescaled progress between the base and the target value.
\<close>

definition smoothstep01 :: "real \<Rightarrow> real" where
  "smoothstep01 t = t * t * (3 - 2 * t)"

definition backHalfEased :: "real \<Rightarrow> real \<Rightarrow> real \<Rightarrow> real" where
  "backHalfEased base target p =
     (if p \<le> 1 / 2 then base
      else base + smoothstep01 (2 * (p - 1 / 2)) * (target - base))"

section \<open>Reeded-glass effect handle (\<open>src/effects/OverlayEffects.js\<close>)\<close>

text \<open>
  The arguments of the setters are JavaScript values. The model has numbers, with
  \<open>NaN\<close> and the two infinities, the missing values \<open>undefined\<close> and \<open>null\<close>, the
  booleans, and a plain object \<open>{}\<close> as the representative of a value that is not a
  number; strings are not modelled. An effect is its \<open>uniforms\<close> map from names to
  values; the handle is \<open>None\<close> while the effect is \<open>null\<close> or \<open>undefined\<close>.
\<close>

datatype jsnum = Fin real | NaN | PosInf | NegInf

datatype jsarg = Undefined | Null | Num jsnum | Bool bool | Obj

datatype js_error = TypeError

type_synonym uniforms = "string \<rightharpoonup> jsnum"

text \<open>
  The falsy values are \<open>undefined\<close>, \<open>null\<close>, \<open>NaN\<close>, \<open>0\<close> and \<open>false\<close>; every other
  value is truthy. \<open>x || 0\<close> is \<open>0\<close> for a falsy \<open>x\<close>, and \<open>x\<close> itself otherwise.
\<close>

fun truthy :: "jsarg \<Rightarrow> bool" where
  "truthy Undefined = False"
| "truthy Null = False"
| "truthy (Num NaN) = False"
| "truthy (Num (Fin r)) = (r \<noteq> 0)"
| "truthy (Num PosInf) = True"
| "truthy (Num NegInf) = True"
| "truthy (Bool b) = b"
| "truthy Obj = True"

definition orZero :: "jsarg \<Rightarrow> jsarg" where
  "orZero x = (if truthy x then x else Num (Fin 0))"

text \<open>
  \<open>Math.min\<close> and \<open>Math.max\<close> convert their arguments to numbers first: \<open>undefined\<close>
  and \<open>{}\<close> become \<open>NaN\<close>, \<open>null\<close> and \<open>false\<close> become \<open>0\<close>, \<open>true\<close> becomes \<open>1\<close>.
\<close>

fun toNumber :: "jsarg \<Rightarrow> jsnum" where
  "toNumber Undefined = NaN"
| "toNumber Null = Fin 0"
| "toNumber (Num n) = n"
| "toNumber (Bool b) = Fin (if b then 1 else 0)"
| "toNumber Obj = NaN"

text \<open>
  A parameter declared with a default value takes the default when its argument is
  \<open>undefined\<close> or is not passed, and only then.
\<close>

fun withDefault :: "real \<Rightarrow> jsarg \<Rightarrow> jsarg" where
  "withDefault d Undefined = Num (Fin d)"
| "withDefault d x = x"

text \<open>\<open>Math.min\<close> and \<open>Math.max\<close> of two numbers: \<open>NaN\<close> if either is \<open>NaN\<close>.\<close>

fun js_min :: "jsnum \<Rightarrow> jsnum \<Rightarrow> jsnum" where
  "js_min NaN _ = NaN"
| "js_min _ NaN = NaN"
| "js_min NegInf _ = NegInf"
| "js_min _ NegInf = NegInf"
| "js_min PosInf y = y"
| "js_min x PosInf = x"
| "js_min (Fin a) (Fin b) = Fin (min a b)"

fun js_max :: "jsnum \<Rightarrow> jsnum \<Rightarrow> jsnum" where
  "js_max NaN _ = NaN"
| "js_max _ NaN = NaN"
| "js_max PosInf _ = PosInf"
| "js_max _ PosInf = PosInf"
| "js_max NegInf y = y"
| "js_max x NegInf = x"
| "js_max (Fin a) (Fin b) = Fin (max a b)"

text \<open>
  \<open>U.get (k).value = v\<close> throws a \<open>TypeError\<close> when the map has no entry \<open>k\<close>
  (\<open>U.get\<close> returns \<open>undefined\<close>); the setters test \<open>U.has (k)\<close> first.
\<close>

definition setUniform :: "uniforms \<Rightarrow> string \<Rightarrow> jsnum \<Rightarrow> js_error + uniforms" where
  "setUniform U k v = (case U k of None \<Rightarrow> Inl TypeError | Some _ \<Rightarrow> Inr (U(k \<mapsto> v)))"

definition has :: "uniforms \<Rightarrow> string \<Rightarrow> bool" where
  "has U k = (U k \<noteq> None)"

definition setReededScrollProgress :: "uniforms option \<Rightarrow> jsarg \<Rightarrow> js_error + uniforms option" where
  "setReededScrollProgress effect scrollProgress =
     (case effect of
        None \<Rightarrow> Inr None
      | Some U \<Rightarrow>
          if has U ''scrollProgress''
          then map_sum id Some
                 (setUniform U ''scrollProgress''
                    (js_max (Fin 0) (js_min (Fin 1) (toNumber (orZero scrollProgress)))))
          else Inr (Some U))"

text \<open>
  \<open>setReededSplitScreenMode (effect, enabled, boundary = 0.5, rightSideProgress = 0.0)\<close>
  writes three uniforms in turn, each one only if the map has it. The right-side
  progress goes through \<open>Math.max (0, Math.min (1, rightSideProgress))\<close>, without the
  \<open>|| 0\<close> of \<open>setReededScrollProgress\<close>.
\<close>

definition setReededSplitScreenMode ::
  "uniforms option \<Rightarrow> jsarg \<Rightarrow> jsarg \<Rightarrow> jsarg \<Rightarrow> js_error + uniforms option" where
  "setReededSplitScreenMode effect enabled boundaryArg rightArg =
     (case effect of
        None \<Rightarrow> Inr None
      | Some U \<Rightarrow>
          let boundary' = withDefault (1 / 2) boundaryArg;
              rightSideProgress' = withDefault 0 rightArg
          in case (if has U ''splitScreenMode''
                   then setUniform U ''splitScreenMode'' (if truthy enabled then Fin 1 else Fin 0)
                   else Inr U) of
               Inl e \<Rightarrow> Inl e
             | Inr U1 \<Rightarrow>
                 (case (if has U1 ''splitScreenBoundary''
                        then setUniform U1 ''splitScreenBoundary''
                               (js_max (Fin 0) (js_min (Fin 1) (toNumber boundary')))
                        else Inr U1) of
                    Inl e \<Rightarrow> Inl e
                  | Inr U2 \<Rightarrow>
                      map_sum id Some
                        (if has U2 ''rightSideProgress''
                         then setUniform U2 ''rightSideProgress''
                                (js_max (Fin 0) (js_min (Fin 1) (toNumber rightSideProgress')))
                         else Inr U2)))"

text \<open>
  The value of a uniform after a call: what the map holds under the name when the call
  returned with the effect, and nothing when it threw or the handle was absent.
\<close>

definition uniformAfter :: "js_error + uniforms option \<Rightarrow> string \<Rightarrow> jsnum option" where
  "uniformAfter r k = (case r of Inr (Some U) \<Rightarrow> U k | _ \<Rightarrow> None)"

text \<open>A map with the entry of a name replaced, if it has one; for the statements below.\<close>

definition putIfPresent :: "string \<Rightarrow> jsnum \<Rightarrow> uniforms \<Rightarrow> uniforms" where
  "putIfPresent k v U = (if U k = None then U else U(k \<mapsto> v))"

section \<open>Properties of the performance controller\<close>

subsection \<open>Pixel-budget enforcement\<close>

lemma budgetLoop_fields:
  "\<exists>b. fst (budgetLoop s c) = s\<lparr>dprBucketIndex := b\<rparr>"
proof (induction s c rule: budgetLoop.induct)
  case (1 s changed)
  show ?case
  proof (cases "internalPixels s > PIXEL_BUDGET \<and> dprBucketIndex s < length DPR_BUCKETS - 1")
    case True
    let ?s1 = "s\<lparr>dprBucketIndex := dprBucketIndex s + 1\<rparr>"
    from True have eq: "budgetLoop s changed = budgetLoop ?s1 True"
      by (simp add: budgetLoop_step)
    from True "1.IH" obtain b where "fst (budgetLoop ?s1 True) = ?s1\<lparr>dprBucketIndex := b\<rparr>"
      by blast
    then have "fst (budgetLoop s changed) = s\<lparr>dprBucketIndex := b\<rparr>"
      by (simp add: eq)
    then show ?thesis by blast
  next
    case False
    then have "fst (budgetLoop s changed) = s\<lparr>dprBucketIndex := dprBucketIndex s\<rparr>"
      by (simp add: budgetLoop_stop)
    then show ?thesis by blast
  qed
qed

lemma budgetLoop_ok: "budgetOk (fst (budgetLoop s c))"
proof (induction s c rule: budgetLoop.induct)
  case (1 s changed)
  show ?case
  proof (cases "internalPixels s > PIXEL_BUDGET \<and> dprBucketIndex s < length DPR_BUCKETS - 1")
    case True
    with "1.IH" show ?thesis by (simp add: budgetLoop_step)
  next
    case False
    then show ?thesis by (simp add: budgetLoop_stop budgetOk_def)
  qed
qed

lemma budgetLoop_snd: "snd (budgetLoop s c) = (c \<or> \<not> budgetOk s)"
proof (cases "budgetOk s")
  case True
  then show ?thesis by (simp add: budgetLoop_stop budgetOk_def)
next
  case False
  then have c: "internalPixels s > PIXEL_BUDGET" "dprBucketIndex s < length DPR_BUCKETS - 1"
    by (simp_all add: budgetOk_def)
  have "\<And>s. snd (budgetLoop s True) = True"
  proof -
    fix s :: perf_state
    show "snd (budgetLoop s True) = True"
    proof (induction s "True" rule: budgetLoop.induct)
      case (1 s)
      show ?case
      proof (cases "internalPixels s > PIXEL_BUDGET \<and> dprBucketIndex s < length DPR_BUCKETS - 1")
        case True
        with "1" show ?thesis by (simp add: budgetLoop_step)
      next
        case False
        then show ?thesis by (simp add: budgetLoop_stop)
      qed
    qed
  qed
  with c False show ?thesis by (simp add: budgetLoop_step)
qed

lemma applyEffectQuality_shape: "\<exists>q. applyEffectQuality s = s\<lparr>reededRes := q\<rparr>"
proof (cases "effectQualityLevel s < length EFFECT_QUALITY_LEVELS \<and> reedEffect s")
  case True
  then have "applyEffectQuality s = s\<lparr>reededRes :=
      (of_int \<lfloor>lastCSSW s * reededScale (EFFECT_QUALITY_LEVELS ! effectQualityLevel s)\<rfloor>,
       of_int \<lfloor>lastCSSH s * reededScale (EFFECT_QUALITY_LEVELS ! effectQualityLevel s)\<rfloor>)\<rparr>"
    by (simp add: applyEffectQuality_def Let_def)
  then show ?thesis by blast
next
  case False
  then have "applyEffectQuality s = s\<lparr>reededRes := reededRes s\<rparr>"
    by (auto simp add: applyEffectQuality_def Let_def)
  then show ?thesis by blast
qed

lemma pushPixelRatio_shape:
  "\<exists>r v q. pushPixelRatio s = s\<lparr>rendererPixelRatio := r, vignetteRes := v, reededRes := q\<rparr>"
proof (cases "vignetteEffect s")
  case True
  let ?s2 = "s\<lparr>rendererPixelRatio := currentTargetPixelRatio s,
      vignetteRes := (of_int \<lfloor>lastCSSW s * currentTargetPixelRatio s\<rfloor>,
                      of_int \<lfloor>lastCSSH s * currentTargetPixelRatio s\<rfloor>)\<rparr>"
  obtain q where "applyEffectQuality ?s2 = ?s2\<lparr>reededRes := q\<rparr>"
    using applyEffectQuality_shape by blast
  with True have "pushPixelRatio s = ?s2\<lparr>reededRes := q\<rparr>"
    by (simp add: pushPixelRatio_def Let_def)
  then show ?thesis by blast
next
  case False
  let ?s2 = "s\<lparr>rendererPixelRatio := currentTargetPixelRatio s\<rparr>"
  obtain q where "applyEffectQuality ?s2 = ?s2\<lparr>reededRes := q\<rparr>"
    using applyEffectQuality_shape by blast
  with False have "pushPixelRatio s
      = s\<lparr>rendererPixelRatio := currentTargetPixelRatio s, vignetteRes := vignetteRes s,
          reededRes := q\<rparr>"
    by (simp add: pushPixelRatio_def Let_def)
  then show ?thesis by blast
qed

lemma currentTargetPixelRatio_push [simp]:
  "currentTargetPixelRatio (pushPixelRatio s) = currentTargetPixelRatio s"
proof -
  obtain r v q where "pushPixelRatio s = s\<lparr>rendererPixelRatio := r, vignetteRes := v, reededRes := q\<rparr>"
    using pushPixelRatio_shape by blast
  then show ?thesis by (simp add: currentTargetPixelRatio_def bucketMul_def)
qed

lemma internalPixels_push [simp]: "internalPixels (pushPixelRatio s) = internalPixels s"
proof -
  obtain r v q where "pushPixelRatio s = s\<lparr>rendererPixelRatio := r, vignetteRes := v, reededRes := q\<rparr>"
    using pushPixelRatio_shape by blast
  then show ?thesis by (simp add: internalPixels_def currentTargetPixelRatio_def bucketMul_def)
qed

lemma budgetOk_push [simp]: "budgetOk (pushPixelRatio s) = budgetOk s"
  by (simp add: budgetOk_def)

lemma enforcePixelBudget_eq:
  "enforcePixelBudget s =
     (if budgetOk s then s else pushPixelRatio (fst (budgetLoop s False)))"
proof (cases "budgetOk s")
  case True
  then have "budgetLoop s False = (s, False)"
    by (simp add: budgetLoop_stop budgetOk_def)
  with True show ?thesis by (subst enforcePixelBudget.simps) simp
next
  case False
  obtain s' ch where r: "budgetLoop s False = (s', ch)" by (cases "budgetLoop s False")
  with budgetLoop_snd [of s False] False have ch: "ch" by simp
  from r budgetLoop_ok [of s False] have ok: "budgetOk s'" by simp
  then have "budgetLoop (pushPixelRatio s') False = (pushPixelRatio s', False)"
    by (simp add: budgetLoop_stop budgetOk_def)
  then have "enforcePixelBudget (pushPixelRatio s') = pushPixelRatio s'"
    by (subst enforcePixelBudget.simps) simp
  then have "applyRendererPixelRatio s' = pushPixelRatio s'"
    by (subst applyRendererPixelRatio.simps)
  with r ch have "enforcePixelBudget s = pushPixelRatio s'"
    by (subst enforcePixelBudget.simps) simp
  with r False show ?thesis by simp
qed

lemma enforcePixelBudget_ok: "budgetOk (enforcePixelBudget s)"
  by (simp add: enforcePixelBudget_eq budgetLoop_ok)

lemma applyRendererPixelRatio_ok: "budgetOk (applyRendererPixelRatio s)"
  by (subst applyRendererPixelRatio.simps) (rule enforcePixelBudget_ok)

lemma enforcePixelBudget_shape:
  "\<exists>b r v q. enforcePixelBudget s
     = s\<lparr>dprBucketIndex := b, rendererPixelRatio := r, vignetteRes := v, reededRes := q\<rparr>"
proof (cases "budgetOk s")
  case True
  then have "enforcePixelBudget s = s\<lparr>dprBucketIndex := dprBucketIndex s,
      rendererPixelRatio := rendererPixelRatio s, vignetteRes := vignetteRes s,
      reededRes := reededRes s\<rparr>"
    by (simp add: enforcePixelBudget_eq)
  then show ?thesis by blast
next
  case False
  obtain b where b: "fst (budgetLoop s False) = s\<lparr>dprBucketIndex := b\<rparr>"
    using budgetLoop_fields by blast
  obtain r v q where "pushPixelRatio (s\<lparr>dprBucketIndex := b\<rparr>)
      = s\<lparr>dprBucketIndex := b, rendererPixelRatio := r, vignetteRes := v, reededRes := q\<rparr>"
    using pushPixelRatio_shape by blast
  with b False have "enforcePixelBudget s
      = s\<lparr>dprBucketIndex := b, rendererPixelRatio := r, vignetteRes := v, reededRes := q\<rparr>"
    by (simp add: enforcePixelBudget_eq)
  then show ?thesis by blast
qed

lemma applyRendererPixelRatio_shape:
  "\<exists>b r v q. applyRendererPixelRatio s
     = s\<lparr>dprBucketIndex := b, rendererPixelRatio := r, vignetteRes := v, reededRes := q\<rparr>"
proof -
  obtain r v q where p: "pushPixelRatio s
      = s\<lparr>rendererPixelRatio := r, vignetteRes := v, reededRes := q\<rparr>"
    using pushPixelRatio_shape by blast
  obtain b r' v' q' where "enforcePixelBudget (pushPixelRatio s)
      = (pushPixelRatio s)\<lparr>dprBucketIndex := b, rendererPixelRatio := r', vignetteRes := v',
          reededRes := q'\<rparr>"
    using enforcePixelBudget_shape by blast
  with p have "applyRendererPixelRatio s
      = s\<lparr>dprBucketIndex := b, rendererPixelRatio := r', vignetteRes := v', reededRes := q'\<rparr>"
    by (subst applyRendererPixelRatio.simps) simp
  then show ?thesis by blast
qed

lemma sq_min_mono:
  fixes b c m m' :: real
  assumes "0 < m'" "m' \<le> m"
  shows "min (b * m') c * min (b * m') c \<le> min (b * m) c * min (b * m) c"
proof -
  have "\<bar>min (b * m') c\<bar> \<le> \<bar>min (b * m) c\<bar>"
  proof (cases "0 \<le> b")
    case True
    with assms have "b * m' \<le> b * m" "0 \<le> b * m'"
      by (simp_all add: mult_left_mono)
    then show ?thesis by (auto simp add: min_def abs_if)
  next
    case False
    with assms have "b * m \<le> b * m'" "b * m' < 0"
      by (simp_all add: mult_left_mono_neg mult_neg_pos)
    then show ?thesis by (auto simp add: min_def abs_if)
  qed
  then have "(min (b * m') c)\<^sup>2 \<le> (min (b * m) c)\<^sup>2"
    by (simp add: abs_le_square_iff)
  then show ?thesis by (simp add: power2_eq_square)
qed

lemma bucketMul_step:
  assumes "dprBucketIndex s < length DPR_BUCKETS - 1"
  shows "0 < bucketMul (s\<lparr>dprBucketIndex := dprBucketIndex s + 1\<rparr>)
       \<and> bucketMul (s\<lparr>dprBucketIndex := dprBucketIndex s + 1\<rparr>) \<le> bucketMul s"
proof -
  from assms have "dprBucketIndex s = 0 \<or> dprBucketIndex s = 1"
    by (auto simp add: DPR_BUCKETS_def)
  then show ?thesis
    by (auto simp add: bucketMul_def DPR_BUCKETS_def)
qed

lemma internalPixels_step:
  assumes "dprBucketIndex s < length DPR_BUCKETS - 1" "internalPixels s \<le> PIXEL_BUDGET"
  shows "internalPixels (s\<lparr>dprBucketIndex := dprBucketIndex s + 1\<rparr>) \<le> PIXEL_BUDGET"
proof -
  let ?s' = "s\<lparr>dprBucketIndex := dprBucketIndex s + 1\<rparr>"
  let ?c = "min MAX_EFFECTIVE_DPR (if devicePixelRatio s = 0 then 1 else devicePixelRatio s)"
  have pr: "currentTargetPixelRatio s = min (baseCapCurrent s * bucketMul s) ?c"
    by (simp add: currentTargetPixelRatio_def)
  have pr': "currentTargetPixelRatio ?s' = min (baseCapCurrent s * bucketMul ?s') ?c"
    by (simp add: currentTargetPixelRatio_def)
  from bucketMul_step [OF assms(1)]
  have sq: "currentTargetPixelRatio ?s' * currentTargetPixelRatio ?s'
      \<le> currentTargetPixelRatio s * currentTargetPixelRatio s"
    unfolding pr pr' by (intro sq_min_mono) simp_all
  have ip: "internalPixels s
      = (lastCSSW s * lastCSSH s) * (currentTargetPixelRatio s * currentTargetPixelRatio s)"
    by (simp add: internalPixels_def Let_def)
  have ip': "internalPixels ?s'
      = (lastCSSW s * lastCSSH s) * (currentTargetPixelRatio ?s' * currentTargetPixelRatio ?s')"
    by (simp add: internalPixels_def Let_def)
  show ?thesis
  proof (cases "0 \<le> lastCSSW s * lastCSSH s")
    case True
    with sq have "internalPixels ?s' \<le> internalPixels s"
      unfolding ip ip' by (rule mult_left_mono)
    with assms(2) show ?thesis by simp
  next
    case False
    have "0 \<le> currentTargetPixelRatio ?s' * currentTargetPixelRatio ?s'" by simp
    moreover from False have "lastCSSW s * lastCSSH s \<le> 0" by simp
    ultimately have "internalPixels ?s' \<le> 0"
      unfolding ip' by (rule mult_nonneg_nonpos2)
    then show ?thesis by (simp add: PIXEL_BUDGET_def)
  qed
qed

lemma budgetOk_step:
  assumes "budgetOk s" "dprBucketIndex s < length DPR_BUCKETS - 1"
  shows "budgetOk (s\<lparr>dprBucketIndex := dprBucketIndex s + 1\<rparr>)"
proof -
  from assms have "internalPixels s \<le> PIXEL_BUDGET" by (simp add: budgetOk_def)
  from internalPixels_step [OF assms(2) this] show ?thesis by (simp add: budgetOk_def)
qed

lemma applyRendererPixelRatio_eq:
  "applyRendererPixelRatio s =
     (if budgetOk s then pushPixelRatio s
      else pushPixelRatio (fst (budgetLoop (pushPixelRatio s) False)))"
  by (subst applyRendererPixelRatio.simps) (simp add: enforcePixelBudget_eq)

subsection \<open>What the pushes leave alone\<close>

lemma internalPixels_cong:
  assumes "lastCSSW s' = lastCSSW s" "lastCSSH s' = lastCSSH s"
    "baseCapCurrent s' = baseCapCurrent s" "devicePixelRatio s' = devicePixelRatio s"
    "dprBucketIndex s' = dprBucketIndex s"
  shows "internalPixels s' = internalPixels s"
  using assms by (simp add: internalPixels_def currentTargetPixelRatio_def bucketMul_def)

lemma budgetOk_cong:
  assumes "lastCSSW s' = lastCSSW s" "lastCSSH s' = lastCSSH s"
    "baseCapCurrent s' = baseCapCurrent s" "devicePixelRatio s' = devicePixelRatio s"
    "dprBucketIndex s' = dprBucketIndex s"
  shows "budgetOk s' = budgetOk s"
  using internalPixels_cong [OF assms] assms(5) by (simp add: budgetOk_def)

lemma applyEffectQuality_fields [simp]:
  "effectQualityLevel (applyEffectQuality s) = effectQualityLevel s"
  "baseCapCurrent (applyEffectQuality s) = baseCapCurrent s"
  "baseCapMax (applyEffectQuality s) = baseCapMax s"
  "category (applyEffectQuality s) = category s"
  "devicePixelRatio (applyEffectQuality s) = devicePixelRatio s"
  "lastCSSW (applyEffectQuality s) = lastCSSW s"
  "lastCSSH (applyEffectQuality s) = lastCSSH s"
  "lowPerfAccum (applyEffectQuality s) = lowPerfAccum s"
  "highPerfAccum (applyEffectQuality s) = highPerfAccum s"
  "resumeGuardUntil (applyEffectQuality s) = resumeGuardUntil s"
  "lastPerfChangeTime (applyEffectQuality s) = lastPerfChangeTime s"
  "postResumeDebounceUntil (applyEffectQuality s) = postResumeDebounceUntil s"
  "resumeIgnoreFrames (applyEffectQuality s) = resumeIgnoreFrames s"
  "emaFrameTime (applyEffectQuality s) = emaFrameTime s"
  "reedEffect (applyEffectQuality s) = reedEffect s"
  "vignetteEffect (applyEffectQuality s) = vignetteEffect s"
  using applyEffectQuality_shape [of s] by auto

lemma applyRendererPixelRatio_fields [simp]:
  "effectQualityLevel (applyRendererPixelRatio s) = effectQualityLevel s"
  "baseCapCurrent (applyRendererPixelRatio s) = baseCapCurrent s"
  "baseCapMax (applyRendererPixelRatio s) = baseCapMax s"
  "category (applyRendererPixelRatio s) = category s"
  "devicePixelRatio (applyRendererPixelRatio s) = devicePixelRatio s"
  "lastCSSW (applyRendererPixelRatio s) = lastCSSW s"
  "lastCSSH (applyRendererPixelRatio s) = lastCSSH s"
  "lowPerfAccum (applyRendererPixelRatio s) = lowPerfAccum s"
  "highPerfAccum (applyRendererPixelRatio s) = highPerfAccum s"
  "resumeGuardUntil (applyRendererPixelRatio s) = resumeGuardUntil s"
  "lastPerfChangeTime (applyRendererPixelRatio s) = lastPerfChangeTime s"
  "postResumeDebounceUntil (applyRendererPixelRatio s) = postResumeDebounceUntil s"
  "resumeIgnoreFrames (applyRendererPixelRatio s) = resumeIgnoreFrames s"
  "emaFrameTime (applyRendererPixelRatio s) = emaFrameTime s"
  "reedEffect (applyRendererPixelRatio s) = reedEffect s"
  "vignetteEffect (applyRendererPixelRatio s) = vignetteEffect s"
  using applyRendererPixelRatio_shape [of s] by auto

lemma enforcePixelBudget_fields [simp]:
  "effectQualityLevel (enforcePixelBudget s) = effectQualityLevel s"
  "baseCapCurrent (enforcePixelBudget s) = baseCapCurrent s"
  "baseCapMax (enforcePixelBudget s) = baseCapMax s"
  "category (enforcePixelBudget s) = category s"
  "devicePixelRatio (enforcePixelBudget s) = devicePixelRatio s"
  "lastCSSW (enforcePixelBudget s) = lastCSSW s"
  "lastCSSH (enforcePixelBudget s) = lastCSSH s"
  "lowPerfAccum (enforcePixelBudget s) = lowPerfAccum s"
  "highPerfAccum (enforcePixelBudget s) = highPerfAccum s"
  "resumeGuardUntil (enforcePixelBudget s) = resumeGuardUntil s"
  "lastPerfChangeTime (enforcePixelBudget s) = lastPerfChangeTime s"
  "postResumeDebounceUntil (enforcePixelBudget s) = postResumeDebounceUntil s"
  "resumeIgnoreFrames (enforcePixelBudget s) = resumeIgnoreFrames s"
  "emaFrameTime (enforcePixelBudget s) = emaFrameTime s"
  "reedEffect (enforcePixelBudget s) = reedEffect s"
  "vignetteEffect (enforcePixelBudget s) = vignetteEffect s"
  using enforcePixelBudget_shape [of s] by auto

lemma resizeRendererAndComposer_shape:
  "\<exists>b r v q. resizeRendererAndComposer w h s
     = s\<lparr>lastCSSW := w, lastCSSH := h, dprBucketIndex := b, rendererPixelRatio := r,
         vignetteRes := v, reededRes := q\<rparr>"
proof -
  let ?s0 = "s\<lparr>lastCSSW := w, lastCSSH := h\<rparr>"
  obtain b r v q where a: "applyRendererPixelRatio ?s0
      = ?s0\<lparr>dprBucketIndex := b, rendererPixelRatio := r, vignetteRes := v, reededRes := q\<rparr>"
    using applyRendererPixelRatio_shape by blast
  obtain b' r' v' q' where "enforcePixelBudget (applyRendererPixelRatio ?s0)
      = (applyRendererPixelRatio ?s0)\<lparr>dprBucketIndex := b', rendererPixelRatio := r',
          vignetteRes := v', reededRes := q'\<rparr>"
    using enforcePixelBudget_shape by blast
  with a have "resizeRendererAndComposer w h s
      = s\<lparr>lastCSSW := w, lastCSSH := h, dprBucketIndex := b', rendererPixelRatio := r',
          vignetteRes := v', reededRes := q'\<rparr>"
    by (simp add: resizeRendererAndComposer_def)
  then show ?thesis by blast
qed

lemma handleResize_shape:
  "\<exists>r v q. handleResize w h s
     = (resizeRendererAndComposer w h s)\<lparr>rendererPixelRatio := r, vignetteRes := v,
         reededRes := q\<rparr>"
proof -
  let ?s1 = "resizeRendererAndComposer w h s"
  let ?s2 = "if reedEffect ?s1 then ?s1\<lparr>reededRes := (w, h)\<rparr> else ?s1"
  obtain q where s2: "?s2 = ?s1\<lparr>reededRes := q\<rparr>"
  proof (cases "reedEffect ?s1")
    case True
    then have "?s2 = ?s1\<lparr>reededRes := (w, h)\<rparr>" by simp
    then show ?thesis by (rule that)
  next
    case False
    then have "?s2 = ?s1\<lparr>reededRes := reededRes ?s1\<rparr>" by simp
    then show ?thesis by (rule that)
  qed
  have hr: "handleResize w h s
      = (if vignetteEffect ?s2
         then ?s2\<lparr>vignetteRes :=
           (of_int \<lfloor>w * (if rendererPixelRatio ?s2 = 0 then 1 else rendererPixelRatio ?s2)\<rfloor>,
            of_int \<lfloor>h * (if rendererPixelRatio ?s2 = 0 then 1 else rendererPixelRatio ?s2)\<rfloor>)\<rparr>
         else ?s2)"
    unfolding handleResize_def Let_def by (rule refl)
  show ?thesis
  proof (cases "vignetteEffect ?s2")
    case True
    with hr obtain v where "handleResize w h s = ?s2\<lparr>vignetteRes := v\<rparr>" by simp
    with s2 have "handleResize w h s
        = ?s1\<lparr>rendererPixelRatio := rendererPixelRatio ?s1, vignetteRes := v, reededRes := q\<rparr>"
      by simp
    then show ?thesis by blast
  next
    case False
    with hr have "handleResize w h s = ?s2" by simp
    with s2 have "handleResize w h s
        = ?s1\<lparr>rendererPixelRatio := rendererPixelRatio ?s1, vignetteRes := vignetteRes ?s1,
            reededRes := q\<rparr>"
      by simp
    then show ?thesis by blast
  qed
qed

lemma resizeRendererAndComposer_fields [simp]:
  "effectQualityLevel (resizeRendererAndComposer w h s) = effectQualityLevel s"
  "baseCapCurrent (resizeRendererAndComposer w h s) = baseCapCurrent s"
  "baseCapMax (resizeRendererAndComposer w h s) = baseCapMax s"
  "lowPerfAccum (resizeRendererAndComposer w h s) = lowPerfAccum s"
  "highPerfAccum (resizeRendererAndComposer w h s) = highPerfAccum s"
  "resumeGuardUntil (resizeRendererAndComposer w h s) = resumeGuardUntil s"
  using resizeRendererAndComposer_shape [of w h s] by auto

lemma handleResize_fields [simp]:
  "effectQualityLevel (handleResize w h s) = effectQualityLevel s"
  "baseCapCurrent (handleResize w h s) = baseCapCurrent s"
  "baseCapMax (handleResize w h s) = baseCapMax s"
  "lowPerfAccum (handleResize w h s) = lowPerfAccum s"
  "highPerfAccum (handleResize w h s) = highPerfAccum s"
  "resumeGuardUntil (handleResize w h s) = resumeGuardUntil s"
  "dprBucketIndex (handleResize w h s) = dprBucketIndex (resizeRendererAndComposer w h s)"
  "lastCSSW (handleResize w h s) = lastCSSW (resizeRendererAndComposer w h s)"
  "lastCSSH (handleResize w h s) = lastCSSH (resizeRendererAndComposer w h s)"
  "devicePixelRatio (handleResize w h s) = devicePixelRatio (resizeRendererAndComposer w h s)"
  using handleResize_shape [of w h s] by auto

lemma budgetOk_applyEffectQuality [simp]: "budgetOk (applyEffectQuality s) = budgetOk s"
  by (rule budgetOk_cong) simp_all

lemma applyRendererPixelRatio_bucket_ok:
  "budgetOk s \<Longrightarrow> dprBucketIndex (applyRendererPixelRatio s) = dprBucketIndex s"
  by (simp add: applyRendererPixelRatio_eq)

lemma enforcePixelBudget_bucket_bound:
  "dprBucketIndex s < length DPR_BUCKETS \<Longrightarrow>
   dprBucketIndex (enforcePixelBudget s) < length DPR_BUCKETS"
proof -
  assume a: "dprBucketIndex s < length DPR_BUCKETS"
  then have "dprBucketIndex s \<le> length DPR_BUCKETS - 1" by simp
  from budgetLoop_bucket_bound [OF this, of False]
  have "dprBucketIndex (fst (budgetLoop s False)) < length DPR_BUCKETS"
    by (simp add: DPR_BUCKETS_def)
  with a show ?thesis by (simp add: enforcePixelBudget_eq)
qed

lemma applyRendererPixelRatio_bucket_bound:
  "dprBucketIndex s < length DPR_BUCKETS \<Longrightarrow>
   dprBucketIndex (applyRendererPixelRatio s) < length DPR_BUCKETS"
  by (subst applyRendererPixelRatio.simps) (simp add: enforcePixelBudget_bucket_bound)

lemma ladderInv_cong:
  assumes "lastCSSW s' = lastCSSW s" "lastCSSH s' = lastCSSH s"
    "baseCapCurrent s' = baseCapCurrent s" "devicePixelRatio s' = devicePixelRatio s"
    "dprBucketIndex s' = dprBucketIndex s" "effectQualityLevel s' = effectQualityLevel s"
  shows "ladderInv s' = ladderInv s"
  using budgetOk_cong [OF assms(1-5)] assms(5,6) by (simp add: ladderInv_def)

lemma ladderInv_applyRendererPixelRatio:
  assumes "dprBucketIndex s < length DPR_BUCKETS"
    "effectQualityLevel s < length EFFECT_QUALITY_LEVELS"
  shows "ladderInv (applyRendererPixelRatio s)"
  using assms
  by (simp add: ladderInv_def applyRendererPixelRatio_ok applyRendererPixelRatio_bucket_bound)

lemma ladderInv_touch:
  "ladderInv (s\<lparr>lastPerfChangeTime := t\<rparr>) = ladderInv s"
  "ladderInv (s\<lparr>lowPerfAccum := x\<rparr>) = ladderInv s"
  "ladderInv (s\<lparr>highPerfAccum := x\<rparr>) = ladderInv s"
  "ladderInv (s\<lparr>resumeIgnoreFrames := n\<rparr>) = ladderInv s"
  "ladderInv (s\<lparr>emaFrameTime := x, lastEmaFPS := y\<rparr>) = ladderInv s"
  by (rule ladderInv_cong; simp)+

lemma attemptDegrade_blocked: "\<not> degradeAllowed now s \<Longrightarrow> attemptDegrade now s = s"
  by (auto simp add: attemptDegrade_def degradeAllowed_def)

lemma attemptDegrade_tier:
  "degradeAllowed now s \<Longrightarrow> effectQualityLevel s < length EFFECT_QUALITY_LEVELS - 1 \<Longrightarrow>
   attemptDegrade now s
     = (applyEffectQuality (s\<lparr>effectQualityLevel := effectQualityLevel s + 1\<rparr>))
         \<lparr>lastPerfChangeTime := now\<rparr>"
  by (simp add: attemptDegrade_def degradeAllowed_def)

lemma attemptDegrade_bucket:
  "degradeAllowed now s \<Longrightarrow> \<not> effectQualityLevel s < length EFFECT_QUALITY_LEVELS - 1 \<Longrightarrow>
   dprBucketIndex s < length DPR_BUCKETS - 1 \<Longrightarrow>
   attemptDegrade now s
     = (applyRendererPixelRatio (s\<lparr>dprBucketIndex := dprBucketIndex s + 1\<rparr>))
         \<lparr>lastPerfChangeTime := now\<rparr>"
  by (simp add: attemptDegrade_def degradeAllowed_def)

lemma attemptDegrade_floor:
  "\<not> effectQualityLevel s < length EFFECT_QUALITY_LEVELS - 1 \<Longrightarrow>
   \<not> dprBucketIndex s < length DPR_BUCKETS - 1 \<Longrightarrow> attemptDegrade now s = s"
  by (simp add: attemptDegrade_def)

lemma attemptUpgrade_blocked: "\<not> upgradeAllowed now s \<Longrightarrow> attemptUpgrade now s = s"
  by (simp add: attemptUpgrade_def upgradeAllowed_def)

lemma attemptUpgrade_bucket:
  "upgradeAllowed now s \<Longrightarrow> dprBucketIndex s > 0 \<Longrightarrow>
   attemptUpgrade now s
     = (applyRendererPixelRatio (s\<lparr>dprBucketIndex := dprBucketIndex s - 1\<rparr>))
         \<lparr>lastPerfChangeTime := now\<rparr>"
  by (simp add: attemptUpgrade_def upgradeAllowed_def)

lemma attemptUpgrade_tier:
  "upgradeAllowed now s \<Longrightarrow> dprBucketIndex s = 0 \<Longrightarrow> effectQualityLevel s > 0 \<Longrightarrow>
   attemptUpgrade now s
     = (applyEffectQuality (s\<lparr>effectQualityLevel := effectQualityLevel s - 1\<rparr>))
         \<lparr>lastPerfChangeTime := now\<rparr>"
  by (simp add: attemptUpgrade_def upgradeAllowed_def)

lemma attemptUpgrade_cap:
  "upgradeAllowed now s \<Longrightarrow> dprBucketIndex s = 0 \<Longrightarrow> effectQualityLevel s = 0 \<Longrightarrow>
   category s = Desktop \<and> baseCapCurrent s < baseCapMax s \<Longrightarrow>
   attemptUpgrade now s
     = (applyRendererPixelRatio
          (s\<lparr>baseCapCurrent := min (baseCapMax s) (baseCapCurrent s + 1 / 10)\<rparr>))
         \<lparr>lastPerfChangeTime := now\<rparr>"
  by (simp add: attemptUpgrade_def upgradeAllowed_def)

lemma attemptUpgrade_top:
  "dprBucketIndex s = 0 \<Longrightarrow> effectQualityLevel s = 0 \<Longrightarrow>
   \<not> (category s = Desktop \<and> baseCapCurrent s < baseCapMax s) \<Longrightarrow>
   attemptUpgrade now s = s"
  by (auto simp add: attemptUpgrade_def)

lemma ladderInv_attemptDegrade:
  assumes "ladderInv s"
  shows "ladderInv (attemptDegrade now s)"
proof -
  from assms have ok: "budgetOk s" and b: "dprBucketIndex s < length DPR_BUCKETS"
    and t: "effectQualityLevel s < length EFFECT_QUALITY_LEVELS"
    by (simp_all add: ladderInv_def)
  consider (skip) "attemptDegrade now s = s"
    | (tier) "effectQualityLevel s < length EFFECT_QUALITY_LEVELS - 1"
        "attemptDegrade now s = (applyEffectQuality (s\<lparr>effectQualityLevel := effectQualityLevel s + 1\<rparr>))
             \<lparr>lastPerfChangeTime := now\<rparr>"
    | (bucket) "dprBucketIndex s < length DPR_BUCKETS - 1"
        "attemptDegrade now s = (applyRendererPixelRatio (s\<lparr>dprBucketIndex := dprBucketIndex s + 1\<rparr>))
             \<lparr>lastPerfChangeTime := now\<rparr>"
    using attemptDegrade_blocked attemptDegrade_tier attemptDegrade_bucket attemptDegrade_floor
    by blast
  then show ?thesis
  proof cases
    case skip
    with assms show ?thesis by simp
  next
    case tier
    have "budgetOk (s\<lparr>effectQualityLevel := effectQualityLevel s + 1\<rparr>) = budgetOk s"
      by (rule budgetOk_cong) simp_all
    with tier ok b show ?thesis
      by (simp add: ladderInv_touch) (simp add: ladderInv_def)
  next
    case bucket
    with t show ?thesis
      by (simp add: ladderInv_touch ladderInv_applyRendererPixelRatio)
  qed
qed

lemma ladderInv_attemptUpgrade:
  assumes "ladderInv s"
  shows "ladderInv (attemptUpgrade now s)"
proof -
  from assms have ok: "budgetOk s" and b: "dprBucketIndex s < length DPR_BUCKETS"
    and t: "effectQualityLevel s < length EFFECT_QUALITY_LEVELS"
    by (simp_all add: ladderInv_def)
  consider (skip) "attemptUpgrade now s = s"
    | (bucket) "dprBucketIndex s > 0"
        "attemptUpgrade now s = (applyRendererPixelRatio (s\<lparr>dprBucketIndex := dprBucketIndex s - 1\<rparr>))
             \<lparr>lastPerfChangeTime := now\<rparr>"
    | (tier) "effectQualityLevel s > 0"
        "attemptUpgrade now s = (applyEffectQuality (s\<lparr>effectQualityLevel := effectQualityLevel s - 1\<rparr>))
             \<lparr>lastPerfChangeTime := now\<rparr>"
    | (cap) "attemptUpgrade now s = (applyRendererPixelRatio
              (s\<lparr>baseCapCurrent := min (baseCapMax s) (baseCapCurrent s + 1 / 10)\<rparr>))
             \<lparr>lastPerfChangeTime := now\<rparr>"
    using attemptUpgrade_blocked [of now s] attemptUpgrade_bucket [of now s]
      attemptUpgrade_tier [of now s] attemptUpgrade_cap [of now s] attemptUpgrade_top [of s now]
    by (cases "dprBucketIndex s = 0"; cases "effectQualityLevel s = 0") blast+
  then show ?thesis
  proof cases
    case skip
    with assms show ?thesis by simp
  next
    case bucket
    with b t show ?thesis
      by (simp add: ladderInv_touch ladderInv_applyRendererPixelRatio)
  next
    case tier
    have "budgetOk (s\<lparr>effectQualityLevel := effectQualityLevel s - 1\<rparr>) = budgetOk s"
      by (rule budgetOk_cong) simp_all
    with tier ok b t show ?thesis
      by (simp add: ladderInv_touch) (simp add: ladderInv_def)
  next
    case cap
    with b t show ?thesis
      by (simp add: ladderInv_touch ladderInv_applyRendererPixelRatio)
  qed
qed

lemma perfAdaptiveUpdate_ignore:
  "resumeIgnoreFrames s > 0 \<Longrightarrow>
   perfAdaptiveUpdate delta now s = s\<lparr>resumeIgnoreFrames := resumeIgnoreFrames s - 1\<rparr>"
  by (simp add: perfAdaptiveUpdate_def)

lemma perfAdaptiveUpdate_degrading:
  assumes "resumeIgnoreFrames s = 0" "fpsBand (nextEma delta s) = Degrading"
  shows "perfAdaptiveUpdate delta now s =
     (if lowPerfAccum s + delta * 1000 \<ge> PERF_DEGRADE_MIN_DURATION
      then (attemptDegrade now
              (s\<lparr>emaFrameTime := nextEma delta s, lastEmaFPS := 1 / nextEma delta s,
                 lowPerfAccum := lowPerfAccum s + delta * 1000, highPerfAccum := 0\<rparr>))
             \<lparr>lowPerfAccum := 0\<rparr>
      else s\<lparr>emaFrameTime := nextEma delta s, lastEmaFPS := 1 / nextEma delta s,
             lowPerfAccum := lowPerfAccum s + delta * 1000, highPerfAccum := 0\<rparr>)"
proof -
  from assms(2) have "fpsBand (emaFrameTime s
      + (1 - exp (- delta / EMA_WINDOW_SECONDS)) * (delta - emaFrameTime s)) = Degrading"
    by (simp add: nextEma_def)
  with assms(1) show ?thesis
    unfolding perfAdaptiveUpdate_def nextEma_def Let_def by simp
qed

lemma perfAdaptiveUpdate_upgrading:
  assumes "resumeIgnoreFrames s = 0" "fpsBand (nextEma delta s) = Upgrading"
  shows "perfAdaptiveUpdate delta now s =
     (if highPerfAccum s + delta * 1000 \<ge> PERF_UPGRADE_MIN_DURATION
      then (attemptUpgrade now
              (s\<lparr>emaFrameTime := nextEma delta s, lastEmaFPS := 1 / nextEma delta s,
                 highPerfAccum := highPerfAccum s + delta * 1000, lowPerfAccum := 0\<rparr>))
             \<lparr>highPerfAccum := 0\<rparr>
      else s\<lparr>emaFrameTime := nextEma delta s, lastEmaFPS := 1 / nextEma delta s,
             highPerfAccum := highPerfAccum s + delta * 1000, lowPerfAccum := 0\<rparr>)"
proof -
  from assms(2) have "fpsBand (emaFrameTime s
      + (1 - exp (- delta / EMA_WINDOW_SECONDS)) * (delta - emaFrameTime s)) = Upgrading"
    by (simp add: nextEma_def)
  with assms(1) show ?thesis
    unfolding perfAdaptiveUpdate_def nextEma_def Let_def by simp
qed

lemma perfAdaptiveUpdate_neutral:
  assumes "resumeIgnoreFrames s = 0" "fpsBand (nextEma delta s) = Neutral"
  shows "perfAdaptiveUpdate delta now s =
     s\<lparr>emaFrameTime := nextEma delta s, lastEmaFPS := 1 / nextEma delta s,
       lowPerfAccum := max 0 (lowPerfAccum s - delta * 400),
       highPerfAccum := max 0 (highPerfAccum s - delta * 400)\<rparr>"
proof -
  from assms(2) have "fpsBand (emaFrameTime s
      + (1 - exp (- delta / EMA_WINDOW_SECONDS)) * (delta - emaFrameTime s)) = Neutral"
    by (simp add: nextEma_def)
  with assms(1) show ?thesis
    unfolding perfAdaptiveUpdate_def nextEma_def Let_def by simp
qed

lemma attemptDegrade_shape:
  "\<exists>t b r v q l. attemptDegrade now s
     = s\<lparr>effectQualityLevel := t, dprBucketIndex := b, rendererPixelRatio := r,
         vignetteRes := v, reededRes := q, lastPerfChangeTime := l\<rparr>"
proof -
  let ?P = "\<lambda>x. \<exists>t b r v q l. x
     = s\<lparr>effectQualityLevel := t, dprBucketIndex := b, rendererPixelRatio := r,
         vignetteRes := v, reededRes := q, lastPerfChangeTime := l\<rparr>"
  have id: "?P s"
  proof -
    have "s = s\<lparr>effectQualityLevel := effectQualityLevel s, dprBucketIndex := dprBucketIndex s,
        rendererPixelRatio := rendererPixelRatio s, vignetteRes := vignetteRes s,
        reededRes := reededRes s, lastPerfChangeTime := lastPerfChangeTime s\<rparr>"
      by simp
    then show ?thesis by blast
  qed
  have tier: "?P ((applyEffectQuality (s\<lparr>effectQualityLevel := t\<rparr>))\<lparr>lastPerfChangeTime := now\<rparr>)" for t
  proof -
    obtain q where "applyEffectQuality (s\<lparr>effectQualityLevel := t\<rparr>)
        = s\<lparr>effectQualityLevel := t, reededRes := q\<rparr>"
      using applyEffectQuality_shape by blast
    then have "(applyEffectQuality (s\<lparr>effectQualityLevel := t\<rparr>))\<lparr>lastPerfChangeTime := now\<rparr>
        = s\<lparr>effectQualityLevel := t, dprBucketIndex := dprBucketIndex s,
            rendererPixelRatio := rendererPixelRatio s, vignetteRes := vignetteRes s,
            reededRes := q, lastPerfChangeTime := now\<rparr>"
      by simp
    then show ?thesis by blast
  qed
  have bucket: "?P ((applyRendererPixelRatio (s\<lparr>dprBucketIndex := b\<rparr>))\<lparr>lastPerfChangeTime := now\<rparr>)" for b
  proof -
    obtain b' r v q where "applyRendererPixelRatio (s\<lparr>dprBucketIndex := b\<rparr>)
        = s\<lparr>dprBucketIndex := b, dprBucketIndex := b', rendererPixelRatio := r,
            vignetteRes := v, reededRes := q\<rparr>"
      using applyRendererPixelRatio_shape by blast
    then have "(applyRendererPixelRatio (s\<lparr>dprBucketIndex := b\<rparr>))\<lparr>lastPerfChangeTime := now\<rparr>
        = s\<lparr>effectQualityLevel := effectQualityLevel s, dprBucketIndex := b',
            rendererPixelRatio := r, vignetteRes := v, reededRes := q,
            lastPerfChangeTime := now\<rparr>"
      by simp
    then show ?thesis by blast
  qed
  show ?thesis
    unfolding attemptDegrade_def using id tier bucket by presburger
qed

lemma attemptUpgrade_shape:
  "\<exists>c t b r v q l. attemptUpgrade now s
     = s\<lparr>baseCapCurrent := c, effectQualityLevel := t, dprBucketIndex := b,
         rendererPixelRatio := r, vignetteRes := v, reededRes := q, lastPerfChangeTime := l\<rparr>"
proof -
  let ?P = "\<lambda>x. \<exists>c t b r v q l. x
     = s\<lparr>baseCapCurrent := c, effectQualityLevel := t, dprBucketIndex := b,
         rendererPixelRatio := r, vignetteRes := v, reededRes := q, lastPerfChangeTime := l\<rparr>"
  have id: "?P s"
  proof -
    have "s = s\<lparr>baseCapCurrent := baseCapCurrent s,
        effectQualityLevel := effectQualityLevel s, dprBucketIndex := dprBucketIndex s,
        rendererPixelRatio := rendererPixelRatio s, vignetteRes := vignetteRes s,
        reededRes := reededRes s, lastPerfChangeTime := lastPerfChangeTime s\<rparr>"
      by simp
    then show ?thesis by blast
  qed
  have tier: "?P ((applyEffectQuality (s\<lparr>effectQualityLevel := t\<rparr>))\<lparr>lastPerfChangeTime := now\<rparr>)" for t
  proof -
    obtain q where "applyEffectQuality (s\<lparr>effectQualityLevel := t\<rparr>)
        = s\<lparr>effectQualityLevel := t, reededRes := q\<rparr>"
      using applyEffectQuality_shape by blast
    then have "(applyEffectQuality (s\<lparr>effectQualityLevel := t\<rparr>))\<lparr>lastPerfChangeTime := now\<rparr>
        = s\<lparr>baseCapCurrent := baseCapCurrent s, effectQualityLevel := t,
            dprBucketIndex := dprBucketIndex s,
            rendererPixelRatio := rendererPixelRatio s, vignetteRes := vignetteRes s,
            reededRes := q, lastPerfChangeTime := now\<rparr>"
      by simp
    then show ?thesis by blast
  qed
  have bucket: "?P ((applyRendererPixelRatio (s\<lparr>dprBucketIndex := b\<rparr>))\<lparr>lastPerfChangeTime := now\<rparr>)" for b
  proof -
    obtain b' r v q where "applyRendererPixelRatio (s\<lparr>dprBucketIndex := b\<rparr>)
        = s\<lparr>dprBucketIndex := b, dprBucketIndex := b', rendererPixelRatio := r,
            vignetteRes := v, reededRes := q\<rparr>"
      using applyRendererPixelRatio_shape by blast
    then have "(applyRendererPixelRatio (s\<lparr>dprBucketIndex := b\<rparr>))\<lparr>lastPerfChangeTime := now\<rparr>
        = s\<lparr>baseCapCurrent := baseCapCurrent s, effectQualityLevel := effectQualityLevel s,
            dprBucketIndex := b', rendererPixelRatio := r, vignetteRes := v, reededRes := q,
            lastPerfChangeTime := now\<rparr>"
      by simp
    then show ?thesis by blast
  qed
  have cap: "?P ((applyRendererPixelRatio (s\<lparr>baseCapCurrent := c\<rparr>))\<lparr>lastPerfChangeTime := now\<rparr>)" for c
  proof -
    obtain b' r v q where "applyRendererPixelRatio (s\<lparr>baseCapCurrent := c\<rparr>)
        = s\<lparr>baseCapCurrent := c, dprBucketIndex := b', rendererPixelRatio := r,
            vignetteRes := v, reededRes := q\<rparr>"
      using applyRendererPixelRatio_shape by blast
    then have "(applyRendererPixelRatio (s\<lparr>baseCapCurrent := c\<rparr>))\<lparr>lastPerfChangeTime := now\<rparr>
        = s\<lparr>baseCapCurrent := c, effectQualityLevel := effectQualityLevel s,
            dprBucketIndex := b', rendererPixelRatio := r, vignetteRes := v, reededRes := q,
            lastPerfChangeTime := now\<rparr>"
      by simp
    then show ?thesis by blast
  qed
  show ?thesis
    unfolding attemptUpgrade_def using id tier bucket cap by presburger
qed

lemma attemptDegrade_fields [simp]:
  "baseCapCurrent (attemptDegrade now s) = baseCapCurrent s"
  "baseCapMax (attemptDegrade now s) = baseCapMax s"
  "category (attemptDegrade now s) = category s"
  "devicePixelRatio (attemptDegrade now s) = devicePixelRatio s"
  "lastCSSW (attemptDegrade now s) = lastCSSW s"
  "lastCSSH (attemptDegrade now s) = lastCSSH s"
  "lowPerfAccum (attemptDegrade now s) = lowPerfAccum s"
  "highPerfAccum (attemptDegrade now s) = highPerfAccum s"
  "resumeGuardUntil (attemptDegrade now s) = resumeGuardUntil s"
  "postResumeDebounceUntil (attemptDegrade now s) = postResumeDebounceUntil s"
  "resumeIgnoreFrames (attemptDegrade now s) = resumeIgnoreFrames s"
  "emaFrameTime (attemptDegrade now s) = emaFrameTime s"
  using attemptDegrade_shape [of now s] by auto

lemma attemptUpgrade_fields [simp]:
  "baseCapMax (attemptUpgrade now s) = baseCapMax s"
  "category (attemptUpgrade now s) = category s"
  "devicePixelRatio (attemptUpgrade now s) = devicePixelRatio s"
  "lastCSSW (attemptUpgrade now s) = lastCSSW s"
  "lastCSSH (attemptUpgrade now s) = lastCSSH s"
  "lowPerfAccum (attemptUpgrade now s) = lowPerfAccum s"
  "highPerfAccum (attemptUpgrade now s) = highPerfAccum s"
  "resumeGuardUntil (attemptUpgrade now s) = resumeGuardUntil s"
  "postResumeDebounceUntil (attemptUpgrade now s) = postResumeDebounceUntil s"
  "resumeIgnoreFrames (attemptUpgrade now s) = resumeIgnoreFrames s"
  "emaFrameTime (attemptUpgrade now s) = emaFrameTime s"
  using attemptUpgrade_shape [of now s] by auto

lemma baseCap_attemptUpgrade: "baseCapCurrent s \<le> baseCapCurrent (attemptUpgrade now s)"
  by (auto simp add: attemptUpgrade_def)

lemma perfAdaptiveUpdate_cases:
  obtains (ignore) "resumeIgnoreFrames s > 0"
  | (degrading) "resumeIgnoreFrames s = 0" "fpsBand (nextEma delta s) = Degrading"
  | (upgrading) "resumeIgnoreFrames s = 0" "fpsBand (nextEma delta s) = Upgrading"
  | (neutral) "resumeIgnoreFrames s = 0" "fpsBand (nextEma delta s) = Neutral"
  by (cases "fpsBand (nextEma delta s)") auto

lemma ladderInv_perfAdaptiveUpdate:
  assumes "ladderInv s"
  shows "ladderInv (perfAdaptiveUpdate delta now s)"
proof (cases rule: perfAdaptiveUpdate_cases [where s = s and delta = delta])
  case ignore
  with assms show ?thesis by (simp add: perfAdaptiveUpdate_ignore ladderInv_touch)
next
  case degrading
  let ?s2 = "s\<lparr>emaFrameTime := nextEma delta s, lastEmaFPS := 1 / nextEma delta s,
                 lowPerfAccum := lowPerfAccum s + delta * 1000, highPerfAccum := 0\<rparr>"
  have "ladderInv ?s2 = ladderInv s" by (rule ladderInv_cong) simp_all
  with assms have "ladderInv ?s2" by simp
  with degrading show ?thesis
    by (simp add: perfAdaptiveUpdate_degrading ladderInv_touch ladderInv_attemptDegrade)
next
  case upgrading
  let ?s2 = "s\<lparr>emaFrameTime := nextEma delta s, lastEmaFPS := 1 / nextEma delta s,
                 highPerfAccum := highPerfAccum s + delta * 1000, lowPerfAccum := 0\<rparr>"
  have "ladderInv ?s2 = ladderInv s" by (rule ladderInv_cong) simp_all
  with assms have "ladderInv ?s2" by simp
  with upgrading show ?thesis
    by (simp add: perfAdaptiveUpdate_upgrading ladderInv_touch ladderInv_attemptUpgrade)
next
  case neutral
  have "ladderInv (s\<lparr>emaFrameTime := nextEma delta s, lastEmaFPS := 1 / nextEma delta s,
       lowPerfAccum := max 0 (lowPerfAccum s - delta * 400),
       highPerfAccum := max 0 (highPerfAccum s - delta * 400)\<rparr>) = ladderInv s"
    by (rule ladderInv_cong) simp_all
  with assms neutral show ?thesis by (simp add: perfAdaptiveUpdate_neutral)
qed

lemma forceBucket_index:
  "nat (min (max 0 i) (int (length DPR_BUCKETS) - 1)) < length DPR_BUCKETS"
  by (simp add: DPR_BUCKETS_def)

lemma forceTier_index:
  "nat (min (max 0 i) (int (length EFFECT_QUALITY_LEVELS) - 1)) < length EFFECT_QUALITY_LEVELS"
  by (simp add: EFFECT_QUALITY_LEVELS_def)

lemma ladderInv_step:
  assumes "ladderInv s" "\<not> isRatioChange e"
  shows "ladderInv (step e s)"
proof -
  from assms have ok: "budgetOk s" and b: "dprBucketIndex s < length DPR_BUCKETS"
    and t: "effectQualityLevel s < length EFFECT_QUALITY_LEVELS"
    by (simp_all add: ladderInv_def)
  show ?thesis
  proof (cases e)
    case (Frame delta now)
    with assms(1) show ?thesis by (simp add: ladderInv_perfAdaptiveUpdate)
  next
    case (Resume now)
    have "ladderInv (triggerResumeGuard now s) = ladderInv s"
      by (rule ladderInv_cong) (simp_all add: triggerResumeGuard_def)
    with assms(1) Resume show ?thesis by simp
  next
    case (Resize w h)
    from b t have "ladderInv (applyRendererPixelRatio (s\<lparr>lastCSSW := w, lastCSSH := h\<rparr>))"
      by (simp add: ladderInv_applyRendererPixelRatio)
    then have "ladderInv (resizeRendererAndComposer w h s)"
      by (simp add: resizeRendererAndComposer_def ladderInv_def enforcePixelBudget_eq)
    moreover have "ladderInv (handleResize w h s) = ladderInv (resizeRendererAndComposer w h s)"
      by (rule ladderInv_cong) simp_all
    ultimately show ?thesis using Resize by simp
  next
    case (ForceBucket i)
    with t forceBucket_index [of i] show ?thesis
      by (simp add: forceBucket_def ladderInv_applyRendererPixelRatio)
  next
    case (ForceTier i)
    have "budgetOk (s\<lparr>effectQualityLevel
        := nat (min (max 0 i) (int (length EFFECT_QUALITY_LEVELS) - 1))\<rparr>) = budgetOk s"
      by (rule budgetOk_cong) simp_all
    with ForceTier ok b forceTier_index [of i] show ?thesis
      by (simp add: forceTier_def ladderInv_def)
  next
    case (SetBaseCap v)
    with b t show ?thesis
      by (simp add: setBaseCap_def ladderInv_applyRendererPixelRatio)
  next
    case (DevicePixelRatioChange r)
    with assms(2) show ?thesis by simp
  qed
qed

lemma run_Cons [simp]: "run (e # evs) s = run evs (step e s)"
  by (simp add: run_def)

lemma run_Nil [simp]: "run [] s = s"
  by (simp add: run_def)

lemma ladderInv_run:
  "\<forall>e \<in> set evs. \<not> isRatioChange e \<Longrightarrow> ladderInv s \<Longrightarrow> ladderInv (run evs s)"
  by (induction evs arbitrary: s) (simp_all add: ladderInv_step)

lemma ladderInv_startSession: "ladderInv (startSession d w h t0)"
proof -
  let ?m = "(moduleState d w h t0)\<lparr>reedEffect := True, vignetteEffect := True\<rparr>"
  have "dprBucketIndex ?m = 0" "effectQualityLevel ?m = 0"
    by (simp_all add: moduleState_def Let_def)
  then have "ladderInv (applyRendererPixelRatio ?m)"
    by (intro ladderInv_applyRendererPixelRatio)
       (simp_all add: DPR_BUCKETS_def EFFECT_QUALITY_LEVELS_def)
  moreover have "ladderInv (applyEffectQuality (applyRendererPixelRatio ?m))
      = ladderInv (applyRendererPixelRatio ?m)"
    by (rule ladderInv_cong) simp_all
  ultimately show ?thesis by (simp add: startSession_def)
qed

subsection \<open>Example sessions\<close>

lemma startSession_fields [simp]:
  "effectQualityLevel (startSession d w h t0) = 0"
  "resumeGuardUntil (startSession d w h t0) = 0"
  "postResumeDebounceUntil (startSession d w h t0) = 0"
  "lastPerfChangeTime (startSession d w h t0) = t0"
  "lastCSSW (startSession d w h t0) = w"
  "lastCSSH (startSession d w h t0) = h"
  "devicePixelRatio (startSession d w h t0) = probeDevicePixelRatio d"
  "lowPerfAccum (startSession d w h t0) = 0"
  "highPerfAccum (startSession d w h t0) = 0"
  "baseCapCurrent (startSession d w h t0) = dpBaseCapCurrent (detectDeviceProfile d)"
  "baseCapMax (startSession d w h t0) = dpBaseCapMax (detectDeviceProfile d)"
  "category (startSession d w h t0) = dpCategory (detectDeviceProfile d)"
  by (simp_all add: startSession_def moduleState_def Let_def)

lemma moduleState_fields [simp]:
  "lastCSSW (moduleState d w h t0) = w"
  "lastCSSH (moduleState d w h t0) = h"
  "devicePixelRatio (moduleState d w h t0) = probeDevicePixelRatio d"
  "baseCapCurrent (moduleState d w h t0) = dpBaseCapCurrent (detectDeviceProfile d)"
  "dprBucketIndex (moduleState d w h t0) = 0"
  by (simp_all add: moduleState_def Let_def)

lemma laptop_profile:
  "detectDeviceProfile laptopProbe = \<lparr>dpCategory = Desktop, dpBaseCapInitial = 155 / 100,
     dpBaseCapMax = 175 / 100, dpBaseCapCurrent = 155 / 100, dpLargeDisplay = False\<rparr>"
  by (simp add: detectDeviceProfile_def laptopProbe_def Let_def)

lemma laptop_dpr: "probeDevicePixelRatio laptopProbe = 2"
  by (simp add: laptopProbe_def)

lemma ultrawide_dpr: "probeDevicePixelRatio ultrawideProbe = 1"
  by (simp add: ultrawideProbe_def)

lemma ultrawide_profile:
  "detectDeviceProfile ultrawideProbe = \<lparr>dpCategory = Desktop, dpBaseCapInitial = 1,
     dpBaseCapMax = 1, dpBaseCapCurrent = 1, dpLargeDisplay = True\<rparr>"
  by (simp add: detectDeviceProfile_def ultrawideProbe_def Let_def)

lemma internalPixels_eval:
  "internalPixels s =
     lastCSSW s * lastCSSH s
     * (min (baseCapCurrent s * bucketMul s)
          (min MAX_EFFECTIVE_DPR (if devicePixelRatio s = 0 then 1 else devicePixelRatio s)))\<^sup>2"
  by (simp add: internalPixels_def currentTargetPixelRatio_def Let_def power2_eq_square)

lemma laptop_bucket: "dprBucketIndex (startSession laptopProbe 1440 900 0) = 0"
proof -
  let ?m = "(moduleState laptopProbe 1440 900 0)\<lparr>reedEffect := True, vignetteEffect := True\<rparr>"
  have "internalPixels ?m \<le> PIXEL_BUDGET"
    by (simp add: internalPixels_eval laptop_profile bucketMul_def
        DPR_BUCKETS_def MAX_EFFECTIVE_DPR_def PIXEL_BUDGET_def laptop_dpr power2_eq_square)
  then have "budgetOk ?m" by (simp add: budgetOk_def)
  then have "dprBucketIndex (applyRendererPixelRatio ?m) = dprBucketIndex ?m"
    by (rule applyRendererPixelRatio_bucket_ok)
  then show ?thesis by (simp add: startSession_def)
qed

subsection \<open>Further facts about steps and sessions\<close>

lemma budgetLoop_bucket_cong:
  assumes "lastCSSW s' = lastCSSW s" "lastCSSH s' = lastCSSH s"
    "baseCapCurrent s' = baseCapCurrent s" "devicePixelRatio s' = devicePixelRatio s"
    "dprBucketIndex s' = dprBucketIndex s"
  shows "dprBucketIndex (fst (budgetLoop s' c')) = dprBucketIndex (fst (budgetLoop s c))"
  using assms
proof (induction s c arbitrary: s' c' rule: budgetLoop.induct)
  case (1 s changed)
  have ip: "internalPixels s' = internalPixels s"
    using "1.prems" by (rule internalPixels_cong)
  show ?case
  proof (cases "internalPixels s > PIXEL_BUDGET \<and> dprBucketIndex s < length DPR_BUCKETS - 1")
    case True
    with ip "1.prems"(5) have T': "internalPixels s' > PIXEL_BUDGET"
        "dprBucketIndex s' < length DPR_BUCKETS - 1" by simp_all
    have "dprBucketIndex (fst (budgetLoop (s'\<lparr>dprBucketIndex := dprBucketIndex s' + 1\<rparr>) True))
        = dprBucketIndex (fst (budgetLoop (s\<lparr>dprBucketIndex := dprBucketIndex s + 1\<rparr>) True))"
      using True "1.prems" by (intro "1.IH") simp_all
    with True T' show ?thesis by (simp add: budgetLoop_step)
  next
    case False
    with ip "1.prems"(5) have "\<not> (internalPixels s' > PIXEL_BUDGET
        \<and> dprBucketIndex s' < length DPR_BUCKETS - 1)" by simp
    with False "1.prems"(5) show ?thesis by (simp add: budgetLoop_stop)
  qed
qed

lemma enforcePixelBudget_bucket:
  "dprBucketIndex (enforcePixelBudget s) = dprBucketIndex (fst (budgetLoop s False))"
proof (cases "budgetOk s")
  case True
  then show ?thesis by (simp add: enforcePixelBudget_eq budgetLoop_stop budgetOk_def)
next
  case False
  then show ?thesis by (simp add: enforcePixelBudget_eq)
qed

lemma applyRendererPixelRatio_bucket:
  "dprBucketIndex (applyRendererPixelRatio s) = dprBucketIndex (fst (budgetLoop s False))"
proof -
  have "dprBucketIndex (applyRendererPixelRatio s)
      = dprBucketIndex (fst (budgetLoop (pushPixelRatio s) False))"
    by (subst applyRendererPixelRatio.simps) (rule enforcePixelBudget_bucket)
  also have "\<dots> = dprBucketIndex (fst (budgetLoop s False))"
    by (rule budgetLoop_bucket_cong) (use pushPixelRatio_shape [of s] in auto)
  finally show ?thesis .
qed

lemma attemptUpgrade_bucket_result:
  assumes "ladderInv s" "upgradeAllowed now s" "dprBucketIndex s > 0"
  shows "dprBucketIndex (attemptUpgrade now s)
       = (if internalPixels (s\<lparr>dprBucketIndex := dprBucketIndex s - 1\<rparr>) \<le> PIXEL_BUDGET
          then dprBucketIndex s - 1 else dprBucketIndex s)"
proof -
  from assms(1) have ok: "budgetOk s" and b: "dprBucketIndex s < length DPR_BUCKETS"
    by (simp_all add: ladderInv_def)
  let ?s1 = "s\<lparr>dprBucketIndex := dprBucketIndex s - 1\<rparr>"
  from attemptUpgrade_bucket [OF assms(2,3)]
  have "dprBucketIndex (attemptUpgrade now s) = dprBucketIndex (applyRendererPixelRatio ?s1)"
    by simp
  also have "\<dots> = dprBucketIndex (fst (budgetLoop ?s1 False))"
    by (rule applyRendererPixelRatio_bucket)
  also have "\<dots> = (if internalPixels ?s1 \<le> PIXEL_BUDGET
      then dprBucketIndex s - 1 else dprBucketIndex s)"
  proof (cases "internalPixels ?s1 \<le> PIXEL_BUDGET")
    case True
    then show ?thesis by (simp add: budgetLoop_stop)
  next
    case False
    then have over: "internalPixels ?s1 > PIXEL_BUDGET" by simp
    from assms(3) b have lt: "dprBucketIndex ?s1 < length DPR_BUCKETS - 1" by simp
    from assms(3) have undo: "?s1\<lparr>dprBucketIndex := dprBucketIndex ?s1 + 1\<rparr> = s" by simp
    from ok have "budgetLoop s True = (s, True)"
      by (simp add: budgetLoop_stop budgetOk_def)
    with budgetLoop_step [OF over lt, of False] undo
    have "budgetLoop ?s1 False = (s, True)" by simp
    with False show ?thesis by simp
  qed
  finally show ?thesis .
qed

lemma ultrawide_bucket: "dprBucketIndex (startSession ultrawideProbe 5120 2160 0) = 1"
proof -
  let ?m = "(moduleState ultrawideProbe 5120 2160 0)\<lparr>reedEffect := True, vignetteEffect := True\<rparr>"
  have over: "internalPixels ?m > PIXEL_BUDGET"
    by (simp add: internalPixels_eval ultrawide_profile bucketMul_def
        DPR_BUCKETS_def MAX_EFFECTIVE_DPR_def PIXEL_BUDGET_def ultrawide_dpr power2_eq_square)
  have lt: "dprBucketIndex ?m < length DPR_BUCKETS - 1"
    by (simp add: DPR_BUCKETS_def)
  have "internalPixels (?m\<lparr>dprBucketIndex := dprBucketIndex ?m + 1\<rparr>) \<le> PIXEL_BUDGET"
    by (simp add: internalPixels_eval ultrawide_profile bucketMul_def
        DPR_BUCKETS_def MAX_EFFECTIVE_DPR_def PIXEL_BUDGET_def ultrawide_dpr power2_eq_square)
  then have "budgetLoop (?m\<lparr>dprBucketIndex := dprBucketIndex ?m + 1\<rparr>) True
      = (?m\<lparr>dprBucketIndex := dprBucketIndex ?m + 1\<rparr>, True)"
    by (simp add: budgetLoop_stop)
  with budgetLoop_step [OF over lt, of False]
  have "dprBucketIndex (fst (budgetLoop ?m False)) = 1" by simp
  then show ?thesis by (simp add: startSession_def applyRendererPixelRatio_bucket)
qed

lemma laptop_forced_bucket:
  "dprBucketIndex (run [ForceBucket 2] (startSession laptopProbe 1440 900 0)) = 2"
proof -
  let ?x = "(startSession laptopProbe 1440 900 0)\<lparr>dprBucketIndex := 2\<rparr>"
  have "budgetLoop ?x False = (?x, False)"
    by (rule budgetLoop_stop) (simp add: DPR_BUCKETS_def)
  then show ?thesis
    by (simp add: forceBucket_def applyRendererPixelRatio_bucket DPR_BUCKETS_def)
qed

lemma perfAdaptiveUpdate_baseCap:
  "baseCapCurrent s \<le> baseCapCurrent (perfAdaptiveUpdate delta now s)"
proof (cases rule: perfAdaptiveUpdate_cases [where s = s and delta = delta])
  case ignore
  then show ?thesis by (simp add: perfAdaptiveUpdate_ignore)
next
  case degrading
  then show ?thesis by (simp add: perfAdaptiveUpdate_degrading)
next
  case upgrading
  let ?s2 = "s\<lparr>emaFrameTime := nextEma delta s, lastEmaFPS := 1 / nextEma delta s,
                 highPerfAccum := highPerfAccum s + delta * 1000, lowPerfAccum := 0\<rparr>"
  have "baseCapCurrent ?s2 \<le> baseCapCurrent (attemptUpgrade now ?s2)"
    by (rule baseCap_attemptUpgrade)
  with upgrading show ?thesis by (simp add: perfAdaptiveUpdate_upgrading)
next
  case neutral
  then show ?thesis by (simp add: perfAdaptiveUpdate_neutral)
qed

lemma step_baseCap:
  "\<not> isSetBaseCap e \<Longrightarrow> baseCapCurrent s \<le> baseCapCurrent (step e s)"
proof (cases e)
  case (Frame delta now)
  then show ?thesis by (simp add: perfAdaptiveUpdate_baseCap)
next
  case (Resume now)
  then show ?thesis by (simp add: triggerResumeGuard_def)
next
  case (Resize w h)
  then show ?thesis by simp
next
  case (ForceBucket i)
  then show ?thesis by (simp add: forceBucket_def)
next
  case (ForceTier i)
  then show ?thesis by (simp add: forceTier_def)
next
  case (SetBaseCap v)
  assume "\<not> isSetBaseCap e"
  with SetBaseCap show ?thesis by simp
next
  case (DevicePixelRatioChange r)
  then show ?thesis by simp
qed

lemma run_baseCap:
  "\<forall>e \<in> set evs. \<not> isSetBaseCap e \<Longrightarrow> baseCapCurrent s \<le> baseCapCurrent (run evs s)"
proof (induction evs arbitrary: s)
  case Nil
  then show ?case by simp
next
  case (Cons e evs)
  then have "baseCapCurrent s \<le> baseCapCurrent (step e s)" by (simp add: step_baseCap)
  also from Cons have "\<dots> \<le> baseCapCurrent (run evs (step e s))" by simp
  finally show ?case by simp
qed

lemma perfAdaptiveUpdate_guard:
  "resumeGuardUntil (perfAdaptiveUpdate delta now s) = resumeGuardUntil s"
proof (cases rule: perfAdaptiveUpdate_cases [where s = s and delta = delta])
  case ignore
  then show ?thesis by (simp add: perfAdaptiveUpdate_ignore)
next
  case degrading
  then show ?thesis by (simp add: perfAdaptiveUpdate_degrading)
next
  case upgrading
  then show ?thesis by (simp add: perfAdaptiveUpdate_upgrading)
next
  case neutral
  then show ?thesis by (simp add: perfAdaptiveUpdate_neutral)
qed

lemma step_guard: "\<not> isResume e \<Longrightarrow> resumeGuardUntil (step e s) = resumeGuardUntil s"
  by (cases e)
     (simp_all add: perfAdaptiveUpdate_guard forceBucket_def
        forceTier_def setBaseCap_def)

lemma run_guard:
  "\<forall>e \<in> set evs. \<not> isResume e \<Longrightarrow> resumeGuardUntil (run evs s) = resumeGuardUntil s"
  by (induction evs arbitrary: s) (simp_all add: step_guard)

lemma perfAdaptiveUpdate_accum:
  assumes "0 \<le> delta" "accumInv s"
  shows "accumInv (perfAdaptiveUpdate delta now s)"
proof (cases rule: perfAdaptiveUpdate_cases [where s = s and delta = delta])
  case ignore
  with assms(2) show ?thesis by (simp add: perfAdaptiveUpdate_ignore accumInv_def)
next
  case degrading
  then show ?thesis by (simp add: perfAdaptiveUpdate_degrading accumInv_def)
next
  case upgrading
  then show ?thesis by (simp add: perfAdaptiveUpdate_upgrading accumInv_def)
next
  case neutral
  from assms have "max 0 (lowPerfAccum s - delta * 400) = 0
      \<or> max 0 (highPerfAccum s - delta * 400) = 0"
    by (auto simp add: accumInv_def max_def)
  with neutral show ?thesis by (simp add: perfAdaptiveUpdate_neutral accumInv_def)
qed

lemma step_accum: "nonnegDelta e \<Longrightarrow> accumInv s \<Longrightarrow> accumInv (step e s)"
proof (cases e)
  case (Frame delta now)
  assume "nonnegDelta e" "accumInv s"
  with Frame show ?thesis by (simp add: perfAdaptiveUpdate_accum)
next
  case (Resume now)
  then show ?thesis by (simp add: triggerResumeGuard_def accumInv_def)
next
  case (Resize w h)
  assume "accumInv s"
  with Resize show ?thesis by (simp add: accumInv_def)
next
  case (ForceBucket i)
  assume "accumInv s"
  with ForceBucket show ?thesis by (simp add: forceBucket_def accumInv_def)
next
  case (ForceTier i)
  assume "accumInv s"
  with ForceTier show ?thesis by (simp add: forceTier_def accumInv_def)
next
  case (SetBaseCap v)
  assume "accumInv s"
  with SetBaseCap show ?thesis by (simp add: setBaseCap_def accumInv_def)
next
  case (DevicePixelRatioChange r)
  assume "accumInv s"
  with DevicePixelRatioChange show ?thesis by (simp add: accumInv_def)
qed

lemma run_accum:
  "\<forall>e \<in> set evs. nonnegDelta e \<Longrightarrow> accumInv s \<Longrightarrow> accumInv (run evs s)"
  by (induction evs arbitrary: s) (simp_all add: step_accum)

subsection \<open>The step that a frame performs\<close>

lemma attemptDegrade_tier_index:
  "effectQualityLevel (attemptDegrade now s)
     = (if degradeAllowed now s \<and> effectQualityLevel s < length EFFECT_QUALITY_LEVELS - 1
        then effectQualityLevel s + 1 else effectQualityLevel s)"
  by (simp add: attemptDegrade_def degradeAllowed_def)

lemma attemptDegrade_bucket_index:
  "dprBucketIndex (attemptDegrade now s)
     = (if degradeAllowed now s \<and> \<not> effectQualityLevel s < length EFFECT_QUALITY_LEVELS - 1
           \<and> dprBucketIndex s < length DPR_BUCKETS - 1
        then dprBucketIndex (fst (budgetLoop (s\<lparr>dprBucketIndex := dprBucketIndex s + 1\<rparr>) False))
        else dprBucketIndex s)"
  by (simp add: attemptDegrade_def degradeAllowed_def applyRendererPixelRatio_bucket)

lemma attemptUpgrade_tier_index:
  "effectQualityLevel (attemptUpgrade now s)
     = (if upgradeAllowed now s \<and> dprBucketIndex s = 0 \<and> effectQualityLevel s > 0
        then effectQualityLevel s - 1 else effectQualityLevel s)"
  by (simp add: attemptUpgrade_def upgradeAllowed_def)

lemma attemptUpgrade_bucket_index:
  "dprBucketIndex (attemptUpgrade now s)
     = (if upgradeAllowed now s \<and> dprBucketIndex s > 0
        then dprBucketIndex (fst (budgetLoop (s\<lparr>dprBucketIndex := dprBucketIndex s - 1\<rparr>) False))
        else if upgradeAllowed now s \<and> effectQualityLevel s = 0
                \<and> category s = Desktop \<and> baseCapCurrent s < baseCapMax s
        then dprBucketIndex (fst (budgetLoop
               (s\<lparr>baseCapCurrent := min (baseCapMax s) (baseCapCurrent s + 1 / 10)\<rparr>) False))
        else dprBucketIndex s)"
  by (simp add: attemptUpgrade_def upgradeAllowed_def applyRendererPixelRatio_bucket)

lemma attemptUpgrade_baseCap_value:
  "baseCapCurrent (attemptUpgrade now s)
     = (if upgradeAllowed now s \<and> dprBucketIndex s = 0 \<and> effectQualityLevel s = 0
           \<and> category s = Desktop \<and> baseCapCurrent s < baseCapMax s
        then min (baseCapMax s) (baseCapCurrent s + 1 / 10) else baseCapCurrent s)"
  by (simp add: attemptUpgrade_def upgradeAllowed_def)

lemma attemptDegrade_indices_cong:
  assumes "sameLadderInputs s' s"
  shows "effectQualityLevel (attemptDegrade now s') = effectQualityLevel (attemptDegrade now s)
       \<and> dprBucketIndex (attemptDegrade now s') = dprBucketIndex (attemptDegrade now s)"
proof -
  from assms have al: "degradeAllowed now s' = degradeAllowed now s"
    by (simp add: sameLadderInputs_def degradeAllowed_def effectiveDebounceMs_def)
  have "dprBucketIndex (fst (budgetLoop (s'\<lparr>dprBucketIndex := dprBucketIndex s' + 1\<rparr>) False))
      = dprBucketIndex (fst (budgetLoop (s\<lparr>dprBucketIndex := dprBucketIndex s + 1\<rparr>) False))"
    using assms by (intro budgetLoop_bucket_cong) (simp_all add: sameLadderInputs_def)
  with al assms show ?thesis
    by (simp add: attemptDegrade_tier_index attemptDegrade_bucket_index sameLadderInputs_def)
qed

lemma attemptUpgrade_indices_cong:
  assumes "sameLadderInputs s' s"
  shows "effectQualityLevel (attemptUpgrade now s') = effectQualityLevel (attemptUpgrade now s)
       \<and> dprBucketIndex (attemptUpgrade now s') = dprBucketIndex (attemptUpgrade now s)
       \<and> baseCapCurrent (attemptUpgrade now s') = baseCapCurrent (attemptUpgrade now s)"
proof -
  from assms have al: "upgradeAllowed now s' = upgradeAllowed now s"
    by (simp add: sameLadderInputs_def upgradeAllowed_def effectiveDebounceMs_def)
  have b: "dprBucketIndex (fst (budgetLoop (s'\<lparr>dprBucketIndex := dprBucketIndex s' - 1\<rparr>) False))
      = dprBucketIndex (fst (budgetLoop (s\<lparr>dprBucketIndex := dprBucketIndex s - 1\<rparr>) False))"
    using assms by (intro budgetLoop_bucket_cong) (simp_all add: sameLadderInputs_def)
  have c: "dprBucketIndex (fst (budgetLoop
        (s'\<lparr>baseCapCurrent := min (baseCapMax s') (baseCapCurrent s' + 1 / 10)\<rparr>) False))
      = dprBucketIndex (fst (budgetLoop
        (s\<lparr>baseCapCurrent := min (baseCapMax s) (baseCapCurrent s + 1 / 10)\<rparr>) False))"
    using assms by (intro budgetLoop_bucket_cong) (simp_all add: sameLadderInputs_def)
  from al b c assms show ?thesis
    by (simp add: attemptUpgrade_tier_index attemptUpgrade_bucket_index
        attemptUpgrade_baseCap_value sameLadderInputs_def)
qed

lemma perfAdaptiveUpdate_degrade_step:
  assumes "resumeIgnoreFrames s = 0" "fpsBand (nextEma delta s) = Degrading"
    "PERF_DEGRADE_MIN_DURATION \<le> lowPerfAccum s + delta * 1000"
  shows "effectQualityLevel (perfAdaptiveUpdate delta now s)
           = effectQualityLevel (attemptDegrade now s)
       \<and> dprBucketIndex (perfAdaptiveUpdate delta now s)
           = dprBucketIndex (attemptDegrade now s)"
proof -
  let ?s2 = "s\<lparr>emaFrameTime := nextEma delta s, lastEmaFPS := 1 / nextEma delta s,
                 lowPerfAccum := lowPerfAccum s + delta * 1000, highPerfAccum := 0\<rparr>"
  have "sameLadderInputs ?s2 s" by (simp add: sameLadderInputs_def)
  from attemptDegrade_indices_cong [OF this, of now] assms(3) show ?thesis
    by (simp add: perfAdaptiveUpdate_degrading [OF assms(1,2)])
qed

lemma perfAdaptiveUpdate_upgrade_step:
  assumes "resumeIgnoreFrames s = 0" "fpsBand (nextEma delta s) = Upgrading"
    "PERF_UPGRADE_MIN_DURATION \<le> highPerfAccum s + delta * 1000"
  shows "effectQualityLevel (perfAdaptiveUpdate delta now s)
           = effectQualityLevel (attemptUpgrade now s)
       \<and> dprBucketIndex (perfAdaptiveUpdate delta now s)
           = dprBucketIndex (attemptUpgrade now s)
       \<and> baseCapCurrent (perfAdaptiveUpdate delta now s)
           = baseCapCurrent (attemptUpgrade now s)"
proof -
  let ?s2 = "s\<lparr>emaFrameTime := nextEma delta s, lastEmaFPS := 1 / nextEma delta s,
                 highPerfAccum := highPerfAccum s + delta * 1000, lowPerfAccum := 0\<rparr>"
  have "sameLadderInputs ?s2 s" by (simp add: sameLadderInputs_def)
  from attemptUpgrade_indices_cong [OF this, of now] assms(3) show ?thesis
    by (simp add: perfAdaptiveUpdate_upgrading [OF assms(1,2)])
qed


subsection \<open>Where the budget loop stops\<close>

lemma budgetLoop_index_ok:
  "budgetOk s \<Longrightarrow> dprBucketIndex (fst (budgetLoop s c)) = dprBucketIndex s"
  by (simp add: budgetLoop_stop budgetOk_def)

lemma budgetLoop_index_over:
  assumes "\<not> budgetOk s"
  shows "dprBucketIndex s < dprBucketIndex (fst (budgetLoop s c))
       \<and> dprBucketIndex (fst (budgetLoop s c)) \<le> length DPR_BUCKETS - 1"
proof -
  from assms have over: "internalPixels s > PIXEL_BUDGET"
    and lt: "dprBucketIndex s < length DPR_BUCKETS - 1"
    by (simp_all add: budgetOk_def)
  have eq: "budgetLoop s c = budgetLoop (s\<lparr>dprBucketIndex := dprBucketIndex s + 1\<rparr>) True"
    by (rule budgetLoop_step [OF over lt])
  from budgetLoop_bucket_mono [of "s\<lparr>dprBucketIndex := dprBucketIndex s + 1\<rparr>" True]
  have "dprBucketIndex s + 1
      \<le> dprBucketIndex (fst (budgetLoop (s\<lparr>dprBucketIndex := dprBucketIndex s + 1\<rparr>) True))"
    by simp
  moreover from lt budgetLoop_bucket_bound [of s c]
  have "dprBucketIndex (fst (budgetLoop s c)) \<le> length DPR_BUCKETS - 1" by simp
  ultimately show ?thesis using eq by simp
qed

lemma budgetLoop_skipped:
  "dprBucketIndex s \<le> i \<Longrightarrow> i < dprBucketIndex (fst (budgetLoop s c)) \<Longrightarrow>
   internalPixels (s\<lparr>dprBucketIndex := i\<rparr>) > PIXEL_BUDGET"
proof (induction s c rule: budgetLoop.induct)
  case (1 s changed)
  show ?case
  proof (cases "internalPixels s > PIXEL_BUDGET \<and> dprBucketIndex s < length DPR_BUCKETS - 1")
    case True
    then have eq: "budgetLoop s changed
        = budgetLoop (s\<lparr>dprBucketIndex := dprBucketIndex s + 1\<rparr>) True"
      by (simp add: budgetLoop_step)
    show ?thesis
    proof (cases "i = dprBucketIndex s")
      case here: True
      then have "s\<lparr>dprBucketIndex := i\<rparr> = s" by simp
      with True show ?thesis by simp
    next
      case False
      with "1.prems"(1) have le: "dprBucketIndex (s\<lparr>dprBucketIndex := dprBucketIndex s + 1\<rparr>) \<le> i"
        by simp
      from "1.prems"(2) eq
      have lt: "i < dprBucketIndex (fst (budgetLoop (s\<lparr>dprBucketIndex := dprBucketIndex s + 1\<rparr>) True))"
        by simp
      from "1.IH" [OF True le lt] show ?thesis by simp
    qed
  next
    case False
    then have "fst (budgetLoop s changed) = s" by (simp add: budgetLoop_stop)
    with "1.prems" show ?thesis by simp
  qed
qed

lemma applyRendererPixelRatio_within:
  "internalPixels (applyRendererPixelRatio s) \<le> PIXEL_BUDGET
   \<or> length DPR_BUCKETS - 1 \<le> dprBucketIndex (applyRendererPixelRatio s)"
  using applyRendererPixelRatio_ok [of s] by (auto simp add: budgetOk_def)

lemma internalPixels_touch [simp]:
  "internalPixels (s\<lparr>lastPerfChangeTime := t\<rparr>) = internalPixels s"
  by (rule internalPixels_cong) simp_all

lemma resize_more_fields [simp]:
  "lastCSSW (resizeRendererAndComposer w h s) = w"
  "lastCSSH (resizeRendererAndComposer w h s) = h"
  "devicePixelRatio (resizeRendererAndComposer w h s) = devicePixelRatio s"
  "category (resizeRendererAndComposer w h s) = category s"
  "lastPerfChangeTime (resizeRendererAndComposer w h s) = lastPerfChangeTime s"
  "postResumeDebounceUntil (resizeRendererAndComposer w h s) = postResumeDebounceUntil s"
  "lastPerfChangeTime (handleResize w h s) = lastPerfChangeTime s"
  "postResumeDebounceUntil (handleResize w h s) = postResumeDebounceUntil s"
  "category (handleResize w h s) = category s"
proof -
  show "lastCSSW (resizeRendererAndComposer w h s) = w"
    "lastCSSH (resizeRendererAndComposer w h s) = h"
    "devicePixelRatio (resizeRendererAndComposer w h s) = devicePixelRatio s"
    "category (resizeRendererAndComposer w h s) = category s"
    and l: "lastPerfChangeTime (resizeRendererAndComposer w h s) = lastPerfChangeTime s"
    and p: "postResumeDebounceUntil (resizeRendererAndComposer w h s) = postResumeDebounceUntil s"
    by (simp_all add: resizeRendererAndComposer_def)
  have c: "category (resizeRendererAndComposer w h s) = category s"
    by (simp add: resizeRendererAndComposer_def)
  from l p c handleResize_shape [of w h s]
  show "lastPerfChangeTime (handleResize w h s) = lastPerfChangeTime s"
    "postResumeDebounceUntil (handleResize w h s) = postResumeDebounceUntil s"
    "category (handleResize w h s) = category s"
    by auto
qed

lemma resizeRendererAndComposer_bucket:
  "dprBucketIndex (resizeRendererAndComposer w h s)
     = dprBucketIndex (fst (budgetLoop (s\<lparr>lastCSSW := w, lastCSSH := h\<rparr>) False))"
proof -
  let ?x = "s\<lparr>lastCSSW := w, lastCSSH := h\<rparr>"
  have "dprBucketIndex (enforcePixelBudget (applyRendererPixelRatio ?x))
      = dprBucketIndex (fst (budgetLoop (applyRendererPixelRatio ?x) False))"
    by (rule enforcePixelBudget_bucket)
  also have "\<dots> = dprBucketIndex (applyRendererPixelRatio ?x)"
    by (rule budgetLoop_index_ok) (rule applyRendererPixelRatio_ok)
  also have "\<dots> = dprBucketIndex (fst (budgetLoop ?x False))"
    by (rule applyRendererPixelRatio_bucket)
  finally show ?thesis by (simp add: resizeRendererAndComposer_def)
qed

subsection \<open>The ladder indices stay inside their tables\<close>

lemma tablesInv_attemptDegrade:
  assumes "tablesInv s"
  shows "tablesInv (attemptDegrade now s)"
proof -
  from assms have b: "dprBucketIndex s < length DPR_BUCKETS"
    and t: "effectQualityLevel s < length EFFECT_QUALITY_LEVELS"
    by (simp_all add: tablesInv_def)
  from t have "effectQualityLevel (attemptDegrade now s) < length EFFECT_QUALITY_LEVELS"
    by (auto simp add: attemptDegrade_tier_index)
  moreover have "dprBucketIndex (attemptDegrade now s) < length DPR_BUCKETS"
  proof (cases "dprBucketIndex s < length DPR_BUCKETS - 1")
    case True
    then have "dprBucketIndex (s\<lparr>dprBucketIndex := dprBucketIndex s + 1\<rparr>)
        \<le> length DPR_BUCKETS - 1" by simp
    from budgetLoop_bucket_bound [OF this, of False] b show ?thesis
      by (simp add: attemptDegrade_bucket_index DPR_BUCKETS_def)
  next
    case False
    with b show ?thesis by (simp add: attemptDegrade_bucket_index)
  qed
  ultimately show ?thesis by (simp add: tablesInv_def)
qed

lemma tablesInv_attemptUpgrade:
  assumes "tablesInv s"
  shows "tablesInv (attemptUpgrade now s)"
proof -
  from assms have b: "dprBucketIndex s < length DPR_BUCKETS"
    and t: "effectQualityLevel s < length EFFECT_QUALITY_LEVELS"
    by (simp_all add: tablesInv_def)
  from t have "effectQualityLevel (attemptUpgrade now s) < length EFFECT_QUALITY_LEVELS"
    by (auto simp add: attemptUpgrade_tier_index)
  moreover have "dprBucketIndex (attemptUpgrade now s) < length DPR_BUCKETS"
  proof -
    from b have "dprBucketIndex (s\<lparr>dprBucketIndex := dprBucketIndex s - 1\<rparr>)
        \<le> length DPR_BUCKETS - 1" by simp
    from budgetLoop_bucket_bound [OF this, of False]
    have one: "dprBucketIndex (fst (budgetLoop
        (s\<lparr>dprBucketIndex := dprBucketIndex s - 1\<rparr>) False)) < length DPR_BUCKETS"
      by (simp add: DPR_BUCKETS_def)
    from b have "dprBucketIndex
        (s\<lparr>baseCapCurrent := min (baseCapMax s) (baseCapCurrent s + 1 / 10)\<rparr>)
        \<le> length DPR_BUCKETS - 1" by simp
    from budgetLoop_bucket_bound [OF this, of False]
    have two: "dprBucketIndex (fst (budgetLoop
        (s\<lparr>baseCapCurrent := min (baseCapMax s) (baseCapCurrent s + 1 / 10)\<rparr>) False))
        < length DPR_BUCKETS"
      by (simp add: DPR_BUCKETS_def)
    from one two b show ?thesis by (simp add: attemptUpgrade_bucket_index)
  qed
  ultimately show ?thesis by (simp add: tablesInv_def)
qed

lemma tablesInv_perfAdaptiveUpdate:
  assumes "tablesInv s"
  shows "tablesInv (perfAdaptiveUpdate delta now s)"
proof (cases rule: perfAdaptiveUpdate_cases [where s = s and delta = delta])
  case ignore
  with assms show ?thesis by (simp add: perfAdaptiveUpdate_ignore tablesInv_def)
next
  case degrading
  let ?s2 = "s\<lparr>emaFrameTime := nextEma delta s, lastEmaFPS := 1 / nextEma delta s,
                 lowPerfAccum := lowPerfAccum s + delta * 1000, highPerfAccum := 0\<rparr>"
  from assms have "tablesInv ?s2" by (simp add: tablesInv_def)
  from tablesInv_attemptDegrade [OF this, of now] assms degrading show ?thesis
    by (simp add: perfAdaptiveUpdate_degrading tablesInv_def)
next
  case upgrading
  let ?s2 = "s\<lparr>emaFrameTime := nextEma delta s, lastEmaFPS := 1 / nextEma delta s,
                 highPerfAccum := highPerfAccum s + delta * 1000, lowPerfAccum := 0\<rparr>"
  from assms have "tablesInv ?s2" by (simp add: tablesInv_def)
  from tablesInv_attemptUpgrade [OF this, of now] assms upgrading show ?thesis
    by (simp add: perfAdaptiveUpdate_upgrading tablesInv_def)
next
  case neutral
  with assms show ?thesis by (simp add: perfAdaptiveUpdate_neutral tablesInv_def)
qed

lemma tablesInv_step:
  assumes "tablesInv s"
  shows "tablesInv (step e s)"
proof -
  from assms have b: "dprBucketIndex s < length DPR_BUCKETS"
    and t: "effectQualityLevel s < length EFFECT_QUALITY_LEVELS"
    by (simp_all add: tablesInv_def)
  show ?thesis
  proof (cases e)
    case (Frame delta now)
    with assms show ?thesis by (simp add: tablesInv_perfAdaptiveUpdate)
  next
    case (Resume now)
    with assms show ?thesis by (simp add: triggerResumeGuard_def tablesInv_def)
  next
    case (Resize w h)
    from b have "dprBucketIndex (s\<lparr>lastCSSW := w, lastCSSH := h\<rparr>) \<le> length DPR_BUCKETS - 1"
      by simp
    from budgetLoop_bucket_bound [OF this, of False]
    have "dprBucketIndex (resizeRendererAndComposer w h s) < length DPR_BUCKETS"
      by (simp add: resizeRendererAndComposer_bucket DPR_BUCKETS_def)
    with Resize t show ?thesis by (simp add: tablesInv_def)
  next
    case (ForceBucket i)
    with t forceBucket_index [of i] show ?thesis
      by (simp add: forceBucket_def tablesInv_def applyRendererPixelRatio_bucket_bound)
  next
    case (ForceTier i)
    with b forceTier_index [of i] show ?thesis
      by (simp add: forceTier_def tablesInv_def)
  next
    case (SetBaseCap v)
    with b t show ?thesis
      by (simp add: setBaseCap_def tablesInv_def applyRendererPixelRatio_bucket_bound)
  next
    case (DevicePixelRatioChange r)
    with assms show ?thesis by (simp add: tablesInv_def)
  qed
qed

lemma tablesInv_run: "tablesInv s \<Longrightarrow> tablesInv (run evs s)"
  by (induction evs arbitrary: s) (simp_all add: tablesInv_step)

lemma tablesInv_startSession: "tablesInv (startSession d w h t0)"
  using ladderInv_startSession [of d w h t0] by (simp add: ladderInv_def tablesInv_def)

lemma budgetOk_session:
  "\<forall>e \<in> set evs. \<not> isRatioChange e \<Longrightarrow> budgetOk (run evs (startSession d w h t0))"
  using ladderInv_run [OF _ ladderInv_startSession, of evs d w h t0]
  by (simp add: ladderInv_def)

subsection \<open>The bucket after a ladder step\<close>

lemma attemptDegrade_bucket_facts:
  assumes a: "degradeAllowed now s"
    and t: "\<not> effectQualityLevel s < length EFFECT_QUALITY_LEVELS - 1"
    and b: "dprBucketIndex s < length DPR_BUCKETS - 1"
  shows "effectQualityLevel (attemptDegrade now s) = effectQualityLevel s"
    and "dprBucketIndex s + 1 \<le> dprBucketIndex (attemptDegrade now s)"
    and "dprBucketIndex (attemptDegrade now s) \<le> length DPR_BUCKETS - 1"
    and "internalPixels (s\<lparr>dprBucketIndex := dprBucketIndex s + 1\<rparr>) \<le> PIXEL_BUDGET \<Longrightarrow>
         dprBucketIndex (attemptDegrade now s) = dprBucketIndex s + 1"
    and "budgetOk s \<Longrightarrow> dprBucketIndex (attemptDegrade now s) = dprBucketIndex s + 1"
    and "\<And>i. dprBucketIndex s + 1 \<le> i \<Longrightarrow> i < dprBucketIndex (attemptDegrade now s) \<Longrightarrow>
         internalPixels (s\<lparr>dprBucketIndex := i\<rparr>) > PIXEL_BUDGET"
    and "internalPixels (attemptDegrade now s) \<le> PIXEL_BUDGET
         \<or> dprBucketIndex (attemptDegrade now s) = length DPR_BUCKETS - 1"
proof -
  let ?x = "s\<lparr>dprBucketIndex := dprBucketIndex s + 1\<rparr>"
  from a t b have idx: "dprBucketIndex (attemptDegrade now s)
      = dprBucketIndex (fst (budgetLoop ?x False))"
    by (simp add: attemptDegrade_bucket_index)
  from a t show "effectQualityLevel (attemptDegrade now s) = effectQualityLevel s"
    by (simp add: attemptDegrade_tier_index)
  from budgetLoop_bucket_mono [of ?x False] idx
  show lo: "dprBucketIndex s + 1 \<le> dprBucketIndex (attemptDegrade now s)" by simp
  from b have "dprBucketIndex ?x \<le> length DPR_BUCKETS - 1" by simp
  from budgetLoop_bucket_bound [OF this, of False] idx
  show hi: "dprBucketIndex (attemptDegrade now s) \<le> length DPR_BUCKETS - 1" by simp
  show "dprBucketIndex (attemptDegrade now s) = dprBucketIndex s + 1"
    if "internalPixels ?x \<le> PIXEL_BUDGET"
  proof -
    from that have "budgetOk ?x" by (simp add: budgetOk_def)
    from budgetLoop_index_ok [OF this, of False] idx show ?thesis by simp
  qed
  show "dprBucketIndex (attemptDegrade now s) = dprBucketIndex s + 1" if "budgetOk s"
  proof -
    from budgetOk_step [OF that b] have "budgetOk ?x" .
    from budgetLoop_index_ok [OF this, of False] idx show ?thesis by simp
  qed
  show "internalPixels (s\<lparr>dprBucketIndex := i\<rparr>) > PIXEL_BUDGET"
    if "dprBucketIndex s + 1 \<le> i" "i < dprBucketIndex (attemptDegrade now s)" for i
  proof -
    from that idx have "dprBucketIndex ?x \<le> i" "i < dprBucketIndex (fst (budgetLoop ?x False))"
      by simp_all
    from budgetLoop_skipped [OF this] show ?thesis by simp
  qed
  from attemptDegrade_bucket [OF a t b] applyRendererPixelRatio_within [of ?x] hi
  show "internalPixels (attemptDegrade now s) \<le> PIXEL_BUDGET
      \<or> dprBucketIndex (attemptDegrade now s) = length DPR_BUCKETS - 1"
    by auto
qed

lemma attemptUpgrade_bucket_facts:
  assumes a: "upgradeAllowed now s" and b: "dprBucketIndex s > 0"
  shows "effectQualityLevel (attemptUpgrade now s) = effectQualityLevel s"
    and "baseCapCurrent (attemptUpgrade now s) = baseCapCurrent s"
    and "dprBucketIndex s - 1 \<le> dprBucketIndex (attemptUpgrade now s)"
    and "internalPixels (s\<lparr>dprBucketIndex := dprBucketIndex s - 1\<rparr>) \<le> PIXEL_BUDGET \<Longrightarrow>
         dprBucketIndex (attemptUpgrade now s) = dprBucketIndex s - 1"
    and "internalPixels (s\<lparr>dprBucketIndex := dprBucketIndex s - 1\<rparr>) > PIXEL_BUDGET \<Longrightarrow>
         dprBucketIndex s < length DPR_BUCKETS \<Longrightarrow>
         dprBucketIndex s \<le> dprBucketIndex (attemptUpgrade now s)
         \<and> dprBucketIndex (attemptUpgrade now s) \<le> length DPR_BUCKETS - 1
         \<and> (budgetOk s \<longrightarrow> dprBucketIndex (attemptUpgrade now s) = dprBucketIndex s)"
    and "\<And>i. dprBucketIndex s - 1 \<le> i \<Longrightarrow> i < dprBucketIndex (attemptUpgrade now s) \<Longrightarrow>
         internalPixels (s\<lparr>dprBucketIndex := i\<rparr>) > PIXEL_BUDGET"
    and "internalPixels (attemptUpgrade now s) \<le> PIXEL_BUDGET
         \<or> length DPR_BUCKETS - 1 \<le> dprBucketIndex (attemptUpgrade now s)"
proof -
  let ?x = "s\<lparr>dprBucketIndex := dprBucketIndex s - 1\<rparr>"
  from a b have idx: "dprBucketIndex (attemptUpgrade now s)
      = dprBucketIndex (fst (budgetLoop ?x False))"
    by (simp add: attemptUpgrade_bucket_index)
  from a b show "effectQualityLevel (attemptUpgrade now s) = effectQualityLevel s"
    by (simp add: attemptUpgrade_tier_index)
  from a b show "baseCapCurrent (attemptUpgrade now s) = baseCapCurrent s"
    by (simp add: attemptUpgrade_baseCap_value)
  from budgetLoop_bucket_mono [of ?x False] idx
  show "dprBucketIndex s - 1 \<le> dprBucketIndex (attemptUpgrade now s)" by simp
  show "dprBucketIndex (attemptUpgrade now s) = dprBucketIndex s - 1"
    if "internalPixels ?x \<le> PIXEL_BUDGET"
  proof -
    from that have "budgetOk ?x" by (simp add: budgetOk_def)
    from budgetLoop_index_ok [OF this, of False] idx show ?thesis by simp
  qed
  show "dprBucketIndex s \<le> dprBucketIndex (attemptUpgrade now s)
      \<and> dprBucketIndex (attemptUpgrade now s) \<le> length DPR_BUCKETS - 1
      \<and> (budgetOk s \<longrightarrow> dprBucketIndex (attemptUpgrade now s) = dprBucketIndex s)"
    if over: "internalPixels ?x > PIXEL_BUDGET" and tb: "dprBucketIndex s < length DPR_BUCKETS"
  proof -
    from b tb have lt: "dprBucketIndex ?x < length DPR_BUCKETS - 1" by simp
    with over have "\<not> budgetOk ?x" by (simp add: budgetOk_def)
    from budgetLoop_index_over [OF this, of False] idx b
    have one: "dprBucketIndex s \<le> dprBucketIndex (attemptUpgrade now s)"
      and two: "dprBucketIndex (attemptUpgrade now s) \<le> length DPR_BUCKETS - 1"
      by auto
    have three: "dprBucketIndex (attemptUpgrade now s) = dprBucketIndex s" if ok: "budgetOk s"
    proof -
      from b have undo: "?x\<lparr>dprBucketIndex := dprBucketIndex ?x + 1\<rparr> = s" by simp
      from budgetLoop_step [OF over lt, of False] undo
      have "budgetLoop ?x False = budgetLoop s True" by simp
      with budgetLoop_index_ok [OF ok, of True] idx show ?thesis by simp
    qed
    from one two three show ?thesis by blast
  qed
  show "internalPixels (s\<lparr>dprBucketIndex := i\<rparr>) > PIXEL_BUDGET"
    if "dprBucketIndex s - 1 \<le> i" "i < dprBucketIndex (attemptUpgrade now s)" for i
  proof -
    from that idx have "dprBucketIndex ?x \<le> i" "i < dprBucketIndex (fst (budgetLoop ?x False))"
      by simp_all
    from budgetLoop_skipped [OF this] show ?thesis by simp
  qed
  from attemptUpgrade_bucket [OF a b] applyRendererPixelRatio_within [of ?x]
  show "internalPixels (attemptUpgrade now s) \<le> PIXEL_BUDGET
      \<or> length DPR_BUCKETS - 1 \<le> dprBucketIndex (attemptUpgrade now s)"
    by auto
qed

lemma attemptUpgrade_cap_facts:
  assumes a: "upgradeAllowed now s" and b: "dprBucketIndex s = 0"
    and t: "effectQualityLevel s = 0"
    and c: "category s = Desktop \<and> baseCapCurrent s < baseCapMax s"
  shows "baseCapCurrent (attemptUpgrade now s) = min (baseCapMax s) (baseCapCurrent s + 1 / 10)"
    and "baseCapCurrent s < baseCapCurrent (attemptUpgrade now s)"
    and "baseCapCurrent (attemptUpgrade now s) \<le> baseCapMax s"
    and "effectQualityLevel (attemptUpgrade now s) = 0"
    and "internalPixels (s\<lparr>baseCapCurrent := min (baseCapMax s) (baseCapCurrent s + 1 / 10)\<rparr>)
           \<le> PIXEL_BUDGET \<Longrightarrow> dprBucketIndex (attemptUpgrade now s) = 0"
    and "internalPixels (s\<lparr>baseCapCurrent := min (baseCapMax s) (baseCapCurrent s + 1 / 10)\<rparr>)
           > PIXEL_BUDGET \<Longrightarrow> 0 < dprBucketIndex (attemptUpgrade now s)"
    and "dprBucketIndex (attemptUpgrade now s) \<le> length DPR_BUCKETS - 1"
    and "\<And>i. i < dprBucketIndex (attemptUpgrade now s) \<Longrightarrow>
         internalPixels (s\<lparr>baseCapCurrent := min (baseCapMax s) (baseCapCurrent s + 1 / 10),
                          dprBucketIndex := i\<rparr>) > PIXEL_BUDGET"
    and "internalPixels (attemptUpgrade now s) \<le> PIXEL_BUDGET
         \<or> dprBucketIndex (attemptUpgrade now s) = length DPR_BUCKETS - 1"
proof -
  let ?x = "s\<lparr>baseCapCurrent := min (baseCapMax s) (baseCapCurrent s + 1 / 10)\<rparr>"
  from a b t c have idx: "dprBucketIndex (attemptUpgrade now s)
      = dprBucketIndex (fst (budgetLoop ?x False))"
    by (simp add: attemptUpgrade_bucket_index)
  from a b t c show v: "baseCapCurrent (attemptUpgrade now s)
      = min (baseCapMax s) (baseCapCurrent s + 1 / 10)"
    by (simp add: attemptUpgrade_baseCap_value)
  from v c show "baseCapCurrent s < baseCapCurrent (attemptUpgrade now s)" by simp
  from v show "baseCapCurrent (attemptUpgrade now s) \<le> baseCapMax s" by simp
  from a b t show "effectQualityLevel (attemptUpgrade now s) = 0"
    by (simp add: attemptUpgrade_tier_index)
  show "dprBucketIndex (attemptUpgrade now s) = 0" if "internalPixels ?x \<le> PIXEL_BUDGET"
  proof -
    from that have "budgetOk ?x" by (simp add: budgetOk_def)
    from budgetLoop_index_ok [OF this, of False] idx b show ?thesis by simp
  qed
  show "0 < dprBucketIndex (attemptUpgrade now s)" if "internalPixels ?x > PIXEL_BUDGET"
  proof -
    from that b have "\<not> budgetOk ?x" by (simp add: budgetOk_def DPR_BUCKETS_def)
    from budgetLoop_index_over [OF this, of False] idx show ?thesis by simp
  qed
  from b have "dprBucketIndex ?x \<le> length DPR_BUCKETS - 1" by simp
  from budgetLoop_bucket_bound [OF this, of False] idx
  show hi: "dprBucketIndex (attemptUpgrade now s) \<le> length DPR_BUCKETS - 1" by simp
  show "internalPixels (s\<lparr>baseCapCurrent := min (baseCapMax s) (baseCapCurrent s + 1 / 10),
                          dprBucketIndex := i\<rparr>) > PIXEL_BUDGET"
    if "i < dprBucketIndex (attemptUpgrade now s)" for i
  proof -
    from that idx b have "dprBucketIndex ?x \<le> i" "i < dprBucketIndex (fst (budgetLoop ?x False))"
      by simp_all
    from budgetLoop_skipped [OF this] show ?thesis by simp
  qed
  from attemptUpgrade_cap [OF a b t c] applyRendererPixelRatio_within [of ?x] hi
  show "internalPixels (attemptUpgrade now s) \<le> PIXEL_BUDGET
      \<or> dprBucketIndex (attemptUpgrade now s) = length DPR_BUCKETS - 1"
    by auto
qed

subsection \<open>The zoomed laptop session\<close>

lemma zoom_fields:
  "lastCSSW (run zoomEvents (startSession laptopProbe 1440 900 0)) = 2880"
  "lastCSSH (run zoomEvents (startSession laptopProbe 1440 900 0)) = 1800"
  "baseCapCurrent (run zoomEvents (startSession laptopProbe 1440 900 0)) = 155 / 100"
  "devicePixelRatio (run zoomEvents (startSession laptopProbe 1440 900 0)) = 2"
  "effectQualityLevel (run zoomEvents (startSession laptopProbe 1440 900 0)) = 3"
  "lastPerfChangeTime (run zoomEvents (startSession laptopProbe 1440 900 0)) = 0"
  "resumeGuardUntil (run zoomEvents (startSession laptopProbe 1440 900 0)) = 0"
  "postResumeDebounceUntil (run zoomEvents (startSession laptopProbe 1440 900 0)) = 0"
  by (simp_all add: zoomEvents_def forceTier_def laptop_profile EFFECT_QUALITY_LEVELS_def)

lemma zoom_bucket: "dprBucketIndex (run zoomEvents (startSession laptopProbe 1440 900 0)) = 0"
proof -
  let ?b = "(forceTier 3 (startSession laptopProbe 1440 900 0))\<lparr>devicePixelRatio := 1\<rparr>"
  let ?x = "?b\<lparr>lastCSSW := 2880, lastCSSH := 1800\<rparr>"
  have "internalPixels ?x \<le> PIXEL_BUDGET"
    by (simp add: internalPixels_eval forceTier_def laptop_profile laptop_bucket bucketMul_def
        DPR_BUCKETS_def MAX_EFFECTIVE_DPR_def PIXEL_BUDGET_def power2_eq_square)
  then have "budgetOk ?x" by (simp add: budgetOk_def)
  from budgetLoop_index_ok [OF this, of False]
  have "dprBucketIndex (resizeRendererAndComposer 2880 1800 ?b) = 0"
    by (simp add: resizeRendererAndComposer_bucket forceTier_def laptop_bucket)
  then show ?thesis by (simp add: zoomEvents_def)
qed

lemma zoom_allowed: "degradeAllowed 5000 (run zoomEvents (startSession laptopProbe 1440 900 0))"
  by (simp add: degradeAllowed_def effectiveDebounceMs_def PERF_CHANGE_DEBOUNCE_def zoom_fields)

lemma zoom_degrade_bucket:
  "dprBucketIndex (attemptDegrade 5000 (run zoomEvents (startSession laptopProbe 1440 900 0))) = 2"
proof -
  let ?z = "run zoomEvents (startSession laptopProbe 1440 900 0)"
  let ?x = "?z\<lparr>dprBucketIndex := dprBucketIndex ?z + 1\<rparr>"
  have over: "internalPixels ?x > PIXEL_BUDGET"
    by (simp add: internalPixels_eval zoom_fields zoom_bucket bucketMul_def
        DPR_BUCKETS_def MAX_EFFECTIVE_DPR_def PIXEL_BUDGET_def power2_eq_square)
  have lt: "dprBucketIndex ?x < length DPR_BUCKETS - 1"
    by (simp add: zoom_bucket DPR_BUCKETS_def)
  have "budgetLoop (?x\<lparr>dprBucketIndex := dprBucketIndex ?x + 1\<rparr>) True
      = (?x\<lparr>dprBucketIndex := dprBucketIndex ?x + 1\<rparr>, True)"
    by (rule budgetLoop_stop) (simp add: zoom_bucket DPR_BUCKETS_def)
  with budgetLoop_step [OF over lt, of False]
  have "dprBucketIndex (fst (budgetLoop ?x False)) = 2" by (simp add: zoom_bucket)
  with zoom_allowed show ?thesis
    by (simp add: attemptDegrade_bucket_index zoom_fields zoom_bucket
        EFFECT_QUALITY_LEVELS_def DPR_BUCKETS_def)
qed

lemma zoomUpgrade_fields:
  "lastCSSW (run zoomUpgradeEvents (startSession laptopProbe 1440 900 0)) = 2880"
  "lastCSSH (run zoomUpgradeEvents (startSession laptopProbe 1440 900 0)) = 1800"
  "baseCapCurrent (run zoomUpgradeEvents (startSession laptopProbe 1440 900 0)) = 155 / 100"
  "devicePixelRatio (run zoomUpgradeEvents (startSession laptopProbe 1440 900 0)) = 2"
  "effectQualityLevel (run zoomUpgradeEvents (startSession laptopProbe 1440 900 0)) = 0"
  "lastPerfChangeTime (run zoomUpgradeEvents (startSession laptopProbe 1440 900 0)) = 0"
  "postResumeDebounceUntil (run zoomUpgradeEvents (startSession laptopProbe 1440 900 0)) = 0"
  by (simp_all add: zoomUpgradeEvents_def forceBucket_def laptop_profile)

lemma zoomUpgrade_bucket:
  "dprBucketIndex (run zoomUpgradeEvents (startSession laptopProbe 1440 900 0)) = 1"
proof -
  let ?c = "handleResize 2880 1800
      ((startSession laptopProbe 1440 900 0)\<lparr>devicePixelRatio := 1\<rparr>)"
  let ?x = "?c\<lparr>dprBucketIndex := 1\<rparr>"
  have "internalPixels ?x \<le> PIXEL_BUDGET"
    by (simp add: internalPixels_eval laptop_profile bucketMul_def
        DPR_BUCKETS_def MAX_EFFECTIVE_DPR_def PIXEL_BUDGET_def power2_eq_square)
  then have "budgetOk ?x" by (simp add: budgetOk_def)
  from budgetLoop_index_ok [OF this, of False]
  have "dprBucketIndex (forceBucket 1 ?c) = 1"
    by (simp add: forceBucket_def applyRendererPixelRatio_bucket DPR_BUCKETS_def)
  then show ?thesis by (simp add: zoomUpgradeEvents_def)
qed

lemma zoomUpgrade_allowed:
  "upgradeAllowed 5000 (run zoomUpgradeEvents (startSession laptopProbe 1440 900 0))"
  by (simp add: upgradeAllowed_def effectiveDebounceMs_def PERF_CHANGE_DEBOUNCE_def
      zoomUpgrade_fields)

lemma zoomUpgrade_result:
  "dprBucketIndex (attemptUpgrade 5000
     (run zoomUpgradeEvents (startSession laptopProbe 1440 900 0))) = 2"
proof -
  let ?z = "run zoomUpgradeEvents (startSession laptopProbe 1440 900 0)"
  let ?x = "?z\<lparr>dprBucketIndex := dprBucketIndex ?z - 1\<rparr>"
  let ?y = "?x\<lparr>dprBucketIndex := dprBucketIndex ?x + 1\<rparr>"
  have over0: "internalPixels ?x > PIXEL_BUDGET"
    by (simp add: internalPixels_eval zoomUpgrade_fields zoomUpgrade_bucket bucketMul_def
        DPR_BUCKETS_def MAX_EFFECTIVE_DPR_def PIXEL_BUDGET_def power2_eq_square)
  have lt0: "dprBucketIndex ?x < length DPR_BUCKETS - 1"
    by (simp add: zoomUpgrade_bucket DPR_BUCKETS_def)
  have over1: "internalPixels ?y > PIXEL_BUDGET"
    by (simp add: internalPixels_eval zoomUpgrade_fields zoomUpgrade_bucket bucketMul_def
        DPR_BUCKETS_def MAX_EFFECTIVE_DPR_def PIXEL_BUDGET_def power2_eq_square)
  have lt1: "dprBucketIndex ?y < length DPR_BUCKETS - 1"
    by (simp add: zoomUpgrade_bucket DPR_BUCKETS_def)
  have "budgetLoop (?y\<lparr>dprBucketIndex := dprBucketIndex ?y + 1\<rparr>) True
      = (?y\<lparr>dprBucketIndex := dprBucketIndex ?y + 1\<rparr>, True)"
    by (rule budgetLoop_stop) (simp add: zoomUpgrade_bucket DPR_BUCKETS_def)
  with budgetLoop_step [OF over0 lt0, of False] budgetLoop_step [OF over1 lt1, of True]
  have "dprBucketIndex (fst (budgetLoop ?x False)) = 2" by (simp add: zoomUpgrade_bucket)
  with zoomUpgrade_allowed show ?thesis
    by (simp add: attemptUpgrade_bucket_index zoomUpgrade_bucket)
qed

lemma wide_laptop_bucket: "dprBucketIndex (startSession laptopProbe 2400 1500 0) = 0"
proof -
  let ?m = "(moduleState laptopProbe 2400 1500 0)\<lparr>reedEffect := True, vignetteEffect := True\<rparr>"
  have "internalPixels ?m \<le> PIXEL_BUDGET"
    by (simp add: internalPixels_eval laptop_profile bucketMul_def
        DPR_BUCKETS_def MAX_EFFECTIVE_DPR_def PIXEL_BUDGET_def laptop_dpr power2_eq_square)
  then have "budgetOk ?m" by (simp add: budgetOk_def)
  then have "dprBucketIndex (applyRendererPixelRatio ?m) = dprBucketIndex ?m"
    by (rule applyRendererPixelRatio_bucket_ok)
  then show ?thesis by (simp add: startSession_def)
qed

text \<open>A single frame of four seconds at the start of a laptop session is in the degrading band.\<close>

lemma exp_minus_four: "exp (- 4 :: real) \<le> 1 / 5"
proof -
  have "1 + (4::real) \<le> exp 4" by (rule exp_ge_add_one_self)
  then have "(5::real) \<le> exp 4" by simp
  then have "inverse (exp (4::real)) \<le> inverse 5"
    by (intro le_imp_inverse_le) simp_all
  moreover have "exp (- 4 :: real) = inverse (exp 4)" by (rule exp_minus)
  ultimately have "exp (- 4 :: real) \<le> inverse 5" by (simp only:)
  then show ?thesis by (simp only: inverse_eq_divide)
qed

lemma stall_frame_band:
  "fpsBand (nextEma 4 (startSession laptopProbe 1440 900 0)) = Degrading"
proof -
  let ?e = "nextEma 4 (startSession laptopProbe 1440 900 0)"
  define x :: real where "x = exp (- 4)"
  have ema: "emaFrameTime (startSession laptopProbe 1440 900 0) = 1 / 60"
    by (simp add: startSession_def moduleState_def Let_def)
  have e: "?e = 1 / 60 + (1 - x) * (239 / 60)"
    by (simp add: nextEma_def ema EMA_WINDOW_SECONDS_def x_def)
  from exp_minus_four have "x \<le> 1 / 5" by (simp only: x_def)
  then have "3 \<le> 1 / 60 + (1 - x) * (239 / 60)" by argo
  with e have big: "3 \<le> ?e" by (simp only:)
  then have pos: "0 < ?e" by simp
  from big have "1 < 55 * ?e" by simp
  with pos have "1 / ?e < 55" by (simp add: pos_divide_less_eq)
  with pos show ?thesis by (simp add: fpsBand_def PERF_FPS_DROP_THRESHOLD_def)
qed

lemma stall_frame_low: "lowPerfAccum (startSession laptopProbe 1440 900 0) = 0"
  by simp

lemma stall_frame_ignore: "resumeIgnoreFrames (startSession laptopProbe 1440 900 0) = 0"
  by (simp add: startSession_def moduleState_def Let_def)



subsection \<open>The states inside a frame, and a second of smooth frames\<close>

lemma framePoints_ignore:
  "resumeIgnoreFrames s > 0 \<Longrightarrow>
   framePoints delta now s = [s\<lparr>resumeIgnoreFrames := resumeIgnoreFrames s - 1\<rparr>]"
  by (simp add: framePoints_def)

lemma framePoints_degrading:
  assumes "resumeIgnoreFrames s = 0" "fpsBand (nextEma delta s) = Degrading"
  shows "framePoints delta now s =
     (if lowPerfAccum s + delta * 1000 \<ge> PERF_DEGRADE_MIN_DURATION
      then [s\<lparr>emaFrameTime := nextEma delta s, lastEmaFPS := 1 / nextEma delta s\<rparr>,
            s\<lparr>emaFrameTime := nextEma delta s, lastEmaFPS := 1 / nextEma delta s,
              lowPerfAccum := lowPerfAccum s + delta * 1000\<rparr>,
            s\<lparr>emaFrameTime := nextEma delta s, lastEmaFPS := 1 / nextEma delta s,
              lowPerfAccum := lowPerfAccum s + delta * 1000, highPerfAccum := 0\<rparr>,
            attemptDegrade now
              (s\<lparr>emaFrameTime := nextEma delta s, lastEmaFPS := 1 / nextEma delta s,
                 lowPerfAccum := lowPerfAccum s + delta * 1000, highPerfAccum := 0\<rparr>),
            (attemptDegrade now
              (s\<lparr>emaFrameTime := nextEma delta s, lastEmaFPS := 1 / nextEma delta s,
                 lowPerfAccum := lowPerfAccum s + delta * 1000, highPerfAccum := 0\<rparr>))
              \<lparr>lowPerfAccum := 0\<rparr>]
      else [s\<lparr>emaFrameTime := nextEma delta s, lastEmaFPS := 1 / nextEma delta s\<rparr>,
            s\<lparr>emaFrameTime := nextEma delta s, lastEmaFPS := 1 / nextEma delta s,
              lowPerfAccum := lowPerfAccum s + delta * 1000\<rparr>,
            s\<lparr>emaFrameTime := nextEma delta s, lastEmaFPS := 1 / nextEma delta s,
              lowPerfAccum := lowPerfAccum s + delta * 1000, highPerfAccum := 0\<rparr>])"
proof -
  from assms(2) have "fpsBand (emaFrameTime s
      + (1 - exp (- delta / EMA_WINDOW_SECONDS)) * (delta - emaFrameTime s)) = Degrading"
    by (simp add: nextEma_def)
  with assms(1) show ?thesis
    unfolding framePoints_def nextEma_def Let_def by simp
qed

lemma framePoints_upgrading:
  assumes "resumeIgnoreFrames s = 0" "fpsBand (nextEma delta s) = Upgrading"
  shows "framePoints delta now s =
     (if highPerfAccum s + delta * 1000 \<ge> PERF_UPGRADE_MIN_DURATION
      then [s\<lparr>emaFrameTime := nextEma delta s, lastEmaFPS := 1 / nextEma delta s\<rparr>,
            s\<lparr>emaFrameTime := nextEma delta s, lastEmaFPS := 1 / nextEma delta s,
              highPerfAccum := highPerfAccum s + delta * 1000\<rparr>,
            s\<lparr>emaFrameTime := nextEma delta s, lastEmaFPS := 1 / nextEma delta s,
              highPerfAccum := highPerfAccum s + delta * 1000, lowPerfAccum := 0\<rparr>,
            attemptUpgrade now
              (s\<lparr>emaFrameTime := nextEma delta s, lastEmaFPS := 1 / nextEma delta s,
                 highPerfAccum := highPerfAccum s + delta * 1000, lowPerfAccum := 0\<rparr>),
            (attemptUpgrade now
              (s\<lparr>emaFrameTime := nextEma delta s, lastEmaFPS := 1 / nextEma delta s,
                 highPerfAccum := highPerfAccum s + delta * 1000, lowPerfAccum := 0\<rparr>))
              \<lparr>highPerfAccum := 0\<rparr>]
      else [s\<lparr>emaFrameTime := nextEma delta s, lastEmaFPS := 1 / nextEma delta s\<rparr>,
            s\<lparr>emaFrameTime := nextEma delta s, lastEmaFPS := 1 / nextEma delta s,
              highPerfAccum := highPerfAccum s + delta * 1000\<rparr>,
            s\<lparr>emaFrameTime := nextEma delta s, lastEmaFPS := 1 / nextEma delta s,
              highPerfAccum := highPerfAccum s + delta * 1000, lowPerfAccum := 0\<rparr>])"
proof -
  from assms(2) have "fpsBand (emaFrameTime s
      + (1 - exp (- delta / EMA_WINDOW_SECONDS)) * (delta - emaFrameTime s)) = Upgrading"
    by (simp add: nextEma_def)
  with assms(1) show ?thesis
    unfolding framePoints_def nextEma_def Let_def by simp
qed

lemma framePoints_neutral:
  assumes "resumeIgnoreFrames s = 0" "fpsBand (nextEma delta s) = Neutral"
  shows "framePoints delta now s =
     [s\<lparr>emaFrameTime := nextEma delta s, lastEmaFPS := 1 / nextEma delta s\<rparr>,
      s\<lparr>emaFrameTime := nextEma delta s, lastEmaFPS := 1 / nextEma delta s,
        lowPerfAccum := max 0 (lowPerfAccum s - delta * 400)\<rparr>,
      s\<lparr>emaFrameTime := nextEma delta s, lastEmaFPS := 1 / nextEma delta s,
        lowPerfAccum := max 0 (lowPerfAccum s - delta * 400),
        highPerfAccum := max 0 (highPerfAccum s - delta * 400)\<rparr>]"
proof -
  from assms(2) have "fpsBand (emaFrameTime s
      + (1 - exp (- delta / EMA_WINDOW_SECONDS)) * (delta - emaFrameTime s)) = Neutral"
    by (simp add: nextEma_def)
  with assms(1) show ?thesis
    unfolding framePoints_def nextEma_def Let_def by simp
qed

lemma framePoints_last: "last (framePoints delta now s) = perfAdaptiveUpdate delta now s"
proof (cases rule: perfAdaptiveUpdate_cases [where s = s and delta = delta])
  case ignore
  then show ?thesis by (simp add: framePoints_ignore perfAdaptiveUpdate_ignore)
next
  case degrading
  then show ?thesis by (simp add: framePoints_degrading perfAdaptiveUpdate_degrading)
next
  case upgrading
  then show ?thesis by (simp add: framePoints_upgrading perfAdaptiveUpdate_upgrading)
next
  case neutral
  then show ?thesis by (simp add: framePoints_neutral perfAdaptiveUpdate_neutral)
qed

lemma framePoints_accum:
  assumes "accumInv s" "0 \<le> delta"
  shows "\<forall>p \<in> set (framePoints delta now s).
           accumInv p
           \<or> (resumeIgnoreFrames s = 0 \<and> fpsBand (nextEma delta s) \<noteq> Neutral
               \<and> p = framePoints delta now s ! 1)"
proof (cases rule: perfAdaptiveUpdate_cases [where s = s and delta = delta])
  case ignore
  with assms show ?thesis by (simp add: framePoints_ignore accumInv_def)
next
  case degrading
  with assms show ?thesis by (auto simp add: framePoints_degrading accumInv_def)
next
  case upgrading
  with assms show ?thesis by (auto simp add: framePoints_upgrading accumInv_def)
next
  case neutral
  from assms have "max 0 (lowPerfAccum s - delta * 400) = 0
      \<or> max 0 (highPerfAccum s - delta * 400) = 0"
    by (auto simp add: accumInv_def max_def)
  with neutral assms show ?thesis by (auto simp add: framePoints_neutral accumInv_def)
qed

lemma nextEma_closed: "nextEma d s = d + (emaFrameTime s - d) * exp (- d)"
  by (simp add: nextEma_def EMA_WINDOW_SECONDS_def algebra_simps)

lemma frame_ignore0:
  "resumeIgnoreFrames s = 0 \<Longrightarrow> resumeIgnoreFrames (perfAdaptiveUpdate d now s) = 0"
  by (cases rule: perfAdaptiveUpdate_cases [where s = s and delta = d])
     (simp_all add: perfAdaptiveUpdate_degrading perfAdaptiveUpdate_upgrading
        perfAdaptiveUpdate_neutral)

lemma frame_ema:
  "resumeIgnoreFrames s = 0 \<Longrightarrow> emaFrameTime (perfAdaptiveUpdate d now s) = nextEma d s"
  by (cases rule: perfAdaptiveUpdate_cases [where s = s and delta = d])
     (simp_all add: perfAdaptiveUpdate_degrading perfAdaptiveUpdate_upgrading
        perfAdaptiveUpdate_neutral)

lemma frame_high:
  assumes "0 \<le> d" "0 \<le> highPerfAccum s"
  shows "0 \<le> highPerfAccum (perfAdaptiveUpdate d now s)
       \<and> highPerfAccum (perfAdaptiveUpdate d now s) \<le> highPerfAccum s + d * 1000"
proof (cases rule: perfAdaptiveUpdate_cases [where s = s and delta = d])
  case ignore
  with assms show ?thesis by (simp add: perfAdaptiveUpdate_ignore)
next
  case degrading
  with assms show ?thesis by (simp add: perfAdaptiveUpdate_degrading)
next
  case upgrading
  with assms show ?thesis by (simp add: perfAdaptiveUpdate_upgrading)
next
  case neutral
  with assms show ?thesis by (simp add: perfAdaptiveUpdate_neutral)
qed

lemma run_append: "run (xs @ ys) s = run ys (run xs s)"
  by (simp add: run_def)

lemma smoothFrames_nonneg: "\<forall>e \<in> set (smoothFrames n). nonnegDelta e"
  by (induction n) simp_all

lemma smoothFrames_run:
  assumes "resumeIgnoreFrames s = 0" "0 \<le> highPerfAccum s"
  shows "resumeIgnoreFrames (run (smoothFrames n) s) = 0
       \<and> 0 \<le> highPerfAccum (run (smoothFrames n) s)
       \<and> highPerfAccum (run (smoothFrames n) s) \<le> highPerfAccum s + 10 * real n
       \<and> emaFrameTime (run (smoothFrames n) s)
           = 1 / 100 + (emaFrameTime s - 1 / 100) * exp (- (1 / 100)) ^ n"
proof (induction n)
  case 0
  with assms show ?case by simp
next
  case (Suc n)
  let ?x = "run (smoothFrames n) s"
  let ?now = "10 * real (Suc n)"
  from Suc have ig: "resumeIgnoreFrames ?x = 0" and h0: "0 \<le> highPerfAccum ?x"
    and h1: "highPerfAccum ?x \<le> highPerfAccum s + 10 * real n"
    and e: "emaFrameTime ?x = 1 / 100 + (emaFrameTime s - 1 / 100) * exp (- (1 / 100)) ^ n"
    by simp_all
  have r: "run (smoothFrames (Suc n)) s = perfAdaptiveUpdate (1 / 100) ?now ?x"
    by (simp add: run_append)
  from frame_high [of "1 / 100" ?x ?now] h0 h1
  have "0 \<le> highPerfAccum (perfAdaptiveUpdate (1 / 100) ?now ?x)"
    "highPerfAccum (perfAdaptiveUpdate (1 / 100) ?now ?x) \<le> highPerfAccum s + 10 * real (Suc n)"
    by simp_all
  moreover have "emaFrameTime (perfAdaptiveUpdate (1 / 100) ?now ?x)
      = 1 / 100 + (emaFrameTime s - 1 / 100) * exp (- (1 / 100)) ^ Suc n"
    by (simp add: frame_ema [OF ig] nextEma_closed e)
  ultimately show ?case using frame_ignore0 [OF ig] by (simp add: run_append)
qed

lemma exp_minus_one: "exp (- 1 :: real) \<le> 1 / 2"
proof -
  have "1 + (1::real) \<le> exp 1" by (rule exp_ge_add_one_self)
  then have "(2::real) \<le> exp 1" by simp
  then have "inverse (exp (1::real)) \<le> inverse 2"
    by (intro le_imp_inverse_le) simp_all
  moreover have "exp (- 1 :: real) = inverse (exp 1)" by (rule exp_minus)
  ultimately have "exp (- 1 :: real) \<le> inverse 2" by (simp only:)
  then show ?thesis by (simp only: inverse_eq_divide)
qed

lemma band_upgrading:
  assumes "0 < e" "e \<le> 1 / 65"
  shows "fpsBand e = Upgrading"
proof -
  from assms have "65 * e \<le> 1" by simp
  with assms(1) have "65 \<le> 1 / e" by (simp add: pos_le_divide_eq)
  with assms(1) show ?thesis
    by (simp add: fpsBand_def PERF_FPS_DROP_THRESHOLD_def PERF_FPS_RAISE_THRESHOLD_def)
qed

lemma band_degrading:
  assumes "3 \<le> e"
  shows "fpsBand e = Degrading"
proof -
  from assms have pos: "0 < e" by simp
  from assms have "1 < 55 * e" by simp
  with pos have "1 / e < 55" by (simp add: pos_divide_less_eq)
  with pos show ?thesis by (simp add: fpsBand_def PERF_FPS_DROP_THRESHOLD_def)
qed

lemma smooth_start:
  "resumeIgnoreFrames (startSession laptopProbe 1440 900 0) = 0"
  "highPerfAccum (startSession laptopProbe 1440 900 0) = 0"
  "emaFrameTime (startSession laptopProbe 1440 900 0) = 1 / 60"
  by (simp_all add: startSession_def moduleState_def Let_def)

lemma smooth_hundred:
  "resumeIgnoreFrames (run (smoothFrames 100) (startSession laptopProbe 1440 900 0)) = 0"
  "0 \<le> highPerfAccum (run (smoothFrames 100) (startSession laptopProbe 1440 900 0))"
  "highPerfAccum (run (smoothFrames 100) (startSession laptopProbe 1440 900 0)) \<le> 1000"
  "1 / 100 \<le> emaFrameTime (run (smoothFrames 100) (startSession laptopProbe 1440 900 0))"
  "emaFrameTime (run (smoothFrames 100) (startSession laptopProbe 1440 900 0)) \<le> 1 / 75"
proof -
  let ?fresh = "startSession laptopProbe 1440 900 0"
  let ?x = "run (smoothFrames 100) ?fresh"
  define q :: real where "q = exp (- (1 / 100)) ^ 100"
  have "exp (- (1 / 100) :: real) ^ 100 = exp (of_nat 100 * (- (1 / 100)))"
    by (rule exp_of_nat_mult [symmetric])
  then have q: "q = exp (- 1)" by (simp add: q_def)
  from q exp_minus_one have q1: "q \<le> 1 / 2" by (simp only:)
  from q have q0: "0 \<le> q" by simp
  from smoothFrames_run [of ?fresh 100] smooth_start
  have ig: "resumeIgnoreFrames ?x = 0" and h0: "0 \<le> highPerfAccum ?x"
    and h1: "highPerfAccum ?x \<le> 1000"
    and e: "emaFrameTime ?x = 1 / 100 + (1 / 60 - 1 / 100) * q"
    by (simp_all add: q_def)
  from ig show "resumeIgnoreFrames ?x = 0" .
  from h0 show "0 \<le> highPerfAccum ?x" .
  from h1 show "highPerfAccum ?x \<le> 1000" .
  from q0 have "1 / 100 \<le> 1 / 100 + (1 / 60 - 1 / 100) * q" by simp
  with e show "1 / 100 \<le> emaFrameTime ?x" by (simp only:)
  from q1 have "1 / 100 + (1 / 60 - 1 / 100) * q \<le> 1 / 75" by simp
  with e show "emaFrameTime ?x \<le> 1 / 75" by (simp only:)
qed

lemma smooth_last:
  "run (smoothFrames 101) s = perfAdaptiveUpdate (1 / 100) 1010 (run (smoothFrames 100) s)"
proof -
  have "(101::nat) = Suc 100" by simp
  then have "smoothFrames 101 = smoothFrames 100 @ [Frame (1 / 100) 1010]"
    by (simp only: smoothFrames.simps) simp
  then show ?thesis by (simp add: run_append)
qed

lemma smooth_session:
  "resumeIgnoreFrames (run (smoothFrames 101) (startSession laptopProbe 1440 900 0)) = 0"
  "lowPerfAccum (run (smoothFrames 101) (startSession laptopProbe 1440 900 0)) = 0"
  "10 \<le> highPerfAccum (run (smoothFrames 101) (startSession laptopProbe 1440 900 0))"
  "0 \<le> emaFrameTime (run (smoothFrames 101) (startSession laptopProbe 1440 900 0))"
  "emaFrameTime (run (smoothFrames 101) (startSession laptopProbe 1440 900 0)) \<le> 1 / 65"
proof -
  let ?x = "run (smoothFrames 100) (startSession laptopProbe 1440 900 0)"
  let ?y = "run (smoothFrames 101) (startSession laptopProbe 1440 900 0)"
  define x where "x = emaFrameTime ?x - 1 / 100"
  define q :: real where "q = exp (- (1 / 100))"
  have q0: "0 \<le> q" and q1: "q \<le> 1" by (simp_all add: q_def)
  from smooth_hundred(4,5) have x0: "0 \<le> x" and x1: "x \<le> 1 / 300"
    by (simp_all add: x_def)
  have ne: "nextEma (1 / 100) ?x = 1 / 100 + x * q"
    by (simp add: nextEma_closed x_def q_def)
  from x0 q0 have lo: "0 \<le> x * q" by (rule mult_nonneg_nonneg)
  from x1 q1 x0 q0 have "x * q \<le> (1 / 300) * 1" by (intro mult_mono) simp_all
  then have hi: "x * q \<le> 1 / 300" by simp
  from lo ne have e0: "1 / 100 \<le> nextEma (1 / 100) ?x" by simp
  from hi ne have e1: "nextEma (1 / 100) ?x \<le> 1 / 65" by simp
  from e0 have "0 < nextEma (1 / 100) ?x" by simp
  from band_upgrading [OF this e1] have band: "fpsBand (nextEma (1 / 100) ?x) = Upgrading" .
  from smooth_hundred(3) have small: "\<not> PERF_UPGRADE_MIN_DURATION \<le> highPerfAccum ?x + 1 / 100 * 1000"
    by (simp add: PERF_UPGRADE_MIN_DURATION_def)
  have y: "?y = ?x\<lparr>emaFrameTime := nextEma (1 / 100) ?x, lastEmaFPS := 1 / nextEma (1 / 100) ?x,
             highPerfAccum := highPerfAccum ?x + 1 / 100 * 1000, lowPerfAccum := 0\<rparr>"
    using small
    by (simp only: smooth_last perfAdaptiveUpdate_upgrading [OF smooth_hundred(1) band] if_False)
  from y smooth_hundred(1) show "resumeIgnoreFrames ?y = 0" by simp
  from y show "lowPerfAccum ?y = 0" by simp
  from y smooth_hundred(2) show "10 \<le> highPerfAccum ?y" by simp
  from y e0 show "0 \<le> emaFrameTime ?y" by simp
  from y e1 show "emaFrameTime ?y \<le> 1 / 65" by simp
qed

lemma smooth_stall_band:
  "fpsBand (nextEma 4 (run (smoothFrames 101) (startSession laptopProbe 1440 900 0))) = Degrading"
proof -
  let ?y = "run (smoothFrames 101) (startSession laptopProbe 1440 900 0)"
  define x where "x = emaFrameTime ?y - 4"
  define q :: real where "q = exp (- 4)"
  from exp_minus_four have q1: "q \<le> 1 / 5" by (simp only: q_def)
  have q0: "0 \<le> q" by (simp add: q_def)
  from smooth_session(4) have x0: "- 4 \<le> x" by (simp add: x_def)
  from x0 q0 have "(- 4) * q \<le> x * q" by (rule mult_right_mono)
  moreover from q1 have "- (4 / 5) \<le> (- 4) * q" by simp
  ultimately have "- (4 / 5) \<le> x * q" by simp
  moreover have "nextEma 4 ?y = 4 + x * q"
    by (simp add: nextEma_closed x_def q_def)
  ultimately have "3 \<le> nextEma 4 ?y" by simp
  then show ?thesis by (rule band_degrading)
qed

lemma smooth_stall_point:
  "framePoints 4 5010 (run (smoothFrames 101) (startSession laptopProbe 1440 900 0)) ! 1
     = (framePoints 4 5010 (run (smoothFrames 101) (startSession laptopProbe 1440 900 0)) ! 0)
         \<lparr>lowPerfAccum := 4000\<rparr>"
  "highPerfAccum
     (framePoints 4 5010 (run (smoothFrames 101) (startSession laptopProbe 1440 900 0)) ! 1)
     = highPerfAccum (run (smoothFrames 101) (startSession laptopProbe 1440 900 0))"
  by (simp_all add: framePoints_degrading [OF smooth_session(1) smooth_stall_band]
      smooth_session(2))

section \<open>Properties of the scroll-driven parameters\<close>

lemma exposure_front: "p \<le> 1 / 2 \<Longrightarrow> computeExposureForScroll b p = b"
  by (simp add: computeExposureForScroll_def clamp_def Let_def max_def min_def)

lemma exposure_back:
  assumes "1 / 2 < p" "p \<le> 1"
  shows "computeExposureForScroll b p = b + smoothstep01 (2 * (p - 1 / 2)) * (b * (7 / 10) - b)"
proof -
  define t where "t = 2 * (p - 1 / 2)"
  from assms have "clamp ((p - 1 / 2) / (1 - 1 / 2)) 0 1 = t"
    by (simp add: clamp_def max_def min_def t_def)
  then have "computeExposureForScroll b p = b * (1 - t * t * (3 - 2 * t) * (1 - 7 / 10))"
    by (simp add: computeExposureForScroll_def Let_def)
  also have "\<dots> = b + smoothstep01 t * (b * (7 / 10) - b)"
    by (simp add: smoothstep01_def algebra_simps)
  finally show ?thesis by (simp add: t_def)
qed

lemma exposure_beyond: "1 < p \<Longrightarrow> computeExposureForScroll b p = b * (7 / 10)"
proof -
  assume a: "1 < p"
  then have "clamp ((p - 1 / 2) / (1 - 1 / 2)) 0 1 = 1"
    by (simp add: clamp_def max_def min_def)
  then show ?thesis
    by (simp add: computeExposureForScroll_def Let_def)
qed

text \<open>The scroll coefficient of the saturation is \<open>0.0\<close>: the value written is the base.\<close>

lemma saturation_written_is_base:
  "updateSaturationForScroll bs (Some x) p = Some bs"
  by (simp add: updateSaturationForScroll_def)

lemma clamp_jsnum:
  "js_max (Fin 0) (js_min (Fin 1) (Fin r)) = Fin (max 0 (min 1 r))"
  by simp

text \<open>
  \<open>setReededSplitScreenMode\<close> on an effect: each of the three uniforms that the map has
  gets its new value, and the call returns.
\<close>

lemma guarded_write:
  "(if has U k then setUniform U k v else Inr U) = Inr (putIfPresent k v U)"
  by (simp add: has_def setUniform_def putIfPresent_def split: option.splits)

lemma putIfPresent_same:
  "putIfPresent k v U k = (if U k = None then None else Some v)"
  by (simp add: putIfPresent_def)

lemma putIfPresent_other: "k' \<noteq> k \<Longrightarrow> putIfPresent k v U k' = U k'"
  by (simp add: putIfPresent_def)

lemma splitScreen_result:
  "setReededSplitScreenMode (Some U) en bd x
     = Inr (Some
         (putIfPresent ''rightSideProgress''
            (js_max (Fin 0) (js_min (Fin 1) (toNumber (withDefault 0 x))))
            (putIfPresent ''splitScreenBoundary''
               (js_max (Fin 0) (js_min (Fin 1) (toNumber (withDefault (1 / 2) bd))))
               (putIfPresent ''splitScreenMode'' (if truthy en then Fin 1 else Fin 0) U))))"
  unfolding setReededSplitScreenMode_def Let_def guarded_write by simp

lemma splitScreen_right:
  "uniformAfter (setReededSplitScreenMode (Some U) en bd x) ''rightSideProgress''
     = (if U ''rightSideProgress'' = None then None
        else Some (js_max (Fin 0) (js_min (Fin 1) (toNumber (withDefault 0 x)))))"
proof -
  have a: "''rightSideProgress'' \<noteq> ''splitScreenBoundary''"
    and b: "''rightSideProgress'' \<noteq> ''splitScreenMode''"
    by simp_all
  show ?thesis
    unfolding splitScreen_result uniformAfter_def
    by (simp add: putIfPresent_same putIfPresent_other [OF a] putIfPresent_other [OF b])
qed

section \<open>The claims\<close>

text \<open>
  Claim C1, as stated, fails: a degrade step that advances the bucket ends with the
  pixel-ratio push, whose pixel-budget enforcement advances the bucket further while the
  framebuffer is over the budget. On the laptop, zoomed out and back in with the resize
  of the zoom-in still pending, the tier is at its worst value, the bucket index is 0,
  and one degrade step takes the bucket index to 2: at the canvas size of the zoomed-out
  page and the pixel ratio of the zoomed-in one, bucket 1 is over the budget as well.
\<close>

theorem degrade_step_zoom_counterexample:
  "degradeAllowed 5000 (run zoomEvents (startSession laptopProbe 1440 900 0))
   \<and> effectQualityLevel (run zoomEvents (startSession laptopProbe 1440 900 0)) = 3
   \<and> dprBucketIndex (run zoomEvents (startSession laptopProbe 1440 900 0)) = 0
   \<and> dprBucketIndex
        (attemptDegrade 5000 (run zoomEvents (startSession laptopProbe 1440 900 0))) = 2"
  by (simp add: zoom_allowed zoom_fields zoom_bucket zoom_degrade_bucket)

text \<open>
  Claim C1, amended. When the controller performs a degrade step (the call gets past the
  resume guard and the debounce interval), in any state: a tier index below its worst
  value goes up by one and the bucket index stays; otherwise a bucket index below its
  worst value goes up by one and is then advanced further by the pixel-budget
  enforcement while the framebuffer is over the budget and the bucket is not the last,
  the tier staying: the step ends at the first bucket from the next one on at which the
  framebuffer is within the budget, or at the last bucket, so it is a step of exactly
  one whenever the framebuffer at the next bucket is within the budget, and in
  particular whenever the budget was enforced before the step; with neither index below
  its worst value the call changes nothing. A frame of the degrading band whose
  low-performance time reaches the degrade duration performs exactly that step. In every
  session both indices are inside their tables, so that below the worst value and not
  at the worst value are the same; and in a session without a change of
  \<open>window.devicePixelRatio\<close> the budget is enforced in every state.
\<close>

theorem degrade_step_tier_before_bucket:
  assumes "degradeAllowed now s"
  shows "(effectQualityLevel s < length EFFECT_QUALITY_LEVELS - 1 \<longrightarrow>
            effectQualityLevel (attemptDegrade now s) = effectQualityLevel s + 1
            \<and> dprBucketIndex (attemptDegrade now s) = dprBucketIndex s)
       \<and> (\<not> effectQualityLevel s < length EFFECT_QUALITY_LEVELS - 1
            \<and> dprBucketIndex s < length DPR_BUCKETS - 1 \<longrightarrow>
            effectQualityLevel (attemptDegrade now s) = effectQualityLevel s
            \<and> dprBucketIndex s + 1 \<le> dprBucketIndex (attemptDegrade now s)
            \<and> dprBucketIndex (attemptDegrade now s) \<le> length DPR_BUCKETS - 1
            \<and> (internalPixels (s\<lparr>dprBucketIndex := dprBucketIndex s + 1\<rparr>) \<le> PIXEL_BUDGET \<longrightarrow>
                 dprBucketIndex (attemptDegrade now s) = dprBucketIndex s + 1)
            \<and> (budgetOk s \<longrightarrow> dprBucketIndex (attemptDegrade now s) = dprBucketIndex s + 1)
            \<and> (\<forall>i. dprBucketIndex s + 1 \<le> i \<and> i < dprBucketIndex (attemptDegrade now s) \<longrightarrow>
                 internalPixels (s\<lparr>dprBucketIndex := i\<rparr>) > PIXEL_BUDGET)
            \<and> (internalPixels (attemptDegrade now s) \<le> PIXEL_BUDGET
                 \<or> dprBucketIndex (attemptDegrade now s) = length DPR_BUCKETS - 1))
       \<and> (\<not> effectQualityLevel s < length EFFECT_QUALITY_LEVELS - 1
            \<and> \<not> dprBucketIndex s < length DPR_BUCKETS - 1 \<longrightarrow>
            attemptDegrade now s = s)
       \<and> (resumeIgnoreFrames s = 0 \<and> fpsBand (nextEma delta s) = Degrading
            \<and> PERF_DEGRADE_MIN_DURATION \<le> lowPerfAccum s + delta * 1000 \<longrightarrow>
            effectQualityLevel (perfAdaptiveUpdate delta now s)
              = effectQualityLevel (attemptDegrade now s)
            \<and> dprBucketIndex (perfAdaptiveUpdate delta now s)
              = dprBucketIndex (attemptDegrade now s))
       \<and> tablesInv (run evs (startSession d w h tz))
       \<and> ((\<forall>e \<in> set evs. \<not> isRatioChange e) \<longrightarrow> budgetOk (run evs (startSession d w h tz)))"
proof -
  have tier: "effectQualityLevel (attemptDegrade now s) = effectQualityLevel s + 1
      \<and> dprBucketIndex (attemptDegrade now s) = dprBucketIndex s"
    if "effectQualityLevel s < length EFFECT_QUALITY_LEVELS - 1"
    using attemptDegrade_tier [OF assms that] by simp
  have bucket: "effectQualityLevel (attemptDegrade now s) = effectQualityLevel s
            \<and> dprBucketIndex s + 1 \<le> dprBucketIndex (attemptDegrade now s)
            \<and> dprBucketIndex (attemptDegrade now s) \<le> length DPR_BUCKETS - 1
            \<and> (internalPixels (s\<lparr>dprBucketIndex := dprBucketIndex s + 1\<rparr>) \<le> PIXEL_BUDGET \<longrightarrow>
                 dprBucketIndex (attemptDegrade now s) = dprBucketIndex s + 1)
            \<and> (budgetOk s \<longrightarrow> dprBucketIndex (attemptDegrade now s) = dprBucketIndex s + 1)
            \<and> (\<forall>i. dprBucketIndex s + 1 \<le> i \<and> i < dprBucketIndex (attemptDegrade now s) \<longrightarrow>
                 internalPixels (s\<lparr>dprBucketIndex := i\<rparr>) > PIXEL_BUDGET)
            \<and> (internalPixels (attemptDegrade now s) \<le> PIXEL_BUDGET
                 \<or> dprBucketIndex (attemptDegrade now s) = length DPR_BUCKETS - 1)"
    if t: "\<not> effectQualityLevel s < length EFFECT_QUALITY_LEVELS - 1"
      and b: "dprBucketIndex s < length DPR_BUCKETS - 1"
    using attemptDegrade_bucket_facts [OF assms t b] by blast
  have floor: "attemptDegrade now s = s"
    if "\<not> effectQualityLevel s < length EFFECT_QUALITY_LEVELS - 1"
      "\<not> dprBucketIndex s < length DPR_BUCKETS - 1"
    using that by (rule attemptDegrade_floor)
  have frame: "effectQualityLevel (perfAdaptiveUpdate delta now s)
              = effectQualityLevel (attemptDegrade now s)
            \<and> dprBucketIndex (perfAdaptiveUpdate delta now s)
              = dprBucketIndex (attemptDegrade now s)"
    if "resumeIgnoreFrames s = 0" "fpsBand (nextEma delta s) = Degrading"
      "PERF_DEGRADE_MIN_DURATION \<le> lowPerfAccum s + delta * 1000"
    using that by (rule perfAdaptiveUpdate_degrade_step)
  have tables: "tablesInv (run evs (startSession d w h tz))"
    by (rule tablesInv_run) (rule tablesInv_startSession)
  have budget: "budgetOk (run evs (startSession d w h tz))"
    if "\<forall>e \<in> set evs. \<not> isRatioChange e"
    using that by (rule budgetOk_session)
  from tier bucket floor frame tables budget show ?thesis by blast
qed

theorem degrade_step_witness:
  "effectQualityLevel (attemptDegrade 5000 (startSession laptopProbe 1440 900 0)) = 1
   \<and> dprBucketIndex (attemptDegrade 5000 (startSession laptopProbe 1440 900 0)) = 0
   \<and> dprBucketIndex (attemptDegrade 5000 (run [ForceTier 3] (startSession laptopProbe 1440 900 0))) = 1
   \<and> effectQualityLevel (attemptDegrade 5000 (run [ForceTier 3] (startSession laptopProbe 1440 900 0))) = 3
   \<and> attemptDegrade 5000 (run [ForceTier 3, ForceBucket 2] (startSession laptopProbe 1440 900 0))
       = run [ForceTier 3, ForceBucket 2] (startSession laptopProbe 1440 900 0)
   \<and> effectQualityLevel (run [Frame 4 5000] (startSession laptopProbe 1440 900 0)) = 1
   \<and> dprBucketIndex (run [Frame 4 5000] (startSession laptopProbe 1440 900 0)) = 0
   \<and> effectQualityLevel
        (attemptDegrade 5000 (run zoomEvents (startSession laptopProbe 1440 900 0))) = 3
   \<and> 1 \<le> dprBucketIndex
        (attemptDegrade 5000 (run zoomEvents (startSession laptopProbe 1440 900 0)))"
proof -
  let ?fresh = "startSession laptopProbe 1440 900 0"
  let ?tiered = "run [ForceTier 3] ?fresh"
  let ?floor = "run [ForceTier 3, ForceBucket 2] ?fresh"
  let ?zoomed = "run zoomEvents ?fresh"
  have a0: "degradeAllowed 5000 ?fresh"
    by (simp add: degradeAllowed_def effectiveDebounceMs_def PERF_CHANGE_DEBOUNCE_def)
  have a1: "degradeAllowed 5000 ?tiered"
    by (simp add: degradeAllowed_def effectiveDebounceMs_def PERF_CHANGE_DEBOUNCE_def
        forceTier_def)
  have a2: "degradeAllowed 5000 ?floor"
    by (simp add: degradeAllowed_def effectiveDebounceMs_def PERF_CHANGE_DEBOUNCE_def
        forceTier_def forceBucket_def)
  have t0: "effectQualityLevel ?fresh < length EFFECT_QUALITY_LEVELS - 1"
    by (simp add: EFFECT_QUALITY_LEVELS_def)
  have t1: "effectQualityLevel ?tiered = 3"
    by (simp add: forceTier_def EFFECT_QUALITY_LEVELS_def)
  have b1: "dprBucketIndex ?tiered = 0"
    by (simp add: forceTier_def laptop_bucket)
  have t2: "effectQualityLevel ?floor = 3"
    by (simp add: forceTier_def forceBucket_def EFFECT_QUALITY_LEVELS_def)
  have "budgetLoop ((forceTier 3 ?fresh)\<lparr>dprBucketIndex := 2\<rparr>) False
      = ((forceTier 3 ?fresh)\<lparr>dprBucketIndex := 2\<rparr>, False)"
    by (rule budgetLoop_stop) (simp add: DPR_BUCKETS_def)
  then have b2: "dprBucketIndex ?floor = 2"
    by (simp add: forceBucket_def applyRendererPixelRatio_bucket DPR_BUCKETS_def)
  have thr: "PERF_DEGRADE_MIN_DURATION \<le> lowPerfAccum ?fresh + 4 * 1000"
    by (simp add: PERF_DEGRADE_MIN_DURATION_def)
  have quiet: "\<forall>e \<in> set [ForceTier 3]. \<not> isRatioChange e" by simp
  from degrade_step_tier_before_bucket [OF a0, of 4] t0 stall_frame_ignore stall_frame_band thr
  have fresh: "effectQualityLevel (attemptDegrade 5000 ?fresh) = effectQualityLevel ?fresh + 1"
    "dprBucketIndex (attemptDegrade 5000 ?fresh) = dprBucketIndex ?fresh"
    "effectQualityLevel (perfAdaptiveUpdate 4 5000 ?fresh)
       = effectQualityLevel (attemptDegrade 5000 ?fresh)"
    "dprBucketIndex (perfAdaptiveUpdate 4 5000 ?fresh)
       = dprBucketIndex (attemptDegrade 5000 ?fresh)"
    by blast+
  from degrade_step_tier_before_bucket
      [OF a1, where evs = "[ForceTier 3]" and d = laptopProbe and w = 1440 and h = 900 and tz = 0]
    quiet
  have ok1: "budgetOk ?tiered" by blast
  from degrade_step_tier_before_bucket [OF a1] ok1 t1 b1
  have tiered: "dprBucketIndex (attemptDegrade 5000 ?tiered) = dprBucketIndex ?tiered + 1"
    "effectQualityLevel (attemptDegrade 5000 ?tiered) = effectQualityLevel ?tiered"
    by (simp_all add: EFFECT_QUALITY_LEVELS_def DPR_BUCKETS_def)
  from degrade_step_tier_before_bucket [OF a2] t2 b2
  have floor: "attemptDegrade 5000 ?floor = ?floor"
    by (simp add: EFFECT_QUALITY_LEVELS_def DPR_BUCKETS_def)
  from degrade_step_tier_before_bucket [OF zoom_allowed] zoom_fields(5) zoom_bucket
  have zoomed: "effectQualityLevel (attemptDegrade 5000 ?zoomed) = effectQualityLevel ?zoomed"
    "dprBucketIndex ?zoomed + 1 \<le> dprBucketIndex (attemptDegrade 5000 ?zoomed)"
    by (simp_all add: EFFECT_QUALITY_LEVELS_def DPR_BUCKETS_def)
  from fresh tiered floor zoomed t1 b1 laptop_bucket zoom_fields(5) zoom_bucket
  show ?thesis by simp
qed

text \<open>
  Claim C2, as stated, fails: the upgrade step decrements a bucket index above 0, but
  the pixel-ratio push that follows re-enforces the pixel budget, which can advance the
  bucket again. On a 5120 by 2160 window at scale factor 1 the session starts at bucket
  1 (1.0 is over budget, 0.9 is not), and an upgrade step leaves it at 1.
\<close>

theorem upgrade_step_counterexample:
  "upgradeAllowed 10000 (startSession ultrawideProbe 5120 2160 0)
   \<and> dprBucketIndex (startSession ultrawideProbe 5120 2160 0) = 1
   \<and> dprBucketIndex (attemptUpgrade 10000 (startSession ultrawideProbe 5120 2160 0)) = 1"
proof -
  let ?s = "startSession ultrawideProbe 5120 2160 0"
  have a: "upgradeAllowed 10000 ?s"
    by (simp add: upgradeAllowed_def effectiveDebounceMs_def PERF_CHANGE_DEBOUNCE_def)
  have "internalPixels (?s\<lparr>dprBucketIndex := dprBucketIndex ?s - 1\<rparr>) > PIXEL_BUDGET"
    by (simp add: internalPixels_eval ultrawide_profile ultrawide_bucket bucketMul_def
        DPR_BUCKETS_def MAX_EFFECTIVE_DPR_def PIXEL_BUDGET_def ultrawide_dpr power2_eq_square)
  with attemptUpgrade_bucket_result [OF ladderInv_startSession a] ultrawide_bucket a
  show ?thesis by simp
qed

text \<open>
  Claim C2, amended. When the controller performs an upgrade step (the call gets past
  the debounce interval), in any state: a bucket index above 0 is retracted by one and
  is then advanced again by the pixel-budget enforcement of the pixel-ratio push while
  the framebuffer is over the budget and the bucket is not the last, the tier and
  \<open>baseCapCurrent\<close> unchanged: the step ends at the retracted bucket when the
  framebuffer there is within the budget, and otherwise at the first bucket from the old
  one on at which it is, or at the last bucket; that is the old bucket whenever the
  budget was enforced before the step, and it can be a later bucket after a change of
  \<open>window.devicePixelRatio\<close>. Else a tier index above 0 is decremented, the bucket
  staying at 0. Else, only for category desktop with \<open>baseCapCurrent\<close> below
  \<open>baseCapMax\<close>, \<open>baseCapCurrent\<close> becomes the smaller of \<open>baseCapMax\<close> and
  \<open>baseCapCurrent + 0.1\<close>, which is above the old value and never above
  \<open>baseCapMax\<close>; the tier stays at 0, and the bucket stays at 0 when the framebuffer at
  the raised cap is within the budget and is advanced by the pixel-budget enforcement
  otherwise. Else nothing changes. A frame of the upgrading band whose high-performance
  time reaches the upgrade duration performs exactly that step. In every session both
  indices are inside their tables, and in a session without a change of
  \<open>window.devicePixelRatio\<close> the budget is enforced in every state.
\<close>

theorem upgrade_step_bucket_before_tier:
  assumes "upgradeAllowed now s"
  shows "(dprBucketIndex s > 0 \<longrightarrow>
            effectQualityLevel (attemptUpgrade now s) = effectQualityLevel s
            \<and> baseCapCurrent (attemptUpgrade now s) = baseCapCurrent s
            \<and> dprBucketIndex s - 1 \<le> dprBucketIndex (attemptUpgrade now s)
            \<and> (internalPixels (s\<lparr>dprBucketIndex := dprBucketIndex s - 1\<rparr>) \<le> PIXEL_BUDGET \<longrightarrow>
                 dprBucketIndex (attemptUpgrade now s) = dprBucketIndex s - 1)
            \<and> (internalPixels (s\<lparr>dprBucketIndex := dprBucketIndex s - 1\<rparr>) > PIXEL_BUDGET
                 \<and> dprBucketIndex s < length DPR_BUCKETS \<longrightarrow>
                 dprBucketIndex s \<le> dprBucketIndex (attemptUpgrade now s)
                 \<and> dprBucketIndex (attemptUpgrade now s) \<le> length DPR_BUCKETS - 1
                 \<and> (budgetOk s \<longrightarrow> dprBucketIndex (attemptUpgrade now s) = dprBucketIndex s))
            \<and> (\<forall>i. dprBucketIndex s - 1 \<le> i \<and> i < dprBucketIndex (attemptUpgrade now s) \<longrightarrow>
                 internalPixels (s\<lparr>dprBucketIndex := i\<rparr>) > PIXEL_BUDGET)
            \<and> (internalPixels (attemptUpgrade now s) \<le> PIXEL_BUDGET
                 \<or> length DPR_BUCKETS - 1 \<le> dprBucketIndex (attemptUpgrade now s)))
       \<and> (dprBucketIndex s = 0 \<and> effectQualityLevel s > 0 \<longrightarrow>
            effectQualityLevel (attemptUpgrade now s) = effectQualityLevel s - 1
            \<and> dprBucketIndex (attemptUpgrade now s) = 0
            \<and> baseCapCurrent (attemptUpgrade now s) = baseCapCurrent s)
       \<and> (dprBucketIndex s = 0 \<and> effectQualityLevel s = 0
            \<and> category s = Desktop \<and> baseCapCurrent s < baseCapMax s \<longrightarrow>
            baseCapCurrent (attemptUpgrade now s) = min (baseCapMax s) (baseCapCurrent s + 1 / 10)
            \<and> baseCapCurrent s < baseCapCurrent (attemptUpgrade now s)
            \<and> baseCapCurrent (attemptUpgrade now s) \<le> baseCapMax s
            \<and> effectQualityLevel (attemptUpgrade now s) = 0
            \<and> (internalPixels
                  (s\<lparr>baseCapCurrent := min (baseCapMax s) (baseCapCurrent s + 1 / 10)\<rparr>)
                  \<le> PIXEL_BUDGET \<longrightarrow> dprBucketIndex (attemptUpgrade now s) = 0)
            \<and> (internalPixels
                  (s\<lparr>baseCapCurrent := min (baseCapMax s) (baseCapCurrent s + 1 / 10)\<rparr>)
                  > PIXEL_BUDGET \<longrightarrow> 0 < dprBucketIndex (attemptUpgrade now s))
            \<and> dprBucketIndex (attemptUpgrade now s) \<le> length DPR_BUCKETS - 1
            \<and> (\<forall>i. i < dprBucketIndex (attemptUpgrade now s) \<longrightarrow>
                 internalPixels
                   (s\<lparr>baseCapCurrent := min (baseCapMax s) (baseCapCurrent s + 1 / 10),
                      dprBucketIndex := i\<rparr>) > PIXEL_BUDGET)
            \<and> (internalPixels (attemptUpgrade now s) \<le> PIXEL_BUDGET
                 \<or> dprBucketIndex (attemptUpgrade now s) = length DPR_BUCKETS - 1))
       \<and> (dprBucketIndex s = 0 \<and> effectQualityLevel s = 0
            \<and> \<not> (category s = Desktop \<and> baseCapCurrent s < baseCapMax s) \<longrightarrow>
            attemptUpgrade now s = s)
       \<and> (resumeIgnoreFrames s = 0 \<and> fpsBand (nextEma delta s) = Upgrading
            \<and> PERF_UPGRADE_MIN_DURATION \<le> highPerfAccum s + delta * 1000 \<longrightarrow>
            effectQualityLevel (perfAdaptiveUpdate delta now s)
              = effectQualityLevel (attemptUpgrade now s)
            \<and> dprBucketIndex (perfAdaptiveUpdate delta now s)
              = dprBucketIndex (attemptUpgrade now s)
            \<and> baseCapCurrent (perfAdaptiveUpdate delta now s)
              = baseCapCurrent (attemptUpgrade now s))
       \<and> tablesInv (run evs (startSession d w h tz))
       \<and> ((\<forall>e \<in> set evs. \<not> isRatioChange e) \<longrightarrow> budgetOk (run evs (startSession d w h tz)))"
proof -
  have bucket: "effectQualityLevel (attemptUpgrade now s) = effectQualityLevel s
            \<and> baseCapCurrent (attemptUpgrade now s) = baseCapCurrent s
            \<and> dprBucketIndex s - 1 \<le> dprBucketIndex (attemptUpgrade now s)
            \<and> (internalPixels (s\<lparr>dprBucketIndex := dprBucketIndex s - 1\<rparr>) \<le> PIXEL_BUDGET \<longrightarrow>
                 dprBucketIndex (attemptUpgrade now s) = dprBucketIndex s - 1)
            \<and> (internalPixels (s\<lparr>dprBucketIndex := dprBucketIndex s - 1\<rparr>) > PIXEL_BUDGET
                 \<and> dprBucketIndex s < length DPR_BUCKETS \<longrightarrow>
                 dprBucketIndex s \<le> dprBucketIndex (attemptUpgrade now s)
                 \<and> dprBucketIndex (attemptUpgrade now s) \<le> length DPR_BUCKETS - 1
                 \<and> (budgetOk s \<longrightarrow> dprBucketIndex (attemptUpgrade now s) = dprBucketIndex s))
            \<and> (\<forall>i. dprBucketIndex s - 1 \<le> i \<and> i < dprBucketIndex (attemptUpgrade now s) \<longrightarrow>
                 internalPixels (s\<lparr>dprBucketIndex := i\<rparr>) > PIXEL_BUDGET)
            \<and> (internalPixels (attemptUpgrade now s) \<le> PIXEL_BUDGET
                 \<or> length DPR_BUCKETS - 1 \<le> dprBucketIndex (attemptUpgrade now s))"
    if pos: "dprBucketIndex s > 0"
    using attemptUpgrade_bucket_facts [OF assms pos] by blast
  have tier: "effectQualityLevel (attemptUpgrade now s) = effectQualityLevel s - 1
            \<and> dprBucketIndex (attemptUpgrade now s) = 0
            \<and> baseCapCurrent (attemptUpgrade now s) = baseCapCurrent s"
    if "dprBucketIndex s = 0" "effectQualityLevel s > 0"
    using attemptUpgrade_tier [OF assms that] that(1) by simp
  have cap: "baseCapCurrent (attemptUpgrade now s) = min (baseCapMax s) (baseCapCurrent s + 1 / 10)
            \<and> baseCapCurrent s < baseCapCurrent (attemptUpgrade now s)
            \<and> baseCapCurrent (attemptUpgrade now s) \<le> baseCapMax s
            \<and> effectQualityLevel (attemptUpgrade now s) = 0
            \<and> (internalPixels
                  (s\<lparr>baseCapCurrent := min (baseCapMax s) (baseCapCurrent s + 1 / 10)\<rparr>)
                  \<le> PIXEL_BUDGET \<longrightarrow> dprBucketIndex (attemptUpgrade now s) = 0)
            \<and> (internalPixels
                  (s\<lparr>baseCapCurrent := min (baseCapMax s) (baseCapCurrent s + 1 / 10)\<rparr>)
                  > PIXEL_BUDGET \<longrightarrow> 0 < dprBucketIndex (attemptUpgrade now s))
            \<and> dprBucketIndex (attemptUpgrade now s) \<le> length DPR_BUCKETS - 1
            \<and> (\<forall>i. i < dprBucketIndex (attemptUpgrade now s) \<longrightarrow>
                 internalPixels
                   (s\<lparr>baseCapCurrent := min (baseCapMax s) (baseCapCurrent s + 1 / 10),
                      dprBucketIndex := i\<rparr>) > PIXEL_BUDGET)
            \<and> (internalPixels (attemptUpgrade now s) \<le> PIXEL_BUDGET
                 \<or> dprBucketIndex (attemptUpgrade now s) = length DPR_BUCKETS - 1)"
    if b: "dprBucketIndex s = 0" and t: "effectQualityLevel s = 0"
      and c: "category s = Desktop \<and> baseCapCurrent s < baseCapMax s"
    using attemptUpgrade_cap_facts [OF assms b t c] by blast
  have top: "attemptUpgrade now s = s"
    if "dprBucketIndex s = 0" "effectQualityLevel s = 0"
      "\<not> (category s = Desktop \<and> baseCapCurrent s < baseCapMax s)"
    using that by (rule attemptUpgrade_top)
  have frame: "effectQualityLevel (perfAdaptiveUpdate delta now s)
              = effectQualityLevel (attemptUpgrade now s)
            \<and> dprBucketIndex (perfAdaptiveUpdate delta now s)
              = dprBucketIndex (attemptUpgrade now s)
            \<and> baseCapCurrent (perfAdaptiveUpdate delta now s)
              = baseCapCurrent (attemptUpgrade now s)"
    if "resumeIgnoreFrames s = 0" "fpsBand (nextEma delta s) = Upgrading"
      "PERF_UPGRADE_MIN_DURATION \<le> highPerfAccum s + delta * 1000"
    using that by (rule perfAdaptiveUpdate_upgrade_step)
  have tables: "tablesInv (run evs (startSession d w h tz))"
    by (rule tablesInv_run) (rule tablesInv_startSession)
  have budget: "budgetOk (run evs (startSession d w h tz))"
    if "\<forall>e \<in> set evs. \<not> isRatioChange e"
    using that by (rule budgetOk_session)
  from bucket tier cap top frame tables budget show ?thesis by blast
qed

theorem upgrade_step_witness:
  "dprBucketIndex (attemptUpgrade 5000 (run [ForceBucket 2] (startSession laptopProbe 1440 900 0))) = 1
   \<and> effectQualityLevel (attemptUpgrade 5000 (run [ForceBucket 2] (startSession laptopProbe 1440 900 0))) = 0
   \<and> effectQualityLevel (attemptUpgrade 5000 (run [ForceTier 2] (startSession laptopProbe 1440 900 0))) = 1
   \<and> dprBucketIndex (attemptUpgrade 5000 (run [ForceTier 2] (startSession laptopProbe 1440 900 0))) = 0
   \<and> baseCapCurrent (attemptUpgrade 5000 (startSession laptopProbe 1440 900 0)) = 165 / 100
   \<and> dprBucketIndex (attemptUpgrade 5000 (startSession laptopProbe 1440 900 0)) = 0
   \<and> attemptUpgrade 5000 (startSession ultrawideProbe 1440 900 0)
       = startSession ultrawideProbe 1440 900 0
   \<and> baseCapCurrent (attemptUpgrade 5000 (startSession laptopProbe 2400 1500 0)) = 165 / 100
   \<and> dprBucketIndex (attemptUpgrade 5000 (startSession laptopProbe 2400 1500 0)) = 1
   \<and> dprBucketIndex (attemptUpgrade 10000 (startSession ultrawideProbe 5120 2160 0)) = 1
   \<and> dprBucketIndex (run zoomUpgradeEvents (startSession laptopProbe 1440 900 0)) = 1
   \<and> 1 \<le> dprBucketIndex
        (attemptUpgrade 5000 (run zoomUpgradeEvents (startSession laptopProbe 1440 900 0)))
   \<and> dprBucketIndex
        (attemptUpgrade 5000 (run zoomUpgradeEvents (startSession laptopProbe 1440 900 0))) = 2"
proof -
  let ?base = "startSession laptopProbe 1440 900 0"
  let ?bucketed = "run [ForceBucket 2] ?base"
  let ?tiered = "run [ForceTier 2] ?base"
  let ?wide = "startSession ultrawideProbe 1440 900 0"
  let ?large = "startSession laptopProbe 2400 1500 0"
  let ?ultra = "startSession ultrawideProbe 5120 2160 0"
  let ?zoomed = "run zoomUpgradeEvents ?base"
  have a: "upgradeAllowed 5000 ?bucketed"
    by (simp add: upgradeAllowed_def effectiveDebounceMs_def PERF_CHANGE_DEBOUNCE_def
        forceBucket_def)
  have t: "effectQualityLevel ?bucketed = 0"
    by (simp add: forceBucket_def)
  have p: "internalPixels (?bucketed\<lparr>dprBucketIndex := 1\<rparr>) \<le> PIXEL_BUDGET"
    by (simp add: internalPixels_eval forceBucket_def laptop_profile bucketMul_def
        DPR_BUCKETS_def MAX_EFFECTIVE_DPR_def PIXEL_BUDGET_def laptop_dpr power2_eq_square)
  from upgrade_step_bucket_before_tier [OF a] laptop_forced_bucket p
  have bucketed: "dprBucketIndex (attemptUpgrade 5000 ?bucketed) = dprBucketIndex ?bucketed - 1"
    "effectQualityLevel (attemptUpgrade 5000 ?bucketed) = effectQualityLevel ?bucketed"
    by simp_all
  have a1: "upgradeAllowed 5000 ?tiered"
    by (simp add: upgradeAllowed_def effectiveDebounceMs_def PERF_CHANGE_DEBOUNCE_def
        forceTier_def)
  have t1: "effectQualityLevel ?tiered = 2"
    by (simp add: forceTier_def EFFECT_QUALITY_LEVELS_def)
  have b1: "dprBucketIndex ?tiered = 0"
    by (simp add: forceTier_def laptop_bucket)
  from upgrade_step_bucket_before_tier [OF a1] t1 b1
  have tiered: "effectQualityLevel (attemptUpgrade 5000 ?tiered) = effectQualityLevel ?tiered - 1"
    "dprBucketIndex (attemptUpgrade 5000 ?tiered) = 0"
    by simp_all
  have a0: "upgradeAllowed 5000 ?base"
    by (simp add: upgradeAllowed_def effectiveDebounceMs_def PERF_CHANGE_DEBOUNCE_def)
  have c0: "category ?base = Desktop" "baseCapCurrent ?base = 155 / 100" "baseCapMax ?base = 175 / 100"
    by (simp_all add: laptop_profile)
  have p0: "internalPixels
      (?base\<lparr>baseCapCurrent := min (baseCapMax ?base) (baseCapCurrent ?base + 1 / 10)\<rparr>)
      \<le> PIXEL_BUDGET"
    by (simp add: internalPixels_eval laptop_profile laptop_bucket bucketMul_def
        DPR_BUCKETS_def MAX_EFFECTIVE_DPR_def PIXEL_BUDGET_def laptop_dpr power2_eq_square)
  from upgrade_step_bucket_before_tier [OF a0] c0 laptop_bucket p0
  have base: "baseCapCurrent (attemptUpgrade 5000 ?base)
      = min (baseCapMax ?base) (baseCapCurrent ?base + 1 / 10)"
    "dprBucketIndex (attemptUpgrade 5000 ?base) = 0"
    by simp_all
  have au: "upgradeAllowed 5000 ?wide"
    by (simp add: upgradeAllowed_def effectiveDebounceMs_def PERF_CHANGE_DEBOUNCE_def)
  have "internalPixels ((moduleState ultrawideProbe 1440 900 0)
      \<lparr>reedEffect := True, vignetteEffect := True\<rparr>) \<le> PIXEL_BUDGET"
    by (simp add: internalPixels_eval ultrawide_profile bucketMul_def
        DPR_BUCKETS_def MAX_EFFECTIVE_DPR_def PIXEL_BUDGET_def ultrawide_dpr power2_eq_square)
  then have bu: "dprBucketIndex ?wide = 0"
    by (simp add: startSession_def applyRendererPixelRatio_bucket budgetLoop_stop)
  have cu: "baseCapCurrent ?wide = 1" "baseCapMax ?wide = 1"
    by (simp_all add: ultrawide_profile)
  from upgrade_step_bucket_before_tier [OF au] bu cu
  have wide: "attemptUpgrade 5000 ?wide = ?wide" by simp
  have al: "upgradeAllowed 5000 ?large"
    by (simp add: upgradeAllowed_def effectiveDebounceMs_def PERF_CHANGE_DEBOUNCE_def)
  have cl: "category ?large = Desktop" "baseCapCurrent ?large = 155 / 100"
    "baseCapMax ?large = 175 / 100"
    by (simp_all add: laptop_profile)
  let ?raised = "?large\<lparr>baseCapCurrent := min (baseCapMax ?large) (baseCapCurrent ?large + 1 / 10)\<rparr>"
  have pl: "internalPixels ?raised > PIXEL_BUDGET"
    by (simp add: internalPixels_eval laptop_profile wide_laptop_bucket bucketMul_def
        DPR_BUCKETS_def MAX_EFFECTIVE_DPR_def PIXEL_BUDGET_def laptop_dpr power2_eq_square)
  have pl1: "\<not> internalPixels (?raised\<lparr>dprBucketIndex := 1\<rparr>) > PIXEL_BUDGET"
    by (simp add: internalPixels_eval laptop_profile bucketMul_def
        DPR_BUCKETS_def MAX_EFFECTIVE_DPR_def PIXEL_BUDGET_def laptop_dpr power2_eq_square)
  from upgrade_step_bucket_before_tier [OF al] cl wide_laptop_bucket pl
  have large: "baseCapCurrent (attemptUpgrade 5000 ?large)
      = min (baseCapMax ?large) (baseCapCurrent ?large + 1 / 10)"
    "0 < dprBucketIndex (attemptUpgrade 5000 ?large)"
    "\<forall>i. i < dprBucketIndex (attemptUpgrade 5000 ?large) \<longrightarrow>
       internalPixels (?raised\<lparr>dprBucketIndex := i\<rparr>) > PIXEL_BUDGET"
    by simp_all
  from large(3) pl1 have "\<not> 1 < dprBucketIndex (attemptUpgrade 5000 ?large)" by blast
  with large(2) have large_bucket: "dprBucketIndex (attemptUpgrade 5000 ?large) = 1" by simp
  have aw: "upgradeAllowed 10000 ?ultra"
    by (simp add: upgradeAllowed_def effectiveDebounceMs_def PERF_CHANGE_DEBOUNCE_def)
  have pu: "internalPixels (?ultra\<lparr>dprBucketIndex := dprBucketIndex ?ultra - 1\<rparr>) > PIXEL_BUDGET"
    by (simp add: internalPixels_eval ultrawide_profile ultrawide_bucket bucketMul_def
        DPR_BUCKETS_def MAX_EFFECTIVE_DPR_def PIXEL_BUDGET_def ultrawide_dpr power2_eq_square)
  from upgrade_step_bucket_before_tier
      [OF aw, where evs = "[]" and d = ultrawideProbe and w = 5120 and h = 2160 and tz = 0]
  have oku: "budgetOk ?ultra" by simp
  from upgrade_step_bucket_before_tier [OF aw] ultrawide_bucket pu oku
  have ultra: "dprBucketIndex (attemptUpgrade 10000 ?ultra) = dprBucketIndex ?ultra"
    by (simp add: DPR_BUCKETS_def)
  have pz: "internalPixels (?zoomed\<lparr>dprBucketIndex := dprBucketIndex ?zoomed - 1\<rparr>) > PIXEL_BUDGET"
    by (simp add: internalPixels_eval zoomUpgrade_fields zoomUpgrade_bucket bucketMul_def
        DPR_BUCKETS_def MAX_EFFECTIVE_DPR_def PIXEL_BUDGET_def power2_eq_square)
  from upgrade_step_bucket_before_tier [OF zoomUpgrade_allowed] zoomUpgrade_bucket pz
  have zoomed: "dprBucketIndex ?zoomed \<le> dprBucketIndex (attemptUpgrade 5000 ?zoomed)"
    by (simp add: DPR_BUCKETS_def)
  from bucketed tiered base wide large(1) large_bucket ultra zoomed
    laptop_forced_bucket t t1 c0 cl ultrawide_bucket zoomUpgrade_bucket zoomUpgrade_result
  show ?thesis by simp
qed

text \<open>
  Claim C3. For every progress \<open>p\<close> in \<open>[0, 0.5]\<close> the glass configuration has
  right-side coverage 0 and left-side coverage \<open>2p\<close>; for every \<open>p\<close> in \<open>(0.5, 1]\<close>
  it has left-side coverage 1 and right-side coverage \<open>2 (p - 0.5)\<close>.
\<close>

theorem glass_coverage_two_phases:
  "(0 \<le> p \<and> p \<le> 1 / 2 \<longrightarrow>
      rightSideProgress (getGlassModeForProgress p) = 0
      \<and> effectProgress (getGlassModeForProgress p) = 2 * p)
   \<and> (1 / 2 < p \<and> p \<le> 1 \<longrightarrow>
      effectProgress (getGlassModeForProgress p) = 1
      \<and> rightSideProgress (getGlassModeForProgress p) = 2 * (p - 1 / 2))"
  by (simp add: getGlassModeForProgress_def Let_def)

theorem glass_coverage_witness:
  "rightSideProgress (getGlassModeForProgress (1 / 4)) = 0
   \<and> effectProgress (getGlassModeForProgress (1 / 4)) = 1 / 2
   \<and> effectProgress (getGlassModeForProgress (3 / 4)) = 1
   \<and> rightSideProgress (getGlassModeForProgress (3 / 4)) = 1 / 2"
  using glass_coverage_two_phases [of "1 / 4"] glass_coverage_two_phases [of "3 / 4"]
  by simp

text \<open>
  Claim C4. After a resume event at time \<open>t\<close>, and whatever frames, resizes and
  overrides follow it, a call of the degrade path at a time before \<open>t + 4500\<close> returns
  the state unchanged; and a frame at such a time that is ignored or falls in the
  degrading band (smoothed frame rate below the drop threshold) leaves the tier and
  the bucket index as they were.
\<close>

theorem resume_guard_blocks_degrade:
  assumes "\<forall>e \<in> set evs. \<not> isResume e" and "now < t + 4500"
    and "s' = run evs (triggerResumeGuard t s)"
  shows "attemptDegrade now s' = s'
       \<and> (resumeIgnoreFrames s' > 0 \<or> fpsBand (nextEma delta s') = Degrading \<longrightarrow>
            effectQualityLevel (perfAdaptiveUpdate delta now s') = effectQualityLevel s'
            \<and> dprBucketIndex (perfAdaptiveUpdate delta now s') = dprBucketIndex s')"
proof -
  from run_guard [OF assms(1)] assms(3)
  have "resumeGuardUntil s' = t + 4500" by (simp add: triggerResumeGuard_def)
  with assms(2) have g: "now < resumeGuardUntil s'" by simp
  have blocked: "attemptDegrade now x = x" if "now < resumeGuardUntil x" for x
    using that by (simp add: attemptDegrade_def)
  have frame: "effectQualityLevel (perfAdaptiveUpdate delta now s') = effectQualityLevel s'
      \<and> dprBucketIndex (perfAdaptiveUpdate delta now s') = dprBucketIndex s'"
    if "resumeIgnoreFrames s' > 0 \<or> fpsBand (nextEma delta s') = Degrading"
  proof (cases "resumeIgnoreFrames s' > 0")
    case True
    then show ?thesis by (simp add: perfAdaptiveUpdate_ignore)
  next
    case False
    with that have z: "resumeIgnoreFrames s' = 0" and d: "fpsBand (nextEma delta s') = Degrading"
      by simp_all
    let ?s2 = "s'\<lparr>emaFrameTime := nextEma delta s', lastEmaFPS := 1 / nextEma delta s',
                 lowPerfAccum := lowPerfAccum s' + delta * 1000, highPerfAccum := 0\<rparr>"
    from g have "attemptDegrade now ?s2 = ?s2" by (intro blocked) simp
    then show ?thesis by (simp add: perfAdaptiveUpdate_degrading [OF z d])
  qed
  from blocked [OF g] frame show ?thesis by blast
qed

theorem resume_guard_witness:
  "(5000::real) < 1000 + 4500
   \<and> attemptDegrade 5000
        (run [Frame (1 / 30) 1100, ForceTier 1]
           (triggerResumeGuard 1000 (startSession laptopProbe 1440 900 0)))
      = run [Frame (1 / 30) 1100, ForceTier 1]
          (triggerResumeGuard 1000 (startSession laptopProbe 1440 900 0))"
proof -
  have h: "\<forall>e \<in> set [Frame (1 / 30) 1100, ForceTier 1]. \<not> isResume e" by simp
  have n: "(5000::real) < 1000 + 4500" by simp
  from resume_guard_blocks_degrade [OF h n refl] h n show ?thesis by blast
qed

text \<open>
  Claim C5, as stated, fails: the override \<open>window.__perfDebug.setBaseCap\<close> writes its
  argument, clamped between 0.5 and \<open>baseCapMax\<close>, so it can lower \<open>baseCapCurrent\<close>:
  on a laptop session it takes 1.55 down to 0.5.
\<close>

theorem baseCap_override_counterexample:
  "baseCapCurrent (setBaseCap (1 / 2) (startSession laptopProbe 1440 900 0))
     < baseCapCurrent (startSession laptopProbe 1440 900 0)"
  by (simp add: setBaseCap_def laptop_profile)

text \<open>
  Claim C5, amended. Over any sequence of frames (with their degrade and upgrade
  steps and the pixel-budget enforcement they run), resume events, resizes and
  \<open>forceBucket\<close> and \<open>forceTier\<close> overrides, \<open>baseCapCurrent\<close> ends at or above its
  starting value; the \<open>setBaseCap\<close> override sets it to its argument clamped between
  0.5 and \<open>baseCapMax\<close>.
\<close>

theorem baseCap_monotone_without_override:
  assumes "\<forall>e \<in> set evs. \<not> isSetBaseCap e"
  shows "baseCapCurrent s \<le> baseCapCurrent (run evs s)
       \<and> baseCapCurrent (setBaseCap v (run evs s)) = min (max (1 / 2) v) (baseCapMax s)"
proof -
  have "baseCapMax (run evs s) = baseCapMax s"
  proof (induction evs arbitrary: s)
    case Nil
    then show ?case by simp
  next
    case (Cons e evs)
    have "baseCapMax (step e s) = baseCapMax s"
    proof (cases e)
      case (Frame delta now)
      show ?thesis
      proof (cases rule: perfAdaptiveUpdate_cases [where s = s and delta = delta])
        case ignore
        with Frame show ?thesis by (simp add: perfAdaptiveUpdate_ignore)
      next
        case degrading
        with Frame show ?thesis by (simp add: perfAdaptiveUpdate_degrading)
      next
        case upgrading
        with Frame show ?thesis by (simp add: perfAdaptiveUpdate_upgrading)
      next
        case neutral
        with Frame show ?thesis by (simp add: perfAdaptiveUpdate_neutral)
      qed
    qed (simp_all add: triggerResumeGuard_def forceBucket_def
        forceTier_def setBaseCap_def)
    with Cons show ?case by simp
  qed
  with run_baseCap [OF assms] show ?thesis by (simp add: setBaseCap_def)
qed

theorem baseCap_monotone_witness:
  "baseCapCurrent (startSession laptopProbe 1440 900 0)
     \<le> baseCapCurrent (run [Frame (1 / 60) 16, Resume 20, Resize 800 600, ForceBucket 1, ForceTier 2]
          (startSession laptopProbe 1440 900 0))"
proof -
  have h: "\<forall>e \<in> set [Frame (1 / 60) 16, Resume 20, Resize 800 600, ForceBucket 1, ForceTier 2].
      \<not> isSetBaseCap e"
    by simp
  from baseCap_monotone_without_override [OF h] h show ?thesis by blast
qed

text \<open>
  Claim C6. \<open>enforcePixelBudget\<close> is idempotent: called again on the state it
  returned, with nothing changed in between, it returns that state, so the bucket
  index does not move a second time.
\<close>

theorem pixel_budget_idempotent:
  "enforcePixelBudget (enforcePixelBudget s) = enforcePixelBudget s"
  using enforcePixelBudget_ok [of s] by (subst enforcePixelBudget_eq) simp

text \<open>
  Claim C7, as stated, fails for saturation: \<open>updateSaturationForScroll\<close> multiplies
  the progress by \<open>0.0\<close>, so the value it writes at full scroll is the base value
  \<open>-0.25\<close>, the same as at one half, and not an eased value between the base and the
  target \<open>-0.8\<close> that the function's comment names. In the earlier entry script the
  exposure target is a step at one half, not the eased value either.
\<close>

theorem saturation_counterexample:
  "updateSaturationForScroll (- 1 / 4) (Some (- 1 / 4)) 1 = Some (- 1 / 4)
   \<and> updateSaturationForScroll (- 1 / 4) (Some (- 1 / 4)) 1
       = updateSaturationForScroll (- 1 / 4) (Some (- 1 / 4)) (1 / 2)
   \<and> updateSaturationForScroll (- 1 / 4) (Some (- 1 / 4)) 1
       \<noteq> Some (backHalfEased (- 1 / 4) (- 4 / 5) 1)
   \<and> handleScroll_targetExposure 1 (3 / 4) \<noteq> backHalfEased 1 (7 / 10) (3 / 4)"
  by (simp add: updateSaturationForScroll_def backHalfEased_def smoothstep01_def
      handleScroll_targetExposure_def)

text \<open>
  Claim C7, amended. For every progress up to one half both the exposure and the
  saturation written keep their base values; for progress in \<open>(0.5, 1]\<close> the exposure
  of the main entry script is the smoothstep interpolation of the rescaled progress
  between the base value and its scrolled target, 0.7 times the base value, which it
  reaches at progress 1. In the earlier entry script the exposure target is the base
  value up to one half and 0.7 times the base value beyond. Nothing is stated about the
  saturation beyond one half.
\<close>

theorem exposure_eased_over_back_half:
  "(p \<le> 1 / 2 \<longrightarrow>
      computeExposureForScroll b p = b
      \<and> updateSaturationForScroll bs (Some x) p = Some bs)
   \<and> (1 / 2 < p \<and> p \<le> 1 \<longrightarrow>
        computeExposureForScroll b p = backHalfEased b (b * (7 / 10)) p)
   \<and> computeExposureForScroll b 1 = b * (7 / 10)
   \<and> handleScroll_targetExposure b p = (if p \<le> 1 / 2 then b else b * (7 / 10))"
proof -
  have "computeExposureForScroll b 1 = b * (7 / 10)"
    using exposure_back [of 1 b] by (simp add: smoothstep01_def algebra_simps)
  then show ?thesis
    by (auto simp add: exposure_front exposure_back backHalfEased_def
        updateSaturationForScroll_def handleScroll_targetExposure_def)
qed

theorem exposure_eased_witness:
  "computeExposureForScroll 1 (1 / 4) = 1
   \<and> updateSaturationForScroll (- 1 / 4) (Some (- 1 / 4)) (1 / 4) = Some (- 1 / 4)
   \<and> computeExposureForScroll 1 (3 / 4) = backHalfEased 1 (7 / 10) (3 / 4)
   \<and> backHalfEased 1 (7 / 10) (3 / 4) = 17 / 20"
  using exposure_eased_over_back_half [of "1 / 4" 1 "- 1 / 4" "- 1 / 4"]
    exposure_eased_over_back_half [of "3 / 4" 1]
  by (simp add: backHalfEased_def smoothstep01_def)

text \<open>
  Claim C8, as stated, fails for an input that is not a number but is truthy: for a
  plain object \<open>scrollProgress || 0\<close> is the object itself, \<open>Math.min\<close> turns it into
  \<open>NaN\<close>, and \<open>NaN\<close> is written to the uniform, not 0. It also fails for the right-side
  progress that \<open>setReededSplitScreenMode\<close> writes: that function has no \<open>|| 0\<close>, so a
  \<open>NaN\<close> input is written as \<open>NaN\<close>.
\<close>

theorem scroll_progress_object_counterexample:
  "setReededScrollProgress (Some [''scrollProgress'' \<mapsto> Fin 0]) Obj
     = Inr (Some [''scrollProgress'' \<mapsto> NaN])
   \<and> setReededSplitScreenMode (Some [''rightSideProgress'' \<mapsto> Fin 0])
        (Bool True) (Num (Fin (1 / 2))) (Num NaN)
     = Inr (Some [''rightSideProgress'' \<mapsto> NaN])"
  by (simp add: setReededScrollProgress_def setReededSplitScreenMode_def has_def
      setUniform_def orZero_def)

text \<open>
  Claim C8, amended. For every input that is a number or is missing, writing the scroll
  progress never throws, through \<open>setReededScrollProgress\<close> (the left-side progress)
  and through \<open>setReededSplitScreenMode\<close> (the right-side progress): with the handle
  absent the call does nothing; with the handle present and no uniform of the name it
  writes no progress; otherwise the value written is the input clamped to \<open>[0, 1]\<close>
  when the input is a number (1 for \<open>Infinity\<close>, 0 for \<open>-Infinity\<close>), and 0 when it
  is \<open>undefined\<close> or \<open>null\<close>. A \<open>NaN\<close> input is written as 0 by
  \<open>setReededScrollProgress\<close>; nothing is stated about the value that
  \<open>setReededSplitScreenMode\<close> writes for it.
\<close>

theorem scroll_progress_write_total:
  "setReededScrollProgress None x = Inr None
   \<and> (\<exists>U'. setReededScrollProgress (Some U) x = Inr (Some U'))
   \<and> (U ''scrollProgress'' = None \<longrightarrow> setReededScrollProgress (Some U) x = Inr (Some U))
   \<and> (U ''scrollProgress'' \<noteq> None \<longrightarrow>
        setReededScrollProgress (Some U) (Num (Fin r))
          = Inr (Some (U(''scrollProgress'' \<mapsto> Fin (max 0 (min 1 r)))))
        \<and> setReededScrollProgress (Some U) (Num PosInf)
          = Inr (Some (U(''scrollProgress'' \<mapsto> Fin 1)))
        \<and> setReededScrollProgress (Some U) (Num NegInf)
          = Inr (Some (U(''scrollProgress'' \<mapsto> Fin 0)))
        \<and> setReededScrollProgress (Some U) (Num NaN)
          = Inr (Some (U(''scrollProgress'' \<mapsto> Fin 0)))
        \<and> setReededScrollProgress (Some U) Undefined
          = Inr (Some (U(''scrollProgress'' \<mapsto> Fin 0)))
        \<and> setReededScrollProgress (Some U) Null
          = Inr (Some (U(''scrollProgress'' \<mapsto> Fin 0))))
   \<and> setReededSplitScreenMode None en bd x = Inr None
   \<and> (\<exists>U'. setReededSplitScreenMode (Some U) en bd x = Inr (Some U'))
   \<and> (U ''rightSideProgress'' = None \<longrightarrow>
        uniformAfter (setReededSplitScreenMode (Some U) en bd x) ''rightSideProgress'' = None)
   \<and> (U ''rightSideProgress'' \<noteq> None \<longrightarrow>
        uniformAfter (setReededSplitScreenMode (Some U) en bd (Num (Fin r))) ''rightSideProgress''
          = Some (Fin (max 0 (min 1 r)))
        \<and> uniformAfter (setReededSplitScreenMode (Some U) en bd (Num PosInf)) ''rightSideProgress''
          = Some (Fin 1)
        \<and> uniformAfter (setReededSplitScreenMode (Some U) en bd (Num NegInf)) ''rightSideProgress''
          = Some (Fin 0)
        \<and> uniformAfter (setReededSplitScreenMode (Some U) en bd Undefined) ''rightSideProgress''
          = Some (Fin 0)
        \<and> uniformAfter (setReededSplitScreenMode (Some U) en bd Null) ''rightSideProgress''
          = Some (Fin 0))"
proof -
  have none: "setReededScrollProgress None x = Inr None"
    by (simp add: setReededScrollProgress_def)
  have absent: "setReededScrollProgress (Some U) y = Inr (Some U)"
    if "U ''scrollProgress'' = None" for y
    using that by (simp add: setReededScrollProgress_def has_def)
  have present: "setReededScrollProgress (Some U) y
      = Inr (Some (U(''scrollProgress'' \<mapsto> js_max (Fin 0) (js_min (Fin 1) (toNumber (orZero y))))))"
    if "U ''scrollProgress'' \<noteq> None" for y
    using that by (auto simp add: setReededScrollProgress_def has_def setUniform_def)
  have total: "\<exists>U'. setReededScrollProgress (Some U) x = Inr (Some U')"
    using absent [of x] present [of x] by (cases "U ''scrollProgress'' = None") auto
  have vals: "setReededScrollProgress (Some U) (Num (Fin r))
          = Inr (Some (U(''scrollProgress'' \<mapsto> Fin (max 0 (min 1 r)))))
        \<and> setReededScrollProgress (Some U) (Num PosInf)
          = Inr (Some (U(''scrollProgress'' \<mapsto> Fin 1)))
        \<and> setReededScrollProgress (Some U) (Num NegInf)
          = Inr (Some (U(''scrollProgress'' \<mapsto> Fin 0)))
        \<and> setReededScrollProgress (Some U) (Num NaN)
          = Inr (Some (U(''scrollProgress'' \<mapsto> Fin 0)))
        \<and> setReededScrollProgress (Some U) Undefined
          = Inr (Some (U(''scrollProgress'' \<mapsto> Fin 0)))
        \<and> setReededScrollProgress (Some U) Null
          = Inr (Some (U(''scrollProgress'' \<mapsto> Fin 0)))"
    if "U ''scrollProgress'' \<noteq> None"
    by (simp add: present [OF that] orZero_def)
  have snone: "setReededSplitScreenMode None en bd x = Inr None"
    by (simp add: setReededSplitScreenMode_def)
  from splitScreen_result [of U en bd x]
  have stotal: "\<exists>U'. setReededSplitScreenMode (Some U) en bd x = Inr (Some U')" by blast
  have sabsent: "uniformAfter (setReededSplitScreenMode (Some U) en bd x) ''rightSideProgress'' = None"
    if "U ''rightSideProgress'' = None"
    using that by (simp add: splitScreen_right)
  have svals: "uniformAfter (setReededSplitScreenMode (Some U) en bd (Num (Fin r))) ''rightSideProgress''
          = Some (Fin (max 0 (min 1 r)))
        \<and> uniformAfter (setReededSplitScreenMode (Some U) en bd (Num PosInf)) ''rightSideProgress''
          = Some (Fin 1)
        \<and> uniformAfter (setReededSplitScreenMode (Some U) en bd (Num NegInf)) ''rightSideProgress''
          = Some (Fin 0)
        \<and> uniformAfter (setReededSplitScreenMode (Some U) en bd Undefined) ''rightSideProgress''
          = Some (Fin 0)
        \<and> uniformAfter (setReededSplitScreenMode (Some U) en bd Null) ''rightSideProgress''
          = Some (Fin 0)"
    if "U ''rightSideProgress'' \<noteq> None"
    using that by (simp add: splitScreen_right)
  from none total absent vals snone stotal sabsent svals show ?thesis by blast
qed

theorem scroll_progress_write_witness:
  "setReededScrollProgress (Some [''scrollProgress'' \<mapsto> Fin 0]) (Num (Fin (3 / 2)))
     = Inr (Some [''scrollProgress'' \<mapsto> Fin 1])
   \<and> setReededScrollProgress (Some [''scrollProgress'' \<mapsto> Fin (1 / 2)]) Undefined
     = Inr (Some [''scrollProgress'' \<mapsto> Fin 0])
   \<and> setReededScrollProgress (Some [''resolution'' \<mapsto> Fin 1]) (Num (Fin (1 / 2)))
     = Inr (Some [''resolution'' \<mapsto> Fin 1])
   \<and> uniformAfter
        (setReededSplitScreenMode (Some [''rightSideProgress'' \<mapsto> Fin 0])
           (Bool True) (Num (Fin (1 / 2))) (Num (Fin (3 / 2)))) ''rightSideProgress''
     = Some (Fin 1)
   \<and> uniformAfter
        (setReededSplitScreenMode (Some [''rightSideProgress'' \<mapsto> Fin (1 / 4)])
           (Bool True) (Num (Fin (1 / 2))) Undefined) ''rightSideProgress''
     = Some (Fin 0)
   \<and> uniformAfter
        (setReededSplitScreenMode (Some [''scrollProgress'' \<mapsto> Fin (1 / 4)])
           (Bool True) (Num (Fin (1 / 2))) (Num (Fin (1 / 2)))) ''rightSideProgress''
     = None"
  using scroll_progress_write_total [of _ "[''scrollProgress'' \<mapsto> Fin 0]" "3 / 2"]
    scroll_progress_write_total [of _ "[''scrollProgress'' \<mapsto> Fin (1 / 2)]"]
    scroll_progress_write_total [of "Num (Fin (1 / 2))" "[''resolution'' \<mapsto> Fin 1]"]
    scroll_progress_write_total [of _ "[''rightSideProgress'' \<mapsto> Fin 0]" "3 / 2"
      "Bool True" "Num (Fin (1 / 2))"]
    scroll_progress_write_total [of _ "[''rightSideProgress'' \<mapsto> Fin (1 / 4)]" _
      "Bool True" "Num (Fin (1 / 2))"]
    scroll_progress_write_total [of "Num (Fin (1 / 2))" "[''scrollProgress'' \<mapsto> Fin (1 / 4)]" _
      "Bool True" "Num (Fin (1 / 2))"]
  by simp

text \<open>
  Claim C9, as stated, fails: the points of the per-frame update include the one between
  the two statements \<open>_lowPerfAccum += delta * 1000; _highPerfAccum = 0;\<close> of the
  degrading band (and between the two of the upgrading band), where the one
  accumulator has grown and the other is not yet zeroed. On the laptop, after 101 smooth
  frames of ten milliseconds the high accumulator is positive; a frame that took four
  seconds then falls in the degrading band, and after its first statement both
  accumulators are positive.
\<close>

theorem accumulators_both_positive_counterexample:
  "fpsBand (nextEma 4 (run (smoothFrames 101) (startSession laptopProbe 1440 900 0))) = Degrading
   \<and> framePoints 4 5010 (run (smoothFrames 101) (startSession laptopProbe 1440 900 0)) ! 1
       = (framePoints 4 5010 (run (smoothFrames 101) (startSession laptopProbe 1440 900 0)) ! 0)
           \<lparr>lowPerfAccum := 4000\<rparr>
   \<and> 0 < lowPerfAccum
           (framePoints 4 5010 (run (smoothFrames 101) (startSession laptopProbe 1440 900 0)) ! 1)
   \<and> 0 < highPerfAccum
           (framePoints 4 5010 (run (smoothFrames 101) (startSession laptopProbe 1440 900 0)) ! 1)"
proof -
  let ?y = "run (smoothFrames 101) (startSession laptopProbe 1440 900 0)"
  from smooth_stall_point(1) have "lowPerfAccum (framePoints 4 5010 ?y ! 1) = 4000" by simp
  moreover from smooth_stall_point(2) smooth_session(3)
  have "0 < highPerfAccum (framePoints 4 5010 ?y ! 1)" by simp
  ultimately show ?thesis using smooth_stall_band smooth_stall_point(1) by simp
qed

text \<open>
  Claim C9, amended. In any state, a frame in the degrading band zeroes the high
  accumulator, a frame in the upgrading band zeroes the low one, the decay of the
  neutral band keeps a zero accumulator at zero, a frame that attempts a ladder step
  leaves both at zero, and so does a resume event. So a frame with a non-negative delta
  that starts with one of the accumulators at zero ends with one of them at zero, and in
  every state of a session whose frame deltas are non-negative, taken between the calls
  of the frame callback and the listeners, at least one accumulator is zero. Inside the
  update the same holds after every statement but one: in a frame of the degrading or
  the upgrading band, the state between the statement that adds the frame time to one
  accumulator and the next statement, which zeroes the other.
\<close>

theorem accumulators_zero_outside_increment:
  "(resumeIgnoreFrames s = 0 \<and> fpsBand (nextEma delta s) = Degrading \<longrightarrow>
      highPerfAccum (perfAdaptiveUpdate delta now s) = 0)
   \<and> (resumeIgnoreFrames s = 0 \<and> fpsBand (nextEma delta s) = Upgrading \<longrightarrow>
        lowPerfAccum (perfAdaptiveUpdate delta now s) = 0)
   \<and> (resumeIgnoreFrames s = 0 \<and> fpsBand (nextEma delta s) = Neutral \<and> 0 \<le> delta \<longrightarrow>
        (lowPerfAccum s = 0 \<longrightarrow> lowPerfAccum (perfAdaptiveUpdate delta now s) = 0)
        \<and> (highPerfAccum s = 0 \<longrightarrow> highPerfAccum (perfAdaptiveUpdate delta now s) = 0))
   \<and> (resumeIgnoreFrames s = 0 \<and> fpsBand (nextEma delta s) = Degrading
        \<and> PERF_DEGRADE_MIN_DURATION \<le> lowPerfAccum s + delta * 1000 \<longrightarrow>
        lowPerfAccum (perfAdaptiveUpdate delta now s) = 0
        \<and> highPerfAccum (perfAdaptiveUpdate delta now s) = 0)
   \<and> (resumeIgnoreFrames s = 0 \<and> fpsBand (nextEma delta s) = Upgrading
        \<and> PERF_UPGRADE_MIN_DURATION \<le> highPerfAccum s + delta * 1000 \<longrightarrow>
        lowPerfAccum (perfAdaptiveUpdate delta now s) = 0
        \<and> highPerfAccum (perfAdaptiveUpdate delta now s) = 0)
   \<and> lowPerfAccum (triggerResumeGuard now s) = 0
   \<and> highPerfAccum (triggerResumeGuard now s) = 0
   \<and> ((lowPerfAccum s = 0 \<or> highPerfAccum s = 0) \<and> 0 \<le> delta \<longrightarrow>
        (lowPerfAccum (perfAdaptiveUpdate delta now s) = 0
           \<or> highPerfAccum (perfAdaptiveUpdate delta now s) = 0)
        \<and> \<not> (0 < lowPerfAccum (perfAdaptiveUpdate delta now s)
              \<and> 0 < highPerfAccum (perfAdaptiveUpdate delta now s)))
   \<and> ((\<forall>e \<in> set evs. nonnegDelta e) \<longrightarrow>
        (lowPerfAccum (run evs (startSession d w h tz)) = 0
           \<or> highPerfAccum (run evs (startSession d w h tz)) = 0)
        \<and> \<not> (0 < lowPerfAccum (run evs (startSession d w h tz))
              \<and> 0 < highPerfAccum (run evs (startSession d w h tz))))
   \<and> last (framePoints delta now s) = perfAdaptiveUpdate delta now s
   \<and> ((lowPerfAccum s = 0 \<or> highPerfAccum s = 0) \<and> 0 \<le> delta \<longrightarrow>
        (\<forall>p \<in> set (framePoints delta now s).
           (lowPerfAccum p = 0 \<or> highPerfAccum p = 0)
           \<or> (resumeIgnoreFrames s = 0 \<and> fpsBand (nextEma delta s) \<noteq> Neutral
               \<and> p = framePoints delta now s ! 1)))"
proof -
  have deg: "resumeIgnoreFrames s = 0 \<and> fpsBand (nextEma delta s) = Degrading \<longrightarrow>
      highPerfAccum (perfAdaptiveUpdate delta now s) = 0"
    by (auto simp add: perfAdaptiveUpdate_degrading)
  have upg: "resumeIgnoreFrames s = 0 \<and> fpsBand (nextEma delta s) = Upgrading \<longrightarrow>
        lowPerfAccum (perfAdaptiveUpdate delta now s) = 0"
    by (auto simp add: perfAdaptiveUpdate_upgrading)
  have neu: "resumeIgnoreFrames s = 0 \<and> fpsBand (nextEma delta s) = Neutral \<and> 0 \<le> delta \<longrightarrow>
        (lowPerfAccum s = 0 \<longrightarrow> lowPerfAccum (perfAdaptiveUpdate delta now s) = 0)
        \<and> (highPerfAccum s = 0 \<longrightarrow> highPerfAccum (perfAdaptiveUpdate delta now s) = 0)"
    by (auto simp add: perfAdaptiveUpdate_neutral max_def)
  have degReset: "resumeIgnoreFrames s = 0 \<and> fpsBand (nextEma delta s) = Degrading
        \<and> PERF_DEGRADE_MIN_DURATION \<le> lowPerfAccum s + delta * 1000 \<longrightarrow>
        lowPerfAccum (perfAdaptiveUpdate delta now s) = 0
        \<and> highPerfAccum (perfAdaptiveUpdate delta now s) = 0"
    by (auto simp add: perfAdaptiveUpdate_degrading)
  have upgReset: "resumeIgnoreFrames s = 0 \<and> fpsBand (nextEma delta s) = Upgrading
        \<and> PERF_UPGRADE_MIN_DURATION \<le> highPerfAccum s + delta * 1000 \<longrightarrow>
        lowPerfAccum (perfAdaptiveUpdate delta now s) = 0
        \<and> highPerfAccum (perfAdaptiveUpdate delta now s) = 0"
    by (auto simp add: perfAdaptiveUpdate_upgrading)
  have resLow: "lowPerfAccum (triggerResumeGuard now s) = 0"
    and resHigh: "highPerfAccum (triggerResumeGuard now s) = 0"
    by (simp_all add: triggerResumeGuard_def)
  have after: "(lowPerfAccum s = 0 \<or> highPerfAccum s = 0) \<and> 0 \<le> delta \<longrightarrow>
        (lowPerfAccum (perfAdaptiveUpdate delta now s) = 0
           \<or> highPerfAccum (perfAdaptiveUpdate delta now s) = 0)
        \<and> \<not> (0 < lowPerfAccum (perfAdaptiveUpdate delta now s)
              \<and> 0 < highPerfAccum (perfAdaptiveUpdate delta now s))"
  proof
    assume a: "(lowPerfAccum s = 0 \<or> highPerfAccum s = 0) \<and> 0 \<le> delta"
    then have "accumInv s" "0 \<le> delta" by (simp_all add: accumInv_def)
    from perfAdaptiveUpdate_accum [OF this(2,1), of now]
    show "(lowPerfAccum (perfAdaptiveUpdate delta now s) = 0
           \<or> highPerfAccum (perfAdaptiveUpdate delta now s) = 0)
        \<and> \<not> (0 < lowPerfAccum (perfAdaptiveUpdate delta now s)
              \<and> 0 < highPerfAccum (perfAdaptiveUpdate delta now s))"
      by (auto simp add: accumInv_def)
  qed
  have session: "(\<forall>e \<in> set evs. nonnegDelta e) \<longrightarrow>
        (lowPerfAccum (run evs (startSession d w h tz)) = 0
           \<or> highPerfAccum (run evs (startSession d w h tz)) = 0)
        \<and> \<not> (0 < lowPerfAccum (run evs (startSession d w h tz))
              \<and> 0 < highPerfAccum (run evs (startSession d w h tz)))"
  proof
    assume a: "\<forall>e \<in> set evs. nonnegDelta e"
    have "accumInv (startSession d w h tz)" by (simp add: accumInv_def)
    from run_accum [OF a this]
    show "(lowPerfAccum (run evs (startSession d w h tz)) = 0
           \<or> highPerfAccum (run evs (startSession d w h tz)) = 0)
        \<and> \<not> (0 < lowPerfAccum (run evs (startSession d w h tz))
              \<and> 0 < highPerfAccum (run evs (startSession d w h tz)))"
      by (auto simp add: accumInv_def)
  qed
  have final: "last (framePoints delta now s) = perfAdaptiveUpdate delta now s"
    by (rule framePoints_last)
  have points: "(lowPerfAccum s = 0 \<or> highPerfAccum s = 0) \<and> 0 \<le> delta \<longrightarrow>
        (\<forall>p \<in> set (framePoints delta now s).
           (lowPerfAccum p = 0 \<or> highPerfAccum p = 0)
           \<or> (resumeIgnoreFrames s = 0 \<and> fpsBand (nextEma delta s) \<noteq> Neutral
               \<and> p = framePoints delta now s ! 1))"
  proof
    assume a: "(lowPerfAccum s = 0 \<or> highPerfAccum s = 0) \<and> 0 \<le> delta"
    then have "accumInv s" "0 \<le> delta" by (simp_all add: accumInv_def)
    from framePoints_accum [OF this, of now]
    show "\<forall>p \<in> set (framePoints delta now s).
           (lowPerfAccum p = 0 \<or> highPerfAccum p = 0)
           \<or> (resumeIgnoreFrames s = 0 \<and> fpsBand (nextEma delta s) \<noteq> Neutral
               \<and> p = framePoints delta now s ! 1)"
      by (simp add: accumInv_def)
  qed
  show ?thesis
    by (intro conjI)
       (rule deg upg neu degReset upgReset resLow resHigh after session final points)+
qed

theorem accumulators_witness:
  "0 < highPerfAccum (run (smoothFrames 101) (startSession laptopProbe 1440 900 0))
   \<and> lowPerfAccum (run (smoothFrames 101) (startSession laptopProbe 1440 900 0)) = 0
   \<and> highPerfAccum
        (perfAdaptiveUpdate 4 5010 (run (smoothFrames 101) (startSession laptopProbe 1440 900 0))) = 0
   \<and> lowPerfAccum
        (perfAdaptiveUpdate 4 5010 (run (smoothFrames 101) (startSession laptopProbe 1440 900 0))) = 0"
proof -
  let ?y = "run (smoothFrames 101) (startSession laptopProbe 1440 900 0)"
  have h: "\<forall>e \<in> set (smoothFrames 101). nonnegDelta e" by (rule smoothFrames_nonneg)
  from smooth_session(3) have pos: "0 < highPerfAccum ?y" by simp
  from accumulators_zero_outside_increment
      [where evs = "smoothFrames 101" and d = laptopProbe and w = 1440 and h = 900 and tz = 0]
    h
  have "lowPerfAccum ?y = 0 \<or> highPerfAccum ?y = 0" by blast
  with pos have low: "lowPerfAccum ?y = 0" by simp
  then have thr: "PERF_DEGRADE_MIN_DURATION \<le> lowPerfAccum ?y + 4 * 1000"
    by (simp add: PERF_DEGRADE_MIN_DURATION_def)
  from accumulators_zero_outside_increment [where s = ?y and delta = 4 and now = 5010]
    smooth_session(1) smooth_stall_band thr
  have "lowPerfAccum (perfAdaptiveUpdate 4 5010 ?y) = 0
      \<and> highPerfAccum (perfAdaptiveUpdate 4 5010 ?y) = 0"
    by blast
  with pos low show ?thesis by simp
qed

text \<open>
  Claim C10. For every progress value, inside or outside \<open>[0, 1]\<close>, the glass
  configuration has split-screen mode on and the boundary at one half.
\<close>

theorem glass_split_screen_fixed:
  "splitScreen (getGlassModeForProgress p) = True
   \<and> boundary (getGlassModeForProgress p) = 1 / 2"
  by (simp add: getGlassModeForProgress_def Let_def)

end
